theory Spec2Isabelle
  imports Complex_Main "HOL-Library.Sublist"
begin

section \<open>Strings as the program reads them\<close>

text \<open>
  The program of \<^verbatim>\<open>src/app.py\<close> works on Python \<^verbatim>\<open>str\<close> values. They are modelled as
  \<^typ>\<open>string\<close> (lists of \<^typ>\<open>char\<close>), read as ASCII text: the character classes
  below are the ASCII parts of Python's \<^verbatim>\<open>str.isdigit\<close>, \<^verbatim>\<open>\d\<close>, \<^verbatim>\<open>\w\<close> and of the
  white space that \<^verbatim>\<open>str.strip\<close> removes. Characters outside ASCII are in none of the
  classes.
\<close>

definition is_digit :: "char \<Rightarrow> bool" where
  "is_digit c = (c \<in> set ''0123456789'')"

definition is_word :: "char \<Rightarrow> bool" where
  "is_word c =
     (c \<in> set ''abcdefghijklmnopqrstuvwxyzABCDEFGHIJKLMNOPQRSTUVWXYZ0123456789_'')"

definition is_space :: "char \<Rightarrow> bool" where
  "is_space c = (c \<in> set [CHR '' '', CHR 0x09, CHR 0x0A, CHR 0x0B, CHR 0x0C, CHR 0x0D,
                            CHR 0x1C, CHR 0x1D, CHR 0x1E, CHR 0x1F])"

text \<open>\<^verbatim>\<open>s.isdigit()\<close>: at least one character, and every character a digit.\<close>

definition str_isdigit :: "string \<Rightarrow> bool" where
  "str_isdigit s = (s \<noteq> [] \<and> list_all is_digit s)"

text \<open>\<^verbatim>\<open>s.strip()\<close>: white space removed at both ends.\<close>

definition str_strip :: "string \<Rightarrow> string" where
  "str_strip s = rev (dropWhile is_space (rev (dropWhile is_space s)))"

text \<open>\<^verbatim>\<open>sub in s\<close>: \<open>sub\<close> occurs in \<open>s\<close> as a contiguous block.\<close>

fun str_in :: "string \<Rightarrow> string \<Rightarrow> bool" where
  "str_in sub [] = (sub = [])"
| "str_in sub (c # cs) = (prefix sub (c # cs) \<or> str_in sub cs)"

subsection \<open>The regular expressions of the program\<close>

text \<open>
  The three patterns of the program use literal characters, the classes \<^verbatim>\<open>\d\<close> and
  \<^verbatim>\<open>\w\<close> under the greedy repetitions \<^verbatim>\<open>+\<close> and \<^verbatim>\<open>*\<close>, the greedy option \<^verbatim>\<open>?\<close>,
  concatenation and capture groups. \<open>rmatch r s\<close> lists every way in which \<open>r\<close> matches
  a prefix of \<open>s\<close>, in the order in which Python's backtracking matcher tries them
  (longest repetition first): each entry is the list of captured groups, in the order
  of their opening parentheses, and the rest of the input. The first entry is the match
  that Python reports. An option is only applied to a pattern without groups.
\<close>

datatype cclass = Digit | Word

fun in_class :: "cclass \<Rightarrow> char \<Rightarrow> bool" where
  "in_class Digit c = is_digit c"
| "in_class Word c = is_word c"

datatype regex =
    RLit char
  | RPlus cclass
  | RStar cclass
  | ROpt regex
  | RSeq regex regex
  | RGrp regex

text \<open>The inputs left after a greedy run of class characters, longest run first.\<close>

fun rests :: "(char \<Rightarrow> bool) \<Rightarrow> string \<Rightarrow> string list" where
  "rests P [] = [[]]"
| "rests P (c # cs) = (if P c then rests P cs @ [c # cs] else [c # cs])"

fun rmatch :: "regex \<Rightarrow> string \<Rightarrow> (string list \<times> string) list" where
  "rmatch (RLit c) s = (case s of [] \<Rightarrow> [] | x # xs \<Rightarrow> if x = c then [([], xs)] else [])"
| "rmatch (RStar k) s = map (\<lambda>t. ([], t)) (rests (in_class k) s)"
| "rmatch (RPlus k) s =
     (case s of [] \<Rightarrow> []
      | x # xs \<Rightarrow> if in_class k x then map (\<lambda>t. ([], t)) (rests (in_class k) xs) else [])"
| "rmatch (ROpt r) s = rmatch r s @ [([], s)]"
| "rmatch (RSeq a b) s =
     concat (map (\<lambda>(g1, t). map (\<lambda>(g2, u). (g1 @ g2, u)) (rmatch b t)) (rmatch a s))"
| "rmatch (RGrp r) s = map (\<lambda>(g, t). (take (length s - length t) s # g, t)) (rmatch r s)"

text \<open>
  \<^verbatim>\<open>re.search(r, s)\<close>: the first match at the leftmost position that has one; the value
  is the list of the groups (\<^verbatim>\<open>group(1)\<close>, \<^verbatim>\<open>group(2)\<close>, ...), \<open>None\<close> when no position
  matches.
\<close>

fun re_search :: "regex \<Rightarrow> string \<Rightarrow> string list option" where
  "re_search r [] = (case rmatch r [] of [] \<Rightarrow> None | (g, _) # _ \<Rightarrow> Some g)"
| "re_search r (c # cs) =
     (case rmatch r (c # cs) of [] \<Rightarrow> re_search r cs | (g, _) # _ \<Rightarrow> Some g)"

text \<open>A literal text followed by a pattern.\<close>

fun re_lits :: "string \<Rightarrow> regex \<Rightarrow> regex" where
  "re_lits [] r = r"
| "re_lits (c # cs) r = RSeq (RLit c) (re_lits cs r)"

text \<open>\<^verbatim>\<open>\d+\.?\d*\<close>, the decimal number of the two progress patterns.\<close>

definition re_number :: regex where
  "re_number = RSeq (RPlus Digit) (RSeq (ROpt (RLit CHR ''.'')) (RStar Digit))"

text \<open>\<^verbatim>\<open>app/(\d+)\<close>\<close>

definition re_app_id :: regex where
  "re_app_id = re_lits ''app/'' (RGrp (RPlus Digit))"

text \<open>\<^verbatim>\<open>(\d+\.?\d*)%\<close>\<close>

definition re_percent :: regex where
  "re_percent = RSeq (RGrp re_number) (RLit CHR ''%'')"

text \<open>\<^verbatim>\<open>(\d+\.?\d*) (\w+) / (\d+\.?\d*) (\w+)\<close>\<close>

definition re_size :: regex where
  "re_size =
     RSeq (RGrp re_number) (RSeq (RLit CHR '' '') (RSeq (RGrp (RPlus Word))
       (re_lits '' / '' (RSeq (RGrp re_number) (RSeq (RLit CHR '' '') (RGrp (RPlus Word)))))))"

section \<open>Identifier resolution\<close>

text \<open>
  \<^verbatim>\<open>SteamCMDDownloader._extract_game_id\<close>: the input itself when it is a digit string,
  else the first group of \<^verbatim>\<open>app/(\d+)\<close> found in it, else \<open>None\<close>.
\<close>

definition extract_game_id :: "string \<Rightarrow> string option" where
  "extract_game_id game_input =
     (if str_isdigit game_input then Some game_input
      else (case re_search re_app_id game_input of
              Some (g # _) \<Rightarrow> Some g
            | _ \<Rightarrow> None))"

section \<open>Numbers and durations\<close>

text \<open>
  Python's floats are doubles. What their arithmetic rounds to, and where it overflows
  to an infinity or gives a NaN, is not fixed by the model: the operations that the
  program uses on floats are a parameter \<open>fl\<close> of every function that computes with them,
  over any type \<open>'f\<close> of float values, and the statements hold for every such arithmetic.
  Only what a float is worth is part of the interface (\<open>fval\<close>): a finite real number,
  an infinity or a NaN; the comparison with zero and \<^verbatim>\<open>int(x)\<close> are defined from it. A
  \<^verbatim>\<open>datetime\<close> is the \<^typ>\<open>real\<close> number of seconds since some fixed origin, a \<^verbatim>\<open>timedelta\<close>
  of whole seconds is the \<^typ>\<open>int\<close> number of its seconds.
\<close>

datatype py_error = OverflowError | ValueError

datatype fvalue = Finite real | PosInf | NegInf | NaN

record 'f float_ops =
  float_of_str :: "string \<Rightarrow> 'f"
  float_of_int :: "int \<Rightarrow> 'f"
  total_seconds :: "real \<Rightarrow> 'f"
  fdiv :: "'f \<Rightarrow> 'f \<Rightarrow> 'f"
  fmul :: "'f \<Rightarrow> 'f \<Rightarrow> 'f"
  fsub :: "'f \<Rightarrow> 'f \<Rightarrow> 'f"
  fval :: "'f \<Rightarrow> fvalue"

text \<open>
  The fields are: \<^verbatim>\<open>float(s)\<close> of a text; the conversion of an \<^verbatim>\<open>int\<close> operand such as
  \<^verbatim>\<open>1024\<close> in \<^verbatim>\<open>x / 1024\<close>; \<^verbatim>\<open>total_seconds()\<close> of the difference of two times; \<^verbatim>\<open>x / y\<close>,
  \<^verbatim>\<open>x * y\<close> and \<^verbatim>\<open>x - y\<close>; and the worth of a float. The divisions of the program are by
  \<^verbatim>\<open>1024\<close> or under a test that the divisor is positive, so none raises
  \<^verbatim>\<open>ZeroDivisionError\<close>.
\<close>

text \<open>\<^verbatim>\<open>x > 0\<close> for a float \<open>x\<close>.\<close>

definition fpos :: "'f float_ops \<Rightarrow> 'f \<Rightarrow> bool" where
  "fpos fl x = (case fval fl x of Finite r \<Rightarrow> 0 < r | PosInf \<Rightarrow> True | NegInf \<Rightarrow> False | NaN \<Rightarrow> False)"

text \<open>The fraction of a real number cut off, towards zero.\<close>

definition py_int :: "real \<Rightarrow> int" where
  "py_int x = (if 0 \<le> x then \<lfloor>x\<rfloor> else \<lceil>x\<rceil>)"

text \<open>
  \<^verbatim>\<open>int(x)\<close> for a float \<open>x\<close>: the fraction of a finite value is cut off, an infinity raises
  \<^verbatim>\<open>OverflowError\<close>, a NaN raises \<^verbatim>\<open>ValueError\<close>.
\<close>

definition int_of_float :: "'f float_ops \<Rightarrow> 'f \<Rightarrow> py_error + int" where
  "int_of_float fl x =
     (case fval fl x of
        Finite r \<Rightarrow> Inr (py_int r)
      | PosInf \<Rightarrow> Inl OverflowError
      | NegInf \<Rightarrow> Inl OverflowError
      | NaN \<Rightarrow> Inl ValueError)"

text \<open>
  \<^verbatim>\<open>timedelta(seconds=n)\<close>: the seconds are split into days and a rest, and more than
  999999999 days in either direction raise \<^verbatim>\<open>OverflowError\<close>.
\<close>

definition timedelta_of_seconds :: "int \<Rightarrow> py_error + int" where
  "timedelta_of_seconds n =
     (if 999999999 < \<bar>n div 86400\<bar> then Inl OverflowError else Inr n)"

text \<open>
  A number held by the session: the \<^verbatim>\<open>int\<close> that the program writes as a literal
  (\<^verbatim>\<open>0\<close>, \<^verbatim>\<open>100\<close>), or a float that the parser computed.
\<close>

datatype 'f number = PyInt int | PyFloat 'f

subsection \<open>The arithmetic without rounding\<close>

text \<open>
  One arithmetic, used to evaluate the model on concrete lines: the floats are the real
  numbers, no operation rounds and every value is finite. \<open>decimal_value\<close> is the number
  that a decimal text (digits, then possibly a point and further digits) denotes.
\<close>

definition digit_val :: "char \<Rightarrow> nat" where
  "digit_val c = of_char c - 48"

definition dec_value :: "string \<Rightarrow> nat" where
  "dec_value s = foldl (\<lambda>n c. 10 * n + digit_val c) 0 s"

definition decimal_value :: "string \<Rightarrow> real" where
  "decimal_value s =
     (let ip = takeWhile is_digit s;
          fp = drop (Suc (length ip)) s
      in real (dec_value ip) + real (dec_value fp) / 10 ^ length fp)"

definition exact_arith :: "real float_ops" where
  "exact_arith =
     \<lparr>float_of_str = decimal_value, float_of_int = of_int, total_seconds = (\<lambda>d. d),
      fdiv = (\<lambda>x y. x / y), fmul = (\<lambda>x y. x * y), fsub = (\<lambda>x y. x - y),
      fval = Finite\<rparr>"

section \<open>The session and the downloader\<close>

text \<open>
  The dictionary \<^verbatim>\<open>current_download\<close> has a fixed set of keys and is modelled as a
  record; its key \<^verbatim>\<open>"log"\<close> is the field \<open>log_entries\<close>. The six status strings are
  the constructors of \<open>status\<close>.
\<close>

datatype status = Idle | Preparing | Downloading | Completed | Error | Cancelled

record 'f session =
  game_id :: "string option"
  progress :: "'f number"
  status :: status
  start_time :: "real option"
  current_size :: "'f number"
  total_size :: "'f number"
  speed :: "'f number"
  remaining_time :: "int option"
  log_entries :: "string list"

text \<open>An entry of \<^verbatim>\<open>public_links\<close>: a dictionary with the keys \<^verbatim>\<open>"name"\<close> and \<^verbatim>\<open>"url"\<close>.\<close>

record public_link =
  link_name :: string
  link_url :: string

text \<open>
  The child process as the downloader sees it: \<^verbatim>\<open>poll()\<close> is \<^verbatim>\<open>None\<close> until the child
  has exited. \<open>Signalled\<close> is a child that \<^verbatim>\<open>terminate()\<close> was called on and that has not
  exited yet.
\<close>

datatype popen = Running | Signalled | Exited

definition poll_is_None :: "popen \<Rightarrow> bool" where
  "poll_is_None p = (p \<noteq> Exited)"

text \<open>
  The object \<^verbatim>\<open>SteamCMDDownloader\<close>. The field \<open>publisher_calls\<close> is not in the source:
  it counts the calls of \<^verbatim>\<open>_create_public_links\<close>, so that a statement can say how
  often the link publisher ran.
\<close>

record 'f downloader =
  process :: "popen option"
  current_download :: "'f session"
  public_links :: "public_link list"
  publisher_calls :: nat

text \<open>\<^verbatim>\<open>SteamCMDDownloader.__init__\<close>\<close>

definition init_downloader :: "'f downloader" where
  "init_downloader =
     \<lparr>process = None,
      current_download =
        \<lparr>game_id = None, progress = PyInt 0, status = Idle, start_time = None,
         current_size = PyInt 0, total_size = PyInt 0, speed = PyInt 0,
         remaining_time = None, log_entries = []\<rparr>,
      public_links = [],
      publisher_calls = 0\<rparr>"

section \<open>The progress parser\<close>

text \<open>
  \<^verbatim>\<open>SteamCMDDownloader._parse_progress\<close>, on the session dictionary, under the
  arithmetic \<open>fl\<close>. \<open>tnow\<close> is the value of \<^verbatim>\<open>datetime.now()\<close> at the call. The result is
  the session as the call leaves it, and the exception with which the call ends, if it
  raises: \<^verbatim>\<open>timedelta(seconds=int(remaining_seconds))\<close> raises when the quotient is an
  infinity or a NaN, or is too many seconds for a \<^verbatim>\<open>timedelta\<close>. The percentage, the
  sizes and the speed are written before that point and stay written.
\<close>

definition parse_progress ::
  "'f float_ops \<Rightarrow> real \<Rightarrow> string \<Rightarrow> 'f session \<Rightarrow> 'f session \<times> py_error option" where
  "parse_progress fl tnow line cd =
     (let cd1 = (case re_search re_percent line of
                   Some (g # _) \<Rightarrow> cd\<lparr>progress := PyFloat (float_of_str fl g)\<rparr>
                 | _ \<Rightarrow> cd)
      in case re_search re_size line of
           Some [g1, current_unit, g3, total_unit] \<Rightarrow>
             (let current_size0 = float_of_str fl g1;
                  total_size0 = float_of_str fl g3;
                  current_size1 =
                    (if current_unit = ''KB'' then fdiv fl current_size0 (float_of_int fl 1024)
                     else if current_unit = ''GB''
                     then fmul fl current_size0 (float_of_int fl 1024)
                     else current_size0);
                  total_size1 =
                    (if total_unit = ''KB'' then fdiv fl total_size0 (float_of_int fl 1024)
                     else if total_unit = ''GB'' then fmul fl total_size0 (float_of_int fl 1024)
                     else total_size0);
                  cd2 = cd1\<lparr>current_size := PyFloat current_size1,
                            total_size := PyFloat total_size1\<rparr>
              in case start_time cd2 of
                   None \<Rightarrow> (cd2, None)
                 | Some t0 \<Rightarrow>
                     (let elapsed_time = total_seconds fl (tnow - t0)
                      in if fpos fl elapsed_time then
                           (let speed1 = fdiv fl current_size1 elapsed_time;
                                cd3 = cd2\<lparr>speed := PyFloat speed1\<rparr>
                            in if fpos fl speed1 then
                                 (let remaining_mb = fsub fl total_size1 current_size1;
                                      remaining_seconds = fdiv fl remaining_mb speed1
                                  in case int_of_float fl remaining_seconds of
                                       Inl err \<Rightarrow> (cd3, Some err)
                                     | Inr n \<Rightarrow>
                                         (case timedelta_of_seconds n of
                                            Inl err \<Rightarrow> (cd3, Some err)
                                          | Inr td \<Rightarrow>
                                              (cd3\<lparr>remaining_time := Some td\<rparr>, None)))
                               else (cd3, None))
                         else (cd2, None)))
         | _ \<Rightarrow> (cd1, None))"

section \<open>The link publisher\<close>

text \<open>
  What a monitor step reads from outside the downloader: the clock, the outcome of the
  file system work of the link publisher (\<open>Some msg\<close> when it raises an exception with
  the text \<open>msg\<close>), and the environment variable \<^verbatim>\<open>RAILWAY_PUBLIC_URL\<close>.
\<close>

record env =
  now :: real
  fs_error :: "string option"
  railway_public_url :: "string option"

text \<open>\<^verbatim>\<open>f"{game_id}"\<close> for a value that is a string or \<^verbatim>\<open>None\<close>.\<close>

definition fmt_game_id :: "string option \<Rightarrow> string" where
  "fmt_game_id g = (case g of None \<Rightarrow> ''None'' | Some s \<Rightarrow> s)"

text \<open>
  \<^verbatim>\<open>SteamCMDDownloader._create_public_links\<close>. The symbolic link and the manifest are
  file system effects outside the downloader; when they raise, the handler appends one
  entry to the session log and the links stay as they were.
\<close>

definition create_public_links :: "env \<Rightarrow> 'f downloader \<Rightarrow> 'f downloader" where
  "create_public_links e d =
     (let d0 = d\<lparr>publisher_calls := Suc (publisher_calls d)\<rparr>;
          cd = current_download d0
      in case fs_error e of
           Some msg \<Rightarrow>
             d0\<lparr>current_download :=
                  cd\<lparr>log_entries := log_entries cd @ [''Failed to create public links: '' @ msg]\<rparr>\<rparr>
         | None \<Rightarrow>
             (let railway_url =
                    (case railway_public_url e of
                       None \<Rightarrow> ''http://localhost:7860''
                     | Some u \<Rightarrow> u);
                  public_url = railway_url @ ''/public/app_'' @ fmt_game_id (game_id cd)
              in d0\<lparr>public_links :=
                      [\<lparr>link_name = ''Game Files Directory'', link_url = public_url\<rparr>,
                       \<lparr>link_name = ''Game Files Manifest'',
                        link_url = public_url @ ''/manifest.txt''\<rparr>]\<rparr>))"

section \<open>The monitor loop\<close>

text \<open>
  One iteration of the loop of \<^verbatim>\<open>SteamCMDDownloader._monitor_download_progress\<close>, for
  the output line \<open>line\<close>. Nothing in the loop catches an exception: when the parser
  raises, the iteration ends there, before the markers are looked at, and the exception
  leaves the loop.
\<close>

definition monitor_line ::
  "'f float_ops \<Rightarrow> env \<Rightarrow> string \<Rightarrow> 'f downloader \<Rightarrow> 'f downloader \<times> py_error option" where
  "monitor_line fl e line d =
     (let cd0 = current_download d;
          cd1 = cd0\<lparr>log_entries := log_entries cd0 @ [str_strip line]\<rparr>
      in case parse_progress fl (now e) line cd1 of
           (cd2, Some err) \<Rightarrow> (d\<lparr>current_download := cd2\<rparr>, Some err)
         | (cd2, None) \<Rightarrow>
             (if str_in ''Success!'' line then
                create_public_links e
                  (d\<lparr>current_download := cd2\<lparr>status := Completed, progress := PyInt 100\<rparr>\<rparr>)
              else if str_in ''ERROR!'' line \<or> str_in ''Failed'' line then
                d\<lparr>current_download := cd2\<lparr>status := Error\<rparr>\<rparr>
              else d\<lparr>current_download := cd2\<rparr>,
              None))"

text \<open>
  The loop over the lines that the child writes before it closes its output. The list is
  finite: the statements about the end of the loop are about a child that exits. An
  exception ends the loop at the line that raised it; the lines after it are not read.
\<close>

fun monitor_lines ::
  "'f float_ops \<Rightarrow> (env \<times> string) list \<Rightarrow> 'f downloader \<Rightarrow> 'f downloader \<times> py_error option" where
  "monitor_lines fl [] d = (d, None)"
| "monitor_lines fl ((e, line) # rest) d =
     (case monitor_line fl e line d of
        (d', Some err) \<Rightarrow> (d', Some err)
      | (d', None) \<Rightarrow> monitor_lines fl rest d')"

text \<open>
  After the loop: \<^verbatim>\<open>self.process.wait()\<close> returns once the child has exited, then the
  status is looked at.
\<close>

definition monitor_end :: "'f downloader \<Rightarrow> 'f downloader" where
  "monitor_end d =
     (let d1 = d\<lparr>process := map_option (\<lambda>_. Exited) (process d)\<rparr>;
          cd = current_download d1
      in if status cd = Downloading then
           d1\<lparr>current_download :=
                cd\<lparr>status := Error,
                   log_entries := log_entries cd @ [''Process ended unexpectedly'']\<rparr>\<rparr>
         else d1)"

text \<open>
  The body of the monitor thread. When an exception leaves the loop it ends the thread:
  the part after the loop does not run.
\<close>

definition monitor_download_progress ::
  "'f float_ops \<Rightarrow> (env \<times> string) list \<Rightarrow> 'f downloader \<Rightarrow> 'f downloader \<times> py_error option" where
  "monitor_download_progress fl lines d =
     (case monitor_lines fl lines d of
        (d', Some err) \<Rightarrow> (d', Some err)
      | (d', None) \<Rightarrow> (monitor_end d', None))"

section \<open>Requests\<close>

text \<open>
  What a download request reads from outside the downloader: the clock, and whether
  \<^verbatim>\<open>os.makedirs\<close> and the start of the child (\<^verbatim>\<open>subprocess.Popen\<close> and the monitor
  thread) raise, with the text of the exception.
\<close>

record spawn_env =
  clock :: real
  makedirs_error :: "string option"
  popen_error :: "string option"

text \<open>The result of a call: a returned value, or an exception that leaves the call.\<close>

datatype 'a outcome = Returned 'a | Raised string

text \<open>The reset of the session at the start of an accepted request (lines 193 to 203).\<close>

definition reset_session :: "real \<Rightarrow> string \<Rightarrow> 'f downloader \<Rightarrow> 'f downloader" where
  "reset_session t gid d =
     d\<lparr>current_download :=
         \<lparr>game_id = Some gid, progress = PyInt 0, status = Preparing, start_time = Some t,
          current_size = PyInt 0, total_size = PyInt 0, speed = PyInt 0,
          remaining_time = None, log_entries = []\<rparr>\<rparr>"

text \<open>
  \<^verbatim>\<open>SteamCMDDownloader.download_game\<close>. The command line handed to the child is built
  from the arguments and changes nothing in the downloader; it is not modelled. The
  condition \<^verbatim>\<open>not game_id\<close> holds for \<^verbatim>\<open>None\<close> and for the empty string.
\<close>

definition download_game ::
  "spawn_env \<Rightarrow> string \<Rightarrow> string \<Rightarrow> string \<Rightarrow> bool \<Rightarrow> 'f downloader
     \<Rightarrow> 'f downloader \<times> (bool \<times> string) outcome" where
  "download_game e game_input username password anonymous d =
     (case extract_game_id game_input of
        None \<Rightarrow> (d, Returned (False, ''Invalid game ID or URL''))
      | Some gid \<Rightarrow>
          if gid = [] then (d, Returned (False, ''Invalid game ID or URL''))
          else
            (let d1 = reset_session (clock e) gid d
             in case makedirs_error e of
                  Some msg \<Rightarrow> (d1, Raised msg)
                | None \<Rightarrow>
                    (let cd2 = (current_download d1)\<lparr>status := Downloading\<rparr>
                     in case popen_error e of
                          None \<Rightarrow>
                            (d1\<lparr>process := Some Running, current_download := cd2\<rparr>,
                             Returned (True, ''Download started''))
                        | Some msg \<Rightarrow>
                            (d1\<lparr>current_download :=
                                  cd2\<lparr>status := Error,
                                      log_entries := log_entries cd2 @ [''Error: '' @ msg]\<rparr>\<rparr>,
                             Returned (False, ''Download error: '' @ msg)))))"

text \<open>\<^verbatim>\<open>SteamCMDDownloader.cancel_download\<close>\<close>

definition cancel_download :: "'f downloader \<Rightarrow> 'f downloader \<times> bool" where
  "cancel_download d =
     (case process d of
        None \<Rightarrow> (d, False)
      | Some p \<Rightarrow>
          if poll_is_None p then
            (d\<lparr>process := Some Signalled,
               current_download := (current_download d)\<lparr>status := Cancelled\<rparr>\<rparr>,
             True)
          else (d, False))"

section \<open>The status reporter\<close>

text \<open>
  \<^verbatim>\<open>SteamCMDDownloader.get_download_status\<close>: a copy of the session with the elapsed
  time, the remaining time as it is displayed and the public links. The two durations are
  kept as numbers; their formatting as text is not modelled. A remaining time of zero
  seconds is a false \<^verbatim>\<open>timedelta\<close> and is displayed like \<^verbatim>\<open>None\<close>.
\<close>

datatype remaining_display = Calculating | Remaining int

record 'f status_report =
  report_session :: "'f session"
  report_elapsed :: real
  report_remaining :: remaining_display
  report_public_links :: "public_link list"

definition get_download_status :: "real \<Rightarrow> 'f downloader \<Rightarrow> 'f status_report" where
  "get_download_status t d =
     (let cd = current_download d
      in \<lparr>report_session = cd,
          report_elapsed = (case start_time cd of None \<Rightarrow> 0 | Some t0 \<Rightarrow> t - t0),
          report_remaining =
            (case remaining_time cd of
               None \<Rightarrow> Calculating
             | Some n \<Rightarrow> if n = 0 then Calculating else Remaining n),
          report_public_links = public_links d\<rparr>)"

text \<open>
  The links that \<^verbatim>\<open>update_status\<close>, the formatting of the report for the user interface,
  lists in its text: none for an idle session, and the links of the report only under
  the status \<open>Completed\<close>.
\<close>

definition update_status_links :: "'f status_report \<Rightarrow> public_link list" where
  "update_status_links r =
     (if status (report_session r) = Idle then []
      else if status (report_session r) = Completed \<and> report_public_links r \<noteq> []
      then report_public_links r
      else [])"

section \<open>Runs of the downloader\<close>

text \<open>
  The requests of the foreground and the steps of the monitor thread interleave. A run
  is a list of events, each applied as one step: a download request, one output line
  read by a monitor loop, the end of the output stream seen by a monitor loop, a
  cancellation request, and the exit of the child. A run lists the steps that take
  place: a monitor thread that an exception has ended takes no further step.
\<close>

datatype event =
    StartDownload spawn_env string string string bool
  | OutputLine env string
  | StreamEnd
  | CancelRequest
  | ChildExit

fun step :: "'f float_ops \<Rightarrow> event \<Rightarrow> 'f downloader \<Rightarrow> 'f downloader" where
  "step fl (StartDownload e game_input username password anonymous) d =
     fst (download_game e game_input username password anonymous d)"
| "step fl (OutputLine e line) d = fst (monitor_line fl e line d)"
| "step fl StreamEnd d = monitor_end d"
| "step fl CancelRequest d = fst (cancel_download d)"
| "step fl ChildExit d = d\<lparr>process := map_option (\<lambda>_. Exited) (process d)\<rparr>"

fun run :: "'f float_ops \<Rightarrow> event list \<Rightarrow> 'f downloader \<Rightarrow> 'f downloader" where
  "run fl [] d = d"
| "run fl (ev # evs) d = run fl evs (step fl ev d)"

section \<open>Notions of the specification\<close>

text \<open>
  A line carries no marker when none of the three texts that the monitor loop looks for
  occurs in it.
\<close>

definition no_marker :: "string \<Rightarrow> bool" where
  "no_marker line =
     (\<not> str_in ''Success!'' line \<and> \<not> str_in ''ERROR!'' line \<and> \<not> str_in ''Failed'' line)"

text \<open>The three statuses that end a session.\<close>

definition terminal :: "status \<Rightarrow> bool" where
  "terminal st = (st = Completed \<or> st = Error \<or> st = Cancelled)"

text \<open>No child is live: none was started, or the one that was started has exited.\<close>

definition no_live_child :: "'f downloader \<Rightarrow> bool" where
  "no_live_child d = (process d = None \<or> process d = Some Exited)"

text \<open>
  A string contains the pattern \<^verbatim>\<open>app/<digits>\<close> when \<^verbatim>\<open>app/\<close> followed by a digit occurs in
  it.
\<close>

definition has_app_digits :: "string \<Rightarrow> bool" where
  "has_app_digits s = list_ex (\<lambda>d. str_in (''app/'' @ [d]) s) ''0123456789''"

text \<open>The pattern \<^verbatim>\<open>app/<digits>\<close> stands at the start of the string.\<close>

definition app_at :: "string \<Rightarrow> bool" where
  "app_at s = (prefix ''app/'' s \<and> takeWhile is_digit (drop 4 s) \<noteq> [])"

text \<open>The match that the matcher reports at the start of the input, if there is one.\<close>

definition first_match :: "regex \<Rightarrow> string \<Rightarrow> (string list \<times> string) option" where
  "first_match r s = (case rmatch r s of [] \<Rightarrow> None | m # _ \<Rightarrow> Some m)"

text \<open>
  A decimal number as the patterns read it: digits, then possibly a point and further
  digits.
\<close>

definition is_decimal :: "string \<Rightarrow> bool" where
  "is_decimal n =
     (let ip = takeWhile is_digit n; r = dropWhile is_digit n
      in ip \<noteq> [] \<and> (r = [] \<or> (hd r = CHR ''.'' \<and> list_all is_digit (tl r))))"

text \<open>A unit word: at least one character, all of them word characters.\<close>

definition is_unit_word :: "string \<Rightarrow> bool" where
  "is_unit_word u = (u \<noteq> [] \<and> list_all is_word u)"

text \<open>
  A line has a percentage value when a digit stands right before \<^verbatim>\<open>%\<close>, or before a
  point that stands right before \<^verbatim>\<open>%\<close>.
\<close>

definition has_percent :: "string \<Rightarrow> bool" where
  "has_percent line =
     list_ex (\<lambda>d. str_in [d, CHR ''%''] line \<or> str_in [d, CHR ''.'', CHR ''%''] line)
       ''0123456789''"

text \<open>
  The pattern \<open>r\<close> matches at no position inside \<open>pre\<close> of the text \<open>pre @ rest\<close>: a match
  that starts in \<open>rest\<close> is the leftmost one.
\<close>

fun no_match_in :: "regex \<Rightarrow> string \<Rightarrow> string \<Rightarrow> bool" where
  "no_match_in r [] rest = True"
| "no_match_in r (c # p) rest = (rmatch r (c # p @ rest) = [] \<and> no_match_in r p rest)"

text \<open>
  The float \<open>x\<close> is finite and worth the real number \<open>y\<close> up to one part in a million. The
  doubles of the program are nearer by ten orders of magnitude to the exact result of an
  operation that neither overflows nor underflows.
\<close>

definition rounds_to :: "'f float_ops \<Rightarrow> 'f \<Rightarrow> real \<Rightarrow> bool" where
  "rounds_to fl x y =
     (case fval fl x of
        Finite v \<Rightarrow> \<bar>v - y\<bar> \<le> \<bar>y\<bar> / 1000000
      | PosInf \<Rightarrow> False | NegInf \<Rightarrow> False | NaN \<Rightarrow> False)"

text \<open>The worth of a finite float (and 0 for the other floats).\<close>

definition fnum :: "'f float_ops \<Rightarrow> 'f \<Rightarrow> real" where
  "fnum fl x = (case fval fl x of Finite v \<Rightarrow> v | PosInf \<Rightarrow> 0 | NegInf \<Rightarrow> 0 | NaN \<Rightarrow> 0)"

text \<open>
  The float arithmetic is accurate on the scenario of the specification, the line
  \<^verbatim>\<open>12.5% 45.30 MB / 362.10 MB\<close> read ten seconds after the start: each of the six
  operations of the parser on that line (the two sizes read as floats, the elapsed
  seconds, the rate, the size that is left and the remaining seconds) gives a finite
  float that is worth the exact result on the worths of its operands, up to one part in
  a million.
\<close>

definition scenario_accurate :: "'f float_ops \<Rightarrow> bool" where
  "scenario_accurate fl =
     (let sa = float_of_str fl ''45.30'';
          sb = float_of_str fl ''362.10'';
          se = total_seconds fl 10;
          sr = fdiv fl sa se;
          sm = fsub fl sb sa;
          sq = fdiv fl sm sr
      in rounds_to fl sa (453 / 10) \<and> rounds_to fl sb (3621 / 10) \<and> rounds_to fl se 10 \<and>
         rounds_to fl sr (fnum fl sa / fnum fl se) \<and>
         rounds_to fl sm (fnum fl sb - fnum fl sa) \<and>
         rounds_to fl sq (fnum fl sm / fnum fl sr))"

section \<open>Frame lemmas\<close>

lemma parse_progress_status [simp]:
  "status (fst (parse_progress fl t line cd)) = status cd"
  by (simp add: parse_progress_def Let_def split: option.splits list.splits sum.splits)

lemma parse_progress_log [simp]:
  "log_entries (fst (parse_progress fl t line cd)) = log_entries cd"
  by (simp add: parse_progress_def Let_def split: option.splits list.splits sum.splits)

lemma parse_progress_game_id [simp]:
  "game_id (fst (parse_progress fl t line cd)) = game_id cd"
  by (simp add: parse_progress_def Let_def split: option.splits list.splits sum.splits)

lemma parse_progress_start_time [simp]:
  "start_time (fst (parse_progress fl t line cd)) = start_time cd"
  by (simp add: parse_progress_def Let_def split: option.splits list.splits sum.splits)

lemma create_public_links_frame:
  "status (current_download (create_public_links e d)) = status (current_download d) \<and>
   progress (current_download (create_public_links e d)) = progress (current_download d) \<and>
   publisher_calls (create_public_links e d) = Suc (publisher_calls d) \<and>
   process (create_public_links e d) = process d"
  by (simp add: create_public_links_def Let_def split: option.splits)

lemma monitor_line_raises:
  "snd (monitor_line fl e line d) = Some err \<Longrightarrow>
     status (current_download (fst (monitor_line fl e line d))) = status (current_download d) \<and>
     public_links (fst (monitor_line fl e line d)) = public_links d \<and>
     publisher_calls (fst (monitor_line fl e line d)) = publisher_calls d \<and>
     process (fst (monitor_line fl e line d)) = process d"
proof -
  assume a: "snd (monitor_line fl e line d) = Some err"
  obtain cd2 r where p: "parse_progress fl (now e) line
      ((current_download d)\<lparr>log_entries := log_entries (current_download d) @ [str_strip line]\<rparr>) =
      (cd2, r)"
    by (cases "parse_progress fl (now e) line
      ((current_download d)\<lparr>log_entries := log_entries (current_download d) @ [str_strip line]\<rparr>)")
  from p have st: "status cd2 = status (current_download d)"
    using parse_progress_status [of fl "now e" line
      "(current_download d)\<lparr>log_entries := log_entries (current_download d) @ [str_strip line]\<rparr>"]
    by simp
  from a p st show ?thesis
    by (cases r) (auto simp: monitor_line_def Let_def)
qed

lemma monitor_line_status:
  "snd (monitor_line fl e line d) = None \<Longrightarrow>
     status (current_download (fst (monitor_line fl e line d))) =
       (if str_in ''Success!'' line then Completed
        else if str_in ''ERROR!'' line \<or> str_in ''Failed'' line then Error
        else status (current_download d))"
proof -
  assume a: "snd (monitor_line fl e line d) = None"
  obtain cd2 r where p: "parse_progress fl (now e) line
      ((current_download d)\<lparr>log_entries := log_entries (current_download d) @ [str_strip line]\<rparr>) =
      (cd2, r)"
    by (cases "parse_progress fl (now e) line
      ((current_download d)\<lparr>log_entries := log_entries (current_download d) @ [str_strip line]\<rparr>)")
  from p have st: "status cd2 = status (current_download d)"
    using parse_progress_status [of fl "now e" line
      "(current_download d)\<lparr>log_entries := log_entries (current_download d) @ [str_strip line]\<rparr>"]
    by simp
  from a p st show ?thesis
    by (cases r) (auto simp: monitor_line_def Let_def create_public_links_frame)
qed

lemma monitor_line_any_status:
  "no_marker line \<Longrightarrow>
     status (current_download (fst (monitor_line fl e line d))) = status (current_download d)"
  by (cases "snd (monitor_line fl e line d)")
    (auto simp: monitor_line_status monitor_line_raises no_marker_def)

lemma monitor_line_log:
  "snd (monitor_line fl e line d) = None \<Longrightarrow> no_marker line \<Longrightarrow>
     log_entries (current_download (fst (monitor_line fl e line d))) =
       log_entries (current_download d) @ [str_strip line]"
proof -
  assume a: "snd (monitor_line fl e line d) = None" and nm: "no_marker line"
  obtain cd2 r where p: "parse_progress fl (now e) line
      ((current_download d)\<lparr>log_entries := log_entries (current_download d) @ [str_strip line]\<rparr>) =
      (cd2, r)"
    by (cases "parse_progress fl (now e) line
      ((current_download d)\<lparr>log_entries := log_entries (current_download d) @ [str_strip line]\<rparr>)")
  from p have lg: "log_entries cd2 = log_entries (current_download d) @ [str_strip line]"
    using parse_progress_log [of fl "now e" line
      "(current_download d)\<lparr>log_entries := log_entries (current_download d) @ [str_strip line]\<rparr>"]
    by simp
  from a p lg nm show ?thesis
    by (cases r) (auto simp: monitor_line_def Let_def no_marker_def)
qed

lemma monitor_line_calls:
  "publisher_calls (fst (monitor_line fl e line d)) =
     (if snd (monitor_line fl e line d) = None \<and> str_in ''Success!'' line
      then Suc (publisher_calls d) else publisher_calls d)"
proof -
  obtain cd2 r where p: "parse_progress fl (now e) line
      ((current_download d)\<lparr>log_entries := log_entries (current_download d) @ [str_strip line]\<rparr>) =
      (cd2, r)"
    by (cases "parse_progress fl (now e) line
      ((current_download d)\<lparr>log_entries := log_entries (current_download d) @ [str_strip line]\<rparr>)")
  then show ?thesis
    by (cases r) (auto simp: monitor_line_def Let_def create_public_links_frame)
qed

lemma monitor_line_progress:
  "snd (monitor_line fl e line d) = None \<Longrightarrow> str_in ''Success!'' line \<Longrightarrow>
     progress (current_download (fst (monitor_line fl e line d))) = PyInt 100"
proof -
  assume a: "snd (monitor_line fl e line d) = None" and s: "str_in ''Success!'' line"
  obtain cd2 r where p: "parse_progress fl (now e) line
      ((current_download d)\<lparr>log_entries := log_entries (current_download d) @ [str_strip line]\<rparr>) =
      (cd2, r)"
    by (cases "parse_progress fl (now e) line
      ((current_download d)\<lparr>log_entries := log_entries (current_download d) @ [str_strip line]\<rparr>)")
  with a s show ?thesis
    by (cases r) (auto simp: monitor_line_def Let_def create_public_links_frame)
qed

lemma monitor_end_calls: "publisher_calls (monitor_end d) = publisher_calls d"
  by (simp add: monitor_end_def Let_def)

lemma monitor_lines_append:
  "monitor_lines fl (xs @ ys) d =
     (case monitor_lines fl xs d of
        (d', Some err) \<Rightarrow> (d', Some err)
      | (d', None) \<Rightarrow> monitor_lines fl ys d')"
proof (induction xs arbitrary: d)
  case Nil
  then show ?case by simp
next
  case (Cons a xs)
  obtain e line where a: "a = (e, line)" by (cases a)
  obtain d1 r where m: "monitor_line fl e line d = (d1, r)" by (cases "monitor_line fl e line d")
  show ?case using Cons.IH [of d1] by (cases r) (simp_all add: a m)
qed

lemma monitor_lines_returns_prefix:
  "snd (monitor_lines fl (xs @ ys) d) = None \<Longrightarrow> snd (monitor_lines fl xs d) = None"
  by (cases "monitor_lines fl xs d") (auto simp: monitor_lines_append split: option.splits)

section \<open>Cancellation without a live child\<close>

text \<open>
  C10. When no child is live (none was started, or the one that was started has
  exited), a cancellation request returns \<open>False\<close> and the downloader is exactly what it
  was; in particular the status is not set to \<open>Cancelled\<close>.
\<close>

theorem cancel_without_live_child:
  "no_live_child d \<longrightarrow>
     cancel_download d = (d, False) \<and>
     status (current_download (fst (cancel_download d))) = status (current_download d)"
  by (auto simp: no_live_child_def cancel_download_def poll_is_None_def)

theorem cancel_without_live_child_witness:
  "no_live_child (init_downloader :: real downloader) \<and>
   cancel_download (init_downloader :: real downloader) = (init_downloader, False) \<and>
   no_live_child (run exact_arith [StartDownload \<lparr>clock = 0, makedirs_error = None, popen_error = None\<rparr>
                          ''123456'' [] [] True, ChildExit] init_downloader) \<and>
   snd (cancel_download
         (run exact_arith [StartDownload \<lparr>clock = 0, makedirs_error = None, popen_error = None\<rparr>
                 ''123456'' [] [] True, ChildExit] init_downloader)) = False \<and>
   status (current_download (fst (cancel_download
         (run exact_arith [StartDownload \<lparr>clock = 0, makedirs_error = None, popen_error = None\<rparr>
                 ''123456'' [] [] True, ChildExit] init_downloader)))) = Downloading"
proof -
  define d0 where "d0 = (init_downloader :: real downloader)"
  define d1 where
    "d1 = run exact_arith [StartDownload \<lparr>clock = 0, makedirs_error = None, popen_error = None\<rparr>
                          ''123456'' [] [] True, ChildExit] (init_downloader :: real downloader)"
  have h1: "no_live_child d0"
    by (simp add: d0_def no_live_child_def init_downloader_def)
  have h2: "no_live_child d1"
    and st: "status (current_download d1) = Downloading"
    by (simp_all add: d1_def no_live_child_def download_game_def extract_game_id_def
        str_isdigit_def is_digit_def reset_session_def init_downloader_def Let_def)
  from h1 cancel_without_live_child [of d0]
  have a: "cancel_download d0 = (d0, False)" by blast
  from h2 cancel_without_live_child [of d1]
  have b: "cancel_download d1 = (d1, False)" by blast
  from b have c: "snd (cancel_download d1) = False" by simp
  from b st have e: "status (current_download (fst (cancel_download d1))) = Downloading"
    by simp
  from h1 a h2 c e show ?thesis
    unfolding d0_def d1_def by (simp only: simp_thms)
qed

section \<open>The matcher on the pattern of the identifier\<close>

lemma has_app_digits_iff: "has_app_digits s = (\<exists>d. is_digit d \<and> str_in (''app/'' @ [d]) s)"
  unfolding has_app_digits_def is_digit_def list_ex_iff by blast

lemma rmatch_lit_seq [simp]:
  "rmatch (RSeq (RLit c) r) s = (case s of [] \<Rightarrow> [] | x # xs \<Rightarrow> if x = c then rmatch r xs else [])"
  by (cases s) (auto simp: case_prod_unfold)

lemma rmatch_re_lits:
  "rmatch (re_lits lit r) s = (if prefix lit s then rmatch r (drop (length lit) s) else [])"
  by (induction lit arbitrary: s) (auto split: list.splits)

lemma rests_nonempty [simp]: "rests P s \<noteq> []"
  by (induction s) auto

lemma hd_rests [simp]: "hd (rests P s) = dropWhile P s"
  by (induction s) auto

lemma rests_Cons: "\<exists>ts. rests P s = dropWhile P s # ts"
  using rests_nonempty [of P s] hd_rests [of P s] by (cases "rests P s") auto

lemma in_class_Digit [simp]: "in_class Digit = is_digit"
  by (rule ext) simp

lemma in_class_Word [simp]: "in_class Word = is_word"
  by (rule ext) simp

lemma re_search_Nil: "re_search r [] = map_option fst (first_match r [])"
  by (auto simp: first_match_def split: list.splits)

lemma re_search_Cons:
  "re_search r (c # cs) =
     (case first_match r (c # cs) of Some m \<Rightarrow> Some (fst m) | None \<Rightarrow> re_search r cs)"
  by (auto simp: first_match_def split: list.splits)

lemma take_length_dropWhile: "take (length s - length (dropWhile P s)) s = takeWhile P s"
proof -
  have "length s - length (dropWhile P s) = length (takeWhile P s)"
    by (metis add_diff_cancel_right' length_append takeWhile_dropWhile_id)
  then show ?thesis
    by (metis append_eq_conv_conj takeWhile_dropWhile_id)
qed

lemma first_match_digits:
  "first_match (RGrp (RPlus Digit)) s =
     (if takeWhile is_digit s = [] then None
      else Some ([takeWhile is_digit s], dropWhile is_digit s))"
proof (cases s)
  case Nil
  then show ?thesis by (simp add: first_match_def)
next
  case (Cons x xs)
  show ?thesis
  proof (cases "is_digit x")
    case False
    then show ?thesis using Cons by (simp add: first_match_def)
  next
    case True
    obtain ts where ts: "rests is_digit xs = dropWhile is_digit xs # ts"
      using rests_Cons by blast
    have "take (length s - length (dropWhile is_digit s)) s = takeWhile is_digit s"
      by (rule take_length_dropWhile)
    with True Cons have "take (Suc (length xs) - length (dropWhile is_digit xs)) (x # xs) = x # takeWhile is_digit xs"
      by simp
    with True Cons ts show ?thesis
      by (simp add: first_match_def)
  qed
qed

lemma first_match_app_id:
  "first_match re_app_id s =
     (if app_at s
      then Some ([takeWhile is_digit (drop 4 s)], dropWhile is_digit (drop 4 s))
      else None)"
proof -
  have "rmatch re_app_id s =
      (if prefix ''app/'' s then rmatch (RGrp (RPlus Digit)) (drop (length ''app/'') s) else [])"
    by (simp only: re_app_id_def rmatch_re_lits)
  moreover have "length ''app/'' = 4" by simp
  ultimately have "rmatch re_app_id s =
      (if prefix ''app/'' s then rmatch (RGrp (RPlus Digit)) (drop 4 s) else [])"
    by (simp only:)
  then show ?thesis
    using first_match_digits [of "drop 4 s"]
    by (simp add: first_match_def app_at_def)
qed

lemma app_at_iff: "app_at s = (\<exists>d. is_digit d \<and> prefix (''app/'' @ [d]) s)"
proof
  assume a: "app_at s"
  then obtain t where t: "s = ''app/'' @ t" by (auto simp: prefix_def app_at_def)
  with a have "takeWhile is_digit t \<noteq> []" by (simp add: app_at_def)
  then obtain d t' where "t = d # t'" "is_digit d"
    by (cases t) (auto split: if_splits)
  with t show "\<exists>d. is_digit d \<and> prefix (''app/'' @ [d]) s" by auto
next
  assume "\<exists>d. is_digit d \<and> prefix (''app/'' @ [d]) s"
  then obtain d t where "is_digit d" "s = (''app/'' @ [d]) @ t" by (auto simp: prefix_def)
  then show "app_at s" by (simp add: app_at_def)
qed

lemma has_app_digits_Nil [simp]: "\<not> has_app_digits []"
  by (simp add: has_app_digits_def)

lemma app_at_Nil [simp]: "\<not> app_at []"
  by (simp add: app_at_def)

lemma has_app_digits_Cons: "has_app_digits (c # cs) = (app_at (c # cs) \<or> has_app_digits cs)"
  unfolding has_app_digits_iff app_at_iff by auto

lemma re_search_app_id_None: "(re_search re_app_id s = None) = (\<not> has_app_digits s)"
proof (induction s)
  case Nil
  show ?case by (simp add: re_search_Nil first_match_app_id del: re_search.simps)
next
  case (Cons c cs)
  show ?case
    using Cons.IH
    by (simp add: re_search_Cons first_match_app_id has_app_digits_Cons del: re_search.simps)
qed

lemma re_search_app_id_Some:
  "re_search re_app_id s = Some gs \<Longrightarrow> \<exists>g. gs = [g] \<and> g \<noteq> []"
proof (induction s)
  case Nil
  then show ?case by (simp add: re_search_Nil first_match_app_id del: re_search.simps)
next
  case (Cons c cs)
  then show ?case
    by (auto simp add: re_search_Cons first_match_app_id app_at_def simp del: re_search.simps
        split: if_splits)
qed

lemma app_at_append_left:
  assumes "p \<noteq> []" and "app_at (p @ ''app/'' @ r)"
  shows "app_at p"
proof -
  consider "p = []"
    | x1 where "p = [x1]"
    | x1 x2 where "p = [x1, x2]"
    | x1 x2 x3 where "p = [x1, x2, x3]"
    | x1 x2 x3 x4 where "p = [x1, x2, x3, x4]"
    | x1 x2 x3 x4 x5 q where "p = x1 # x2 # x3 # x4 # x5 # q"
    by (metis list.exhaust)
  then show ?thesis
    using assms by cases (auto simp: app_at_def is_digit_def split: if_splits)
qed

lemma re_search_app_id_first:
  assumes "\<not> has_app_digits pre" and "app_at m"
  shows "re_search re_app_id (pre @ m) = Some [takeWhile is_digit (drop 4 m)]"
  using assms
proof (induction pre)
  case Nil
  then show ?case
    by (cases m) (simp_all add: re_search_Cons first_match_app_id del: re_search.simps)
next
  case (Cons c pre)
  from Cons.prems have na: "\<not> app_at (c # pre)" and nh: "\<not> has_app_digits pre"
    by (simp_all add: has_app_digits_Cons)
  from \<open>app_at m\<close> obtain r where m: "m = ''app/'' @ r"
    by (auto simp: app_at_def prefix_def)
  have "\<not> app_at ((c # pre) @ m)"
    using app_at_append_left [of "c # pre" r] na m by auto
  then show ?case
    using Cons.IH [OF nh Cons.prems(2)]
    by (simp add: re_search_Cons first_match_app_id del: re_search.simps)
qed

lemma app_at_append_right: "app_at p \<Longrightarrow> app_at (p @ q)"
  unfolding app_at_iff by (metis prefix_prefix)

lemma str_isdigit_app: "\<not> str_isdigit (pre @ ''app/'' @ r)"
  by (simp add: str_isdigit_def is_digit_def)

lemma takeWhile_digits_run:
  "list_all is_digit ds \<Longrightarrow> post = [] \<or> \<not> is_digit (hd post) \<Longrightarrow>
     takeWhile is_digit (ds @ post) = ds"
  by (induction ds) (auto simp: takeWhile_eq_Nil_iff)

lemma extract_game_id_app:
  assumes "ds \<noteq> []" "list_all is_digit ds" "post = [] \<or> \<not> is_digit (hd post)"
    and "\<not> has_app_digits pre"
  shows "extract_game_id (pre @ ''app/'' @ ds @ post) = Some ds"
proof -
  have run: "takeWhile is_digit (ds @ post) = ds"
    using assms(2,3) by (rule takeWhile_digits_run)
  with assms(1) have at: "app_at (''app/'' @ ds @ post)"
    by (simp add: app_at_def)
  have "re_search re_app_id (pre @ ''app/'' @ ds @ post) =
          Some [takeWhile is_digit (drop 4 (''app/'' @ ds @ post))]"
    using assms(4) at by (rule re_search_app_id_first)
  with run have "re_search re_app_id (pre @ ''app/'' @ ds @ post) = Some [ds]"
    by simp
  then show ?thesis
    using str_isdigit_app [of pre "ds @ post"] by (simp add: extract_game_id_def)
qed

lemma extract_game_id_None:
  "\<not> str_isdigit s \<Longrightarrow> \<not> has_app_digits s \<Longrightarrow> extract_game_id s = None"
  using re_search_app_id_None [of s] by (simp add: extract_game_id_def)

lemma has_app_digits_decompose:
  "has_app_digits s \<Longrightarrow>
     \<exists>pre ds post. s = pre @ ''app/'' @ ds @ post \<and> ds \<noteq> [] \<and> list_all is_digit ds \<and>
        (post = [] \<or> \<not> is_digit (hd post)) \<and> \<not> has_app_digits pre"
proof (induction s)
  case Nil
  then show ?case by simp
next
  case (Cons c cs)
  show ?case
  proof (cases "app_at (c # cs)")
    case True
    define r where "r = drop 4 (c # cs)"
    from True have s: "c # cs = ''app/'' @ r" and ne: "takeWhile is_digit r \<noteq> []"
      by (auto simp: app_at_def prefix_def r_def)
    have "c # cs = [] @ ''app/'' @ takeWhile is_digit r @ dropWhile is_digit r"
      using s by simp
    moreover have "list_all is_digit (takeWhile is_digit r)"
      by (simp add: list_all_iff) (meson set_takeWhileD)
    moreover have "dropWhile is_digit r = [] \<or> \<not> is_digit (hd (dropWhile is_digit r))"
      by (metis hd_dropWhile)
    ultimately show ?thesis
      using ne has_app_digits_Nil by blast
  next
    case False
    with Cons.prems have "has_app_digits cs"
      by (simp add: has_app_digits_Cons)
    from Cons.IH [OF this] obtain pre ds post where
      d: "cs = pre @ ''app/'' @ ds @ post" "ds \<noteq> []" "list_all is_digit ds"
         "post = [] \<or> \<not> is_digit (hd post)" "\<not> has_app_digits pre"
      by blast
    have "\<not> app_at (c # pre)"
      using False app_at_append_right [of "c # pre" "''app/'' @ ds @ post"] d(1) by auto
    with d(5) have "\<not> has_app_digits (c # pre)"
      by (simp add: has_app_digits_Cons)
    moreover have "c # cs = (c # pre) @ ''app/'' @ ds @ post"
      using d(1) by simp
    ultimately show ?thesis
      using d(2,3,4) by blast
  qed
qed

section \<open>Identifier resolution: the cases\<close>

text \<open>
  C8. For every input string \<open>s\<close>: a digit string (at least one character, all of them
  digits) resolves to itself. A string in which \<^verbatim>\<open>app/\<close> followed by digits occurs
  resolves to those digits: when \<open>ds\<close> is the whole run of digits that follows the first
  \<^verbatim>\<open>app/\<close> with a digit after it (no such occurrence in \<open>pre\<close>, no digit at the start of
  \<open>post\<close>), the result is \<open>ds\<close>, and every string that contains the pattern has such a
  decomposition and is no digit string. Every other string is rejected, the empty
  string among them. In particular \<^verbatim>\<open>123456\<close> resolves to itself,
  \<^verbatim>\<open>https://store.example.com/app/123456/Name\<close> to \<^verbatim>\<open>123456\<close>, and \<^verbatim>\<open>not-a-game\<close> is
  rejected.
\<close>

theorem extract_game_id_resolution:
  "(str_isdigit s \<longrightarrow> extract_game_id s = Some s) \<and>
   (ds \<noteq> [] \<and> list_all is_digit ds \<and> (post = [] \<or> \<not> is_digit (hd post)) \<and>
      \<not> has_app_digits pre \<longrightarrow>
        extract_game_id (pre @ ''app/'' @ ds @ post) = Some ds) \<and>
   (has_app_digits s \<longrightarrow>
      \<not> str_isdigit s \<and>
      (\<exists>pre ds post. s = pre @ ''app/'' @ ds @ post \<and> ds \<noteq> [] \<and> list_all is_digit ds \<and>
         (post = [] \<or> \<not> is_digit (hd post)) \<and> \<not> has_app_digits pre \<and>
         extract_game_id s = Some ds)) \<and>
   (\<not> str_isdigit s \<and> \<not> has_app_digits s \<longrightarrow> extract_game_id s = None) \<and>
   extract_game_id ''123456'' = Some ''123456'' \<and>
   extract_game_id ''https://store.example.com/app/123456/Name'' = Some ''123456'' \<and>
   extract_game_id ''not-a-game'' = None"
proof (intro conjI impI)
  show "extract_game_id ''123456'' = Some ''123456''"
    by (simp add: extract_game_id_def str_isdigit_def is_digit_def)
  show "extract_game_id ''https://store.example.com/app/123456/Name'' = Some ''123456''"
    by (simp add: extract_game_id_def str_isdigit_def is_digit_def re_app_id_def)
  show "extract_game_id ''not-a-game'' = None"
    by (simp add: extract_game_id_def str_isdigit_def is_digit_def re_app_id_def)
next
  assume "str_isdigit s"
  then show "extract_game_id s = Some s" by (simp add: extract_game_id_def)
next
  assume "ds \<noteq> [] \<and> list_all is_digit ds \<and> (post = [] \<or> \<not> is_digit (hd post)) \<and>
      \<not> has_app_digits pre"
  then show "extract_game_id (pre @ ''app/'' @ ds @ post) = Some ds"
    using extract_game_id_app by blast
next
  assume h: "has_app_digits s"
  from has_app_digits_decompose [OF h] obtain pre ds post where
    d: "s = pre @ ''app/'' @ ds @ post" "ds \<noteq> []" "list_all is_digit ds"
       "post = [] \<or> \<not> is_digit (hd post)" "\<not> has_app_digits pre"
    by blast
  from d show "\<not> str_isdigit s" using str_isdigit_app by simp
  from d extract_game_id_app [OF d(2,3,4,5)]
  show "\<exists>pre ds post. s = pre @ ''app/'' @ ds @ post \<and> ds \<noteq> [] \<and> list_all is_digit ds \<and>
         (post = [] \<or> \<not> is_digit (hd post)) \<and> \<not> has_app_digits pre \<and>
         extract_game_id s = Some ds"
    by blast
next
  assume "\<not> str_isdigit s \<and> \<not> has_app_digits s"
  then show "extract_game_id s = None" using extract_game_id_None by blast
qed

theorem extract_game_id_resolution_witness:
  "str_isdigit ''740'' \<and> extract_game_id ''740'' = Some ''740'' \<and>
   list_all is_digit ''123456'' \<and> \<not> is_digit (hd ''/Name'') \<and>
   \<not> has_app_digits ''https://store.example.com/'' \<and>
   extract_game_id (''https://store.example.com/'' @ ''app/'' @ ''123456'' @ ''/Name'') = Some ''123456'' \<and>
   has_app_digits ''app/x app/12app/34'' \<and> extract_game_id ''app/x app/12app/34'' = Some ''12'' \<and>
   \<not> str_isdigit ''not-a-game'' \<and> \<not> has_app_digits ''not-a-game'' \<and>
   extract_game_id ''not-a-game'' = None \<and>
   \<not> str_isdigit [] \<and> \<not> has_app_digits [] \<and> extract_game_id [] = None"
proof -
  have h1: "str_isdigit ''740''"
    by (simp add: str_isdigit_def is_digit_def)
  have h2: "''123456'' \<noteq> [] \<and> list_all is_digit ''123456'' \<and>
      (''/Name'' = [] \<or> \<not> is_digit (hd ''/Name'')) \<and>
      \<not> has_app_digits ''https://store.example.com/''"
    by (simp add: is_digit_def has_app_digits_def)
  have h3: "has_app_digits ''app/x app/12app/34''"
    by (simp add: has_app_digits_def)
  have e3: "extract_game_id ''app/x app/12app/34'' = Some ''12''"
    by (simp add: extract_game_id_def str_isdigit_def is_digit_def re_app_id_def)
  have h4: "\<not> str_isdigit ''not-a-game'' \<and> \<not> has_app_digits ''not-a-game''"
    by (simp add: str_isdigit_def is_digit_def has_app_digits_def)
  have h5: "\<not> str_isdigit [] \<and> \<not> has_app_digits []"
    by (simp add: str_isdigit_def)
  show ?thesis
    using h1 h2 h3 e3 h4 h5
      extract_game_id_resolution [of "''740''" "''123456''" "''/Name''" "''https://store.example.com/''"]
      extract_game_id_resolution [of "''not-a-game''" "''1''" "[]" "[]"]
      extract_game_id_resolution [of "[]" "''1''" "[]" "[]"]
    by blast
qed

section \<open>A request with an invalid identifier\<close>

text \<open>
  C9. A download request whose identifier is neither a digit string nor contains
  \<^verbatim>\<open>app/\<close> followed by digits returns the failure \<open>(False, ''Invalid game ID or URL'')\<close>,
  and the downloader after the request is the downloader before it: status, identity,
  metrics, log, links and child are untouched.
\<close>

theorem download_game_invalid_input:
  "\<not> str_isdigit game_input \<and> \<not> has_app_digits game_input \<longrightarrow>
     download_game e game_input username password anonymous d =
       (d, Returned (False, ''Invalid game ID or URL''))"
  using extract_game_id_None [of game_input] by (simp add: download_game_def)

theorem download_game_invalid_input_witness:
  "\<not> str_isdigit ''not-a-game'' \<and> \<not> has_app_digits ''not-a-game'' \<and>
   download_game \<lparr>clock = 7, makedirs_error = None, popen_error = None\<rparr> ''not-a-game''
       ''user'' ''secret'' False (init_downloader :: real downloader) =
     (init_downloader, Returned (False, ''Invalid game ID or URL''))"
proof -
  have h: "\<not> str_isdigit ''not-a-game'' \<and> \<not> has_app_digits ''not-a-game''"
    by (simp add: str_isdigit_def is_digit_def has_app_digits_def)
  show ?thesis
    using h download_game_invalid_input
      [of "''not-a-game''" "\<lparr>clock = 7, makedirs_error = None, popen_error = None\<rparr>"
          "''user''" "''secret''" False "init_downloader :: real downloader"]
    by blast
qed

section \<open>The matcher as a relation\<close>

lemma set_rests: "set (rests P s) = {t. \<exists>n. s = n @ t \<and> list_all P n}"
proof (induction s)
  case Nil
  then show ?case by auto
next
  case (Cons c cs)
  show ?case
  proof (cases "P c")
    case True
    then show ?thesis
      using Cons by (auto simp: Cons_eq_append_conv) 
  next
    case False
    then show ?thesis
      by (auto simp: Cons_eq_append_conv)
  qed
qed

lemma in_rmatch_lit: "((g, t) \<in> set (rmatch (RLit c) s)) = (g = [] \<and> s = c # t)"
  by (cases s) auto

lemma in_rmatch_star:
  "((g, t) \<in> set (rmatch (RStar k) s)) = (g = [] \<and> (\<exists>n. s = n @ t \<and> list_all (in_class k) n))"
  by (auto simp: set_rests)

lemma in_rmatch_plus:
  "((g, t) \<in> set (rmatch (RPlus k) s)) =
     (g = [] \<and> (\<exists>n. n \<noteq> [] \<and> s = n @ t \<and> list_all (in_class k) n))"
proof (cases s)
  case Nil
  then show ?thesis by simp
next
  case (Cons x xs)
  have "(\<exists>n. n \<noteq> [] \<and> x # xs = n @ t \<and> list_all (in_class k) n) =
        (in_class k x \<and> (\<exists>m. xs = m @ t \<and> list_all (in_class k) m))"
  proof
    assume "\<exists>n. n \<noteq> [] \<and> x # xs = n @ t \<and> list_all (in_class k) n"
    then obtain n where n: "n \<noteq> []" "x # xs = n @ t" "list_all (in_class k) n" by blast
    then obtain m where "n = x # m" by (cases n) auto
    with n show "in_class k x \<and> (\<exists>m. xs = m @ t \<and> list_all (in_class k) m)" by auto
  next
    assume "in_class k x \<and> (\<exists>m. xs = m @ t \<and> list_all (in_class k) m)"
    then obtain m where "in_class k x" "xs = m @ t" "list_all (in_class k) m" by blast
    then have "x # m \<noteq> [] \<and> x # xs = (x # m) @ t \<and> list_all (in_class k) (x # m)" by simp
    then show "\<exists>n. n \<noteq> [] \<and> x # xs = n @ t \<and> list_all (in_class k) n" by blast
  qed
  then show ?thesis
    using Cons by (auto simp: set_rests simp del: in_class_Digit in_class_Word)
qed

lemma in_rmatch_opt:
  "((g, t) \<in> set (rmatch (ROpt r) s)) = ((g, t) \<in> set (rmatch r s) \<or> (g = [] \<and> t = s))"
  by auto

lemma in_rmatch_seq:
  "((g, u) \<in> set (rmatch (RSeq a b) s)) =
     (\<exists>g1 t g2. (g1, t) \<in> set (rmatch a s) \<and> (g2, u) \<in> set (rmatch b t) \<and> g = g1 @ g2)"
  by (auto simp del: rmatch_lit_seq) force

lemma in_rmatch_grp:
  "((g, t) \<in> set (rmatch (RGrp r) s)) =
     (\<exists>g'. (g', t) \<in> set (rmatch r s) \<and> g = take (length s - length t) s # g')"
  by auto

lemma is_decimal_digits:
  "ip \<noteq> [] \<Longrightarrow> list_all is_digit ip \<Longrightarrow> is_decimal ip"
  by (simp add: is_decimal_def list_all_iff takeWhile_eq_all_conv [THEN iffD2])

lemma is_decimal_point:
  assumes "ip \<noteq> []" "list_all is_digit ip" "list_all is_digit fp"
  shows "is_decimal (ip @ CHR ''.'' # fp)"
proof -
  have nd: "\<not> is_digit CHR ''.''" by (simp add: is_digit_def)
  have "takeWhile is_digit (ip @ CHR ''.'' # fp) = ip"
    using assms(2) nd by (simp add: list_all_iff)
  moreover have "dropWhile is_digit (ip @ CHR ''.'' # fp) = CHR ''.'' # fp"
    using assms(2) nd by (simp add: list_all_iff)
  ultimately show ?thesis using assms by (simp add: is_decimal_def)
qed

lemma is_decimal_cases:
  assumes "is_decimal n"
  obtains (digits) "n \<noteq> []" "list_all is_digit n"
    | (point) ip fp where "n = ip @ CHR ''.'' # fp" "ip \<noteq> []" "list_all is_digit ip"
        "list_all is_digit fp"
proof -
  define ip where "ip = takeWhile is_digit n"
  define r where "r = dropWhile is_digit n"
  have n: "n = ip @ r" by (simp add: ip_def r_def)
  have ipd: "list_all is_digit ip"
    by (simp add: ip_def list_all_iff) (meson set_takeWhileD)
  from assms have ne: "ip \<noteq> []" and r: "r = [] \<or> (hd r = CHR ''.'' \<and> list_all is_digit (tl r))"
    by (simp_all add: is_decimal_def ip_def r_def Let_def)
  show ?thesis
  proof (cases "r = []")
    case True
    with n ne ipd show ?thesis using digits by simp
  next
    case False
    with r have "r = CHR ''.'' # tl r" "list_all is_digit (tl r)"
      by (cases r; simp)+
    with n ne ipd show ?thesis using point by metis
  qed
qed

lemma in_rmatch_number:
  "((g, t) \<in> set (rmatch re_number s)) = (g = [] \<and> (\<exists>n. s = n @ t \<and> is_decimal n))"
proof
  assume "(g, t) \<in> set (rmatch re_number s)"
  then obtain ip t1 where g: "g = []" and ip: "ip \<noteq> []" "s = ip @ t1" "list_all is_digit ip"
    and rest: "(\<exists>fp. t1 = fp @ t \<and> list_all is_digit fp) \<or>
               (\<exists>fp. t1 = CHR ''.'' # fp @ t \<and> list_all is_digit fp)"
    unfolding re_number_def in_rmatch_seq in_rmatch_plus in_rmatch_opt in_rmatch_lit in_rmatch_star
    by (auto simp del: rmatch.simps rmatch_lit_seq)
  from rest show "g = [] \<and> (\<exists>n. s = n @ t \<and> is_decimal n)"
  proof
    assume "\<exists>fp. t1 = fp @ t \<and> list_all is_digit fp"
    then obtain fp where fp: "t1 = fp @ t" "list_all is_digit fp" by blast
    then have "is_decimal (ip @ fp)" using ip by (intro is_decimal_digits) auto
    with fp ip g show ?thesis by (intro conjI exI [of _ "ip @ fp"]) auto
  next
    assume "\<exists>fp. t1 = CHR ''.'' # fp @ t \<and> list_all is_digit fp"
    then obtain fp where fp: "t1 = CHR ''.'' # fp @ t" "list_all is_digit fp" by blast
    then have "is_decimal (ip @ CHR ''.'' # fp)" using ip by (intro is_decimal_point) auto
    with fp ip g show ?thesis by (intro conjI exI [of _ "ip @ CHR ''.'' # fp"]) auto
  qed
next
  assume "g = [] \<and> (\<exists>n. s = n @ t \<and> is_decimal n)"
  then obtain n where g: "g = []" and n: "s = n @ t" "is_decimal n" by blast
  from n(2) show "(g, t) \<in> set (rmatch re_number s)"
  proof (cases rule: is_decimal_cases)
    case digits
    have a: "([], t) \<in> set (rmatch (RPlus Digit) s)"
      unfolding in_rmatch_plus using digits n by auto
    have b: "([], t) \<in> set (rmatch (ROpt (RLit CHR ''.'')) t)"
      unfolding in_rmatch_opt by simp
    have c: "([], t) \<in> set (rmatch (RStar Digit) t)"
      unfolding in_rmatch_star by (simp add: exI [of _ "[]"])
    show ?thesis
      unfolding re_number_def in_rmatch_seq using a b c g by blast
  next
    case (point ip fp)
    have a: "([], CHR ''.'' # fp @ t) \<in> set (rmatch (RPlus Digit) s)"
      unfolding in_rmatch_plus using point n by auto
    have b: "([], fp @ t) \<in> set (rmatch (ROpt (RLit CHR ''.'')) (CHR ''.'' # fp @ t))"
      unfolding in_rmatch_opt in_rmatch_lit by simp
    have c: "([], t) \<in> set (rmatch (RStar Digit) (fp @ t))"
      unfolding in_rmatch_star using point by auto
    show ?thesis
      unfolding re_number_def in_rmatch_seq using a b c g by blast
  qed
qed

lemma in_rmatch_grp_number:
  "((g, t) \<in> set (rmatch (RGrp re_number) s)) = (\<exists>n. g = [n] \<and> s = n @ t \<and> is_decimal n)"
  unfolding in_rmatch_grp in_rmatch_number by auto

lemma in_rmatch_grp_word:
  "((g, t) \<in> set (rmatch (RGrp (RPlus Word)) s)) = (\<exists>u. g = [u] \<and> s = u @ t \<and> is_unit_word u)"
  unfolding in_rmatch_grp in_rmatch_plus is_unit_word_def by auto

lemma in_rmatch_re_lits:
  "((g, t) \<in> set (rmatch (re_lits lit r) s)) = (\<exists>s'. s = lit @ s' \<and> (g, t) \<in> set (rmatch r s'))"
  unfolding rmatch_re_lits by (auto simp: prefix_def)

lemma in_rmatch_seqI:
  "(g1, t) \<in> set (rmatch a s) \<Longrightarrow> (g2, u) \<in> set (rmatch b t) \<Longrightarrow>
     (g1 @ g2, u) \<in> set (rmatch (RSeq a b) s)"
  unfolding in_rmatch_seq by blast

lemma in_rmatch_size:
  "((g, t) \<in> set (rmatch re_size s)) =
     (\<exists>n1 u1 n2 u2. g = [n1, u1, n2, u2] \<and>
        s = n1 @ '' '' @ u1 @ '' / '' @ n2 @ '' '' @ u2 @ t \<and>
        is_decimal n1 \<and> is_unit_word u1 \<and> is_decimal n2 \<and> is_unit_word u2)"
proof
  assume "(g, t) \<in> set (rmatch re_size s)"
  then show "\<exists>n1 u1 n2 u2. g = [n1, u1, n2, u2] \<and>
        s = n1 @ '' '' @ u1 @ '' / '' @ n2 @ '' '' @ u2 @ t \<and>
        is_decimal n1 \<and> is_unit_word u1 \<and> is_decimal n2 \<and> is_unit_word u2"
    unfolding re_size_def in_rmatch_seq in_rmatch_re_lits in_rmatch_grp_number in_rmatch_grp_word
      in_rmatch_lit
    by (auto simp del: rmatch.simps rmatch_lit_seq)
next
  assume "\<exists>n1 u1 n2 u2. g = [n1, u1, n2, u2] \<and>
        s = n1 @ '' '' @ u1 @ '' / '' @ n2 @ '' '' @ u2 @ t \<and>
        is_decimal n1 \<and> is_unit_word u1 \<and> is_decimal n2 \<and> is_unit_word u2"
  then obtain n1 u1 n2 u2 where g: "g = [n1, u1, n2, u2]"
    and s: "s = n1 @ '' '' @ u1 @ '' / '' @ n2 @ '' '' @ u2 @ t"
    and d: "is_decimal n1" "is_unit_word u1" "is_decimal n2" "is_unit_word u2"
    by blast
  have w2: "([u2], t) \<in> set (rmatch (RGrp (RPlus Word)) (u2 @ t))"
    unfolding in_rmatch_grp_word using d by blast
  have sp2: "([] @ [u2], t) \<in> set (rmatch (RSeq (RLit CHR '' '') (RGrp (RPlus Word))) ('' '' @ u2 @ t))"
    by (rule in_rmatch_seqI [where t = "u2 @ t"]) (simp_all only: in_rmatch_lit w2, simp)
  have nb2: "([n2], '' '' @ u2 @ t) \<in> set (rmatch (RGrp re_number) (n2 @ '' '' @ u2 @ t))"
    unfolding in_rmatch_grp_number using d by blast
  have tail: "([n2] @ [] @ [u2], t) \<in>
      set (rmatch (RSeq (RGrp re_number) (RSeq (RLit CHR '' '') (RGrp (RPlus Word))))
            (n2 @ '' '' @ u2 @ t))"
    by (rule in_rmatch_seqI [OF nb2 sp2])
  have lits: "([n2] @ [] @ [u2], t) \<in>
      set (rmatch (re_lits '' / ''
             (RSeq (RGrp re_number) (RSeq (RLit CHR '' '') (RGrp (RPlus Word)))))
            ('' / '' @ n2 @ '' '' @ u2 @ t))"
    unfolding in_rmatch_re_lits using tail by blast
  have w1: "([u1], '' / '' @ n2 @ '' '' @ u2 @ t) \<in>
      set (rmatch (RGrp (RPlus Word)) (u1 @ '' / '' @ n2 @ '' '' @ u2 @ t))"
    unfolding in_rmatch_grp_word using d by blast
  have mid: "([u1] @ [n2] @ [] @ [u2], t) \<in>
      set (rmatch (RSeq (RGrp (RPlus Word)) (re_lits '' / ''
             (RSeq (RGrp re_number) (RSeq (RLit CHR '' '') (RGrp (RPlus Word))))))
            (u1 @ '' / '' @ n2 @ '' '' @ u2 @ t))"
    by (rule in_rmatch_seqI [OF w1 lits])
  have sp1: "([] @ [u1] @ [n2] @ [] @ [u2], t) \<in>
      set (rmatch (RSeq (RLit CHR '' '') (RSeq (RGrp (RPlus Word)) (re_lits '' / ''
             (RSeq (RGrp re_number) (RSeq (RLit CHR '' '') (RGrp (RPlus Word)))))))
            ('' '' @ u1 @ '' / '' @ n2 @ '' '' @ u2 @ t))"
    by (rule in_rmatch_seqI [where t = "u1 @ '' / '' @ n2 @ '' '' @ u2 @ t"])
      (simp_all only: in_rmatch_lit mid, simp)
  have nb1: "([n1], '' '' @ u1 @ '' / '' @ n2 @ '' '' @ u2 @ t) \<in>
      set (rmatch (RGrp re_number) s)"
    unfolding in_rmatch_grp_number s using d by blast
  have "([n1] @ [] @ [u1] @ [n2] @ [] @ [u2], t) \<in> set (rmatch re_size s)"
    unfolding re_size_def by (rule in_rmatch_seqI [OF nb1 sp1])
  then show "(g, t) \<in> set (rmatch re_size s)"
    by (simp only: g append_Cons append_Nil)
qed

lemma in_rmatch_percent:
  "((g, t) \<in> set (rmatch re_percent s)) =
     (\<exists>n. g = [n] \<and> s = n @ ''%'' @ t \<and> is_decimal n)"
proof
  assume "(g, t) \<in> set (rmatch re_percent s)"
  then show "\<exists>n. g = [n] \<and> s = n @ ''%'' @ t \<and> is_decimal n"
    unfolding re_percent_def in_rmatch_seq in_rmatch_grp_number in_rmatch_lit
    by (auto simp del: rmatch.simps rmatch_lit_seq)
next
  assume "\<exists>n. g = [n] \<and> s = n @ ''%'' @ t \<and> is_decimal n"
  then obtain n where g: "g = [n]" and s: "s = n @ ''%'' @ t" and d: "is_decimal n" by blast
  have a: "([n], ''%'' @ t) \<in> set (rmatch (RGrp re_number) s)"
    unfolding in_rmatch_grp_number s using d by blast
  have b: "([], t) \<in> set (rmatch (RLit CHR ''%'') (''%'' @ t))"
    unfolding in_rmatch_lit by simp
  have "([n] @ [], t) \<in> set (rmatch re_percent s)"
    unfolding re_percent_def by (rule in_rmatch_seqI [OF a b])
  then show "(g, t) \<in> set (rmatch re_percent s)" by (simp only: g append_Nil2)
qed

section \<open>Searching for the percentage and the size expression\<close>

lemma str_in_iff: "str_in sub s = (\<exists>p q. s = p @ sub @ q)"
proof (induction s)
  case Nil
  then show ?case by auto
next
  case (Cons c cs)
  show ?case
  proof
    assume "str_in sub (c # cs)"
    then consider "prefix sub (c # cs)" | "str_in sub cs" by auto
    then show "\<exists>p q. c # cs = p @ sub @ q"
    proof cases
      case 1
      then obtain q where "c # cs = [] @ sub @ q" by (auto simp: prefix_def)
      then show ?thesis by blast
    next
      case 2
      with Cons obtain p q where "cs = p @ sub @ q" by blast
      then have "c # cs = (c # p) @ sub @ q" by simp
      then show ?thesis by blast
    qed
  next
    assume "\<exists>p q. c # cs = p @ sub @ q"
    then obtain p q where pq: "c # cs = p @ sub @ q" by blast
    show "str_in sub (c # cs)"
    proof (cases p)
      case Nil
      with pq have "prefix sub (c # cs)" by (simp add: prefix_def)
      then show ?thesis by simp
    next
      case (Cons a p')
      with pq have "cs = p' @ sub @ q" by simp
      with Cons.IH have "str_in sub cs" by blast
      then show ?thesis by simp
    qed
  qed
qed

lemma re_search_None_iff:
  "(re_search r s = None) = (\<forall>p t. s = p @ t \<longrightarrow> rmatch r t = [])"
proof (induction s)
  case Nil
  then show ?case by (auto split: list.splits)
next
  case (Cons c cs)
  have "(\<forall>p t. c # cs = p @ t \<longrightarrow> rmatch r t = []) =
        (rmatch r (c # cs) = [] \<and> (\<forall>p t. cs = p @ t \<longrightarrow> rmatch r t = []))"
    by (auto simp: Cons_eq_append_conv simp del: rmatch.simps rmatch_lit_seq)
  with Cons show ?case
    by (auto split: list.splits simp del: rmatch.simps rmatch_lit_seq)
qed

lemma re_search_Some_sound:
  "re_search r s = Some g \<Longrightarrow> \<exists>p t u. s = p @ t \<and> (g, u) \<in> set (rmatch r t)"
proof (induction s)
  case Nil
  then have "\<exists>u. (g, u) \<in> set (rmatch r [])"
    by (auto split: list.splits simp del: rmatch.simps rmatch_lit_seq)
  then show ?case by auto
next
  case (Cons c cs)
  show ?case
  proof (cases "rmatch r (c # cs)")
    case Nil
    with Cons.prems have "re_search r cs = Some g" by simp
    from Cons.IH [OF this] obtain p t u where "cs = p @ t" "(g, u) \<in> set (rmatch r t)" by blast
    then have "c # cs = (c # p) @ t \<and> (g, u) \<in> set (rmatch r t)" by simp
    then show ?thesis by blast
  next
    case (Cons m ms)
    obtain g' u where m: "m = (g', u)" by (cases m)
    with Cons Cons.prems have "g' = g" by simp
    with Cons m have "c # cs = [] @ (c # cs) \<and> (g, u) \<in> set (rmatch r (c # cs))" by simp
    then show ?thesis by blast
  qed
qed

lemma re_search_size_Some:
  assumes "re_search re_size line = Some g"
  shows "\<exists>n1 u1 n2 u2 p q. g = [n1, u1, n2, u2] \<and>
           line = p @ (n1 @ '' '' @ u1 @ '' / '' @ n2 @ '' '' @ u2) @ q \<and>
           is_decimal n1 \<and> is_unit_word u1 \<and> is_decimal n2 \<and> is_unit_word u2"
proof -
  from re_search_Some_sound [OF assms] obtain p t u where
    pt: "line = p @ t" and m: "(g, u) \<in> set (rmatch re_size t)" by blast
  from m obtain n1 u1 n2 u2 where g: "g = [n1, u1, n2, u2]"
    and t: "t = n1 @ '' '' @ u1 @ '' / '' @ n2 @ '' '' @ u2 @ u"
    and d: "is_decimal n1" "is_unit_word u1" "is_decimal n2" "is_unit_word u2"
    unfolding in_rmatch_size by blast
  from pt t have "line = p @ (n1 @ '' '' @ u1 @ '' / '' @ n2 @ '' '' @ u2) @ u" by simp
  with g d show ?thesis by blast
qed

lemma re_search_percent_Some:
  assumes "re_search re_percent line = Some g"
  shows "\<exists>n p q. g = [n] \<and> line = p @ (n @ ''%'') @ q \<and> is_decimal n"
proof -
  from re_search_Some_sound [OF assms] obtain p t u where
    pt: "line = p @ t" and m: "(g, u) \<in> set (rmatch re_percent t)" by blast
  from m obtain n where g: "g = [n]" and t: "t = n @ ''%'' @ u" and d: "is_decimal n"
    unfolding in_rmatch_percent by blast
  from pt t have "line = p @ (n @ ''%'') @ u" by simp
  with g d show ?thesis by blast
qed

lemma has_percent_iff:
  "has_percent line =
     (\<exists>d. is_digit d \<and> (str_in [d, CHR ''%''] line \<or> str_in [d, CHR ''.'', CHR ''%''] line))"
  unfolding has_percent_def is_digit_def list_ex_iff by blast

lemma decimal_percent_occurs:
  assumes "is_decimal n"
  shows "\<exists>d p. is_digit d \<and> (n @ ''%'' = p @ [d, CHR ''%''] \<or> n @ ''%'' = p @ [d, CHR ''.'', CHR ''%''])"
  using assms
proof (cases rule: is_decimal_cases)
  case digits
  then have "n = butlast n @ [last n]" "is_digit (last n)"
    by (auto simp: list_all_iff)
  then have "is_digit (last n) \<and> n @ ''%'' = butlast n @ [last n, CHR ''%'']"
    by (metis append.assoc append_Cons append_Nil)
  then show ?thesis by blast
next
  case (point ip fp)
  show ?thesis
  proof (cases "fp = []")
    case True
    from point have "ip = butlast ip @ [last ip]" "is_digit (last ip)"
      by (auto simp: list_all_iff)
    then have "is_digit (last ip) \<and> n @ ''%'' = butlast ip @ [last ip, CHR ''.'', CHR ''%'']"
      using point(1) True by (metis append.assoc append_Cons append_Nil)
    then show ?thesis by blast
  next
    case False
    with point have "fp = butlast fp @ [last fp]" "is_digit (last fp)"
      by (auto simp: list_all_iff)
    then have "is_digit (last fp) \<and> n @ ''%'' = (ip @ CHR ''.'' # butlast fp) @ [last fp, CHR ''%'']"
      using point(1) by (metis append.assoc append_Cons append_Nil)
    then show ?thesis by blast
  qed
qed

lemma re_search_percent_None: "(re_search re_percent line = None) = (\<not> has_percent line)"
proof
  assume none: "re_search re_percent line = None"
  show "\<not> has_percent line"
  proof
    assume "has_percent line"
    then obtain d where d: "is_digit d"
      and occ: "str_in [d, CHR ''%''] line \<or> str_in [d, CHR ''.'', CHR ''%''] line"
      unfolding has_percent_iff by blast
    have "\<exists>n p q. line = p @ (n @ ''%'' @ q) \<and> (n = [d] \<or> n = [d, CHR ''.''])"
    proof -
      from occ consider p q where "line = p @ [d, CHR ''%''] @ q"
        | p q where "line = p @ [d, CHR ''.'', CHR ''%''] @ q"
        unfolding str_in_iff by blast
      then show ?thesis
      proof cases
        case 1
        then have "line = p @ ([d] @ ''%'' @ q)" by simp
        then show ?thesis by blast
      next
        case 2
        then have "line = p @ ([d, CHR ''.''] @ ''%'' @ q)" by simp
        then show ?thesis by blast
      qed
    qed
    then obtain n p q where n: "line = p @ (n @ ''%'' @ q)" "n = [d] \<or> n = [d, CHR ''.'']"
      by blast
    have "is_decimal n"
      using n(2) d is_decimal_digits [of "[d]"] is_decimal_point [of "[d]" "[]"] by auto
    then have "([n], q) \<in> set (rmatch re_percent (n @ ''%'' @ q))"
      unfolding in_rmatch_percent by blast
    moreover from none n(1) have "rmatch re_percent (n @ ''%'' @ q) = []"
      unfolding re_search_None_iff by blast
    ultimately show False by simp
  qed
next
  assume np: "\<not> has_percent line"
  show "re_search re_percent line = None"
    unfolding re_search_None_iff
  proof (intro allI impI)
    fix p t
    assume pt: "line = p @ t"
    show "rmatch re_percent t = []"
    proof (rule ccontr)
      assume "rmatch re_percent t \<noteq> []"
      then obtain g u where "(g, u) \<in> set (rmatch re_percent t)"
        by (cases "rmatch re_percent t") auto
      then obtain n where n: "t = n @ ''%'' @ u" "is_decimal n"
        unfolding in_rmatch_percent by blast
      from decimal_percent_occurs [OF n(2)] obtain d p' where d: "is_digit d"
        and o: "n @ ''%'' = p' @ [d, CHR ''%''] \<or> n @ ''%'' = p' @ [d, CHR ''.'', CHR ''%'']"
        by blast
      from o have "line = (p @ p') @ [d, CHR ''%''] @ u \<or> line = (p @ p') @ [d, CHR ''.'', CHR ''%''] @ u"
        using pt n(1) by (metis append.assoc)
      then have "str_in [d, CHR ''%''] line \<or> str_in [d, CHR ''.'', CHR ''%''] line"
        unfolding str_in_iff by blast
      with d np show False unfolding has_percent_iff by blast
    qed
  qed
qed

lemma re_search_size_None_iff:
  "(re_search re_size line = None) =
     (\<not> (\<exists>n1 u1 n2 u2 p q. line = p @ (n1 @ '' '' @ u1 @ '' / '' @ n2 @ '' '' @ u2) @ q \<and>
           is_decimal n1 \<and> is_unit_word u1 \<and> is_decimal n2 \<and> is_unit_word u2))"
proof
  assume none: "re_search re_size line = None"
  show "\<not> (\<exists>n1 u1 n2 u2 p q. line = p @ (n1 @ '' '' @ u1 @ '' / '' @ n2 @ '' '' @ u2) @ q \<and>
           is_decimal n1 \<and> is_unit_word u1 \<and> is_decimal n2 \<and> is_unit_word u2)"
  proof
    assume "\<exists>n1 u1 n2 u2 p q. line = p @ (n1 @ '' '' @ u1 @ '' / '' @ n2 @ '' '' @ u2) @ q \<and>
           is_decimal n1 \<and> is_unit_word u1 \<and> is_decimal n2 \<and> is_unit_word u2"
    then obtain n1 u1 n2 u2 p q where
      l: "line = p @ (n1 @ '' '' @ u1 @ '' / '' @ n2 @ '' '' @ u2 @ q)"
      and d: "is_decimal n1" "is_unit_word u1" "is_decimal n2" "is_unit_word u2"
      by auto
    from d have "([n1, u1, n2, u2], q) \<in> set (rmatch re_size (n1 @ '' '' @ u1 @ '' / '' @ n2 @ '' '' @ u2 @ q))"
      unfolding in_rmatch_size by blast
    moreover from none l have "rmatch re_size (n1 @ '' '' @ u1 @ '' / '' @ n2 @ '' '' @ u2 @ q) = []"
      unfolding re_search_None_iff by blast
    ultimately show False by simp
  qed
next
  assume no: "\<not> (\<exists>n1 u1 n2 u2 p q. line = p @ (n1 @ '' '' @ u1 @ '' / '' @ n2 @ '' '' @ u2) @ q \<and>
           is_decimal n1 \<and> is_unit_word u1 \<and> is_decimal n2 \<and> is_unit_word u2)"
  show "re_search re_size line = None"
  proof (cases "re_search re_size line")
    case None
    then show ?thesis .
  next
    case (Some g)
    from re_search_size_Some [OF this] no show ?thesis by blast
  qed
qed

section \<open>The match that the search reports\<close>

lemma concat_all_Nil: "(\<forall>x \<in> set xs. F x = []) \<Longrightarrow> concat (map F xs) = []"
  by (induction xs) auto

lemma first_concat_unique:
  assumes "y \<in> set xs" and "\<forall>x \<in> set xs. x \<noteq> y \<longrightarrow> F x = []"
  shows "(case concat (map F xs) of [] \<Rightarrow> None | m # _ \<Rightarrow> Some m) =
         (case F y of [] \<Rightarrow> None | m # _ \<Rightarrow> Some m)"
  using assms
proof (induction xs)
  case Nil
  then show ?case by simp
next
  case (Cons x xs)
  show ?case
  proof (cases "F x")
    case fx: Nil
    then have c: "concat (map F (x # xs)) = concat (map F xs)" by simp
    show ?thesis
    proof (cases "y \<in> set xs")
      case True
      moreover from Cons.prems(2) have "\<forall>x \<in> set xs. x \<noteq> y \<longrightarrow> F x = []" by simp
      ultimately show ?thesis using Cons.IH c by simp
    next
      case False
      with Cons.prems(1) have xy: "x = y" by simp
      from False Cons.prems(2) have "\<forall>x \<in> set xs. F x = []" by auto
      then have e: "concat (map F xs) = []" by (rule concat_all_Nil)
      show ?thesis by (simp only: c e xy [symmetric] fx list.case)
    qed
  next
    case fx: (Cons m ms)
    with Cons.prems(2) have "x = y" by auto
    with fx show ?thesis by simp
  qed
qed

lemma first_match_seq_unique:
  assumes "(g1, t) \<in> set (rmatch a s)"
    and "\<forall>m \<in> set (rmatch a s). m \<noteq> (g1, t) \<longrightarrow> rmatch b (snd m) = []"
  shows "first_match (RSeq a b) s =
           map_option (\<lambda>(g2, u). (g1 @ g2, u)) (first_match b t)"
proof -
  let ?F = "\<lambda>(g1, t). map (\<lambda>(g2, u). (g1 @ g2, u)) (rmatch b t)"
  have "\<forall>m \<in> set (rmatch a s). m \<noteq> (g1, t) \<longrightarrow> ?F m = []"
    using assms(2) by (auto simp: case_prod_unfold)
  from first_concat_unique [OF assms(1) this]
  have "first_match (RSeq a b) s = (case ?F (g1, t) of [] \<Rightarrow> None | m # _ \<Rightarrow> Some m)"
    by (simp add: first_match_def del: rmatch_lit_seq)
  then show ?thesis
    by (cases "rmatch b t") (auto simp: first_match_def)
qed

lemma first_match_lit_seq:
  "first_match (RSeq (RLit c) r) (c # t) = first_match r t"
  by (simp add: first_match_def)

lemma rmatch_lit_seq_Nil: "t = [] \<or> hd t \<noteq> c \<Longrightarrow> rmatch (RSeq (RLit c) r) t = []"
  by (cases t) auto

lemma first_match_seq_sep:
  assumes "(g1, c # t) \<in> set (rmatch a s)"
    and "\<forall>g' t'. (g', c # t') \<in> set (rmatch a s) \<longrightarrow> g' = g1 \<and> t' = t"
  shows "first_match (RSeq a (RSeq (RLit c) b)) s =
           map_option (\<lambda>(g2, u). (g1 @ g2, u)) (first_match b t)"
proof -
  have "\<forall>m \<in> set (rmatch a s). m \<noteq> (g1, c # t) \<longrightarrow> rmatch (RSeq (RLit c) b) (snd m) = []"
  proof (intro ballI impI)
    fix m assume m: "m \<in> set (rmatch a s)" "m \<noteq> (g1, c # t)"
    obtain g' t' where mm: "m = (g', t')" by (cases m)
    have "t' = [] \<or> hd t' \<noteq> c"
    proof (rule ccontr)
      assume "\<not> (t' = [] \<or> hd t' \<noteq> c)"
      then obtain t'' where "t' = c # t''" by (cases t') auto
      with m mm assms(2) show False by auto
    qed
    then show "rmatch (RSeq (RLit c) b) (snd m) = []"
      unfolding mm snd_conv by (rule rmatch_lit_seq_Nil)
  qed
  from first_match_seq_unique [OF assms(1) this]
  show ?thesis by (simp only: first_match_lit_seq)
qed

lemma not_digit_space [simp]: "\<not> is_digit CHR '' ''"
  by (simp add: is_digit_def)

lemma not_word_space [simp]: "\<not> is_word CHR '' ''"
  by (simp add: is_word_def)

lemma split_unique:
  "x \<notin> set xs \<Longrightarrow> x \<notin> set xs' \<Longrightarrow> xs @ x # ys = xs' @ x # ys' \<Longrightarrow> xs = xs' \<and> ys = ys'"
proof (induction xs arbitrary: xs')
  case Nil
  then show ?case by (cases xs') auto
next
  case (Cons a xs)
  then show ?case by (cases xs') auto
qed

lemma is_decimal_no_space: "is_decimal n \<Longrightarrow> CHR '' '' \<notin> set n"
proof (erule is_decimal_cases)
  assume "list_all is_digit n"
  then show ?thesis using not_digit_space by (auto simp: list_all_iff)
next
  fix ip fp
  assume "n = ip @ CHR ''.'' # fp" "list_all is_digit ip" "list_all is_digit fp"
  then show ?thesis using not_digit_space by (auto simp: list_all_iff)
qed

lemma is_unit_word_no_space: "is_unit_word u \<Longrightarrow> CHR '' '' \<notin> set u"
  using not_word_space by (auto simp: is_unit_word_def list_all_iff)

lemma first_match_number_sep:
  assumes "is_decimal n"
  shows "first_match (RSeq (RGrp re_number) (RSeq (RLit CHR '' '') b)) (n @ CHR '' '' # t) =
           map_option (\<lambda>(g2, u). (n # g2, u)) (first_match b t)"
proof -
  have a: "([n], CHR '' '' # t) \<in> set (rmatch (RGrp re_number) (n @ CHR '' '' # t))"
    unfolding in_rmatch_grp_number using assms by blast
  have b: "\<forall>g' t'. (g', CHR '' '' # t') \<in> set (rmatch (RGrp re_number) (n @ CHR '' '' # t)) \<longrightarrow>
             g' = [n] \<and> t' = t"
  proof (intro allI impI)
    fix g' t'
    assume "(g', CHR '' '' # t') \<in> set (rmatch (RGrp re_number) (n @ CHR '' '' # t))"
    then obtain n' where n': "g' = [n']" "n @ CHR '' '' # t = n' @ CHR '' '' # t'" "is_decimal n'"
      unfolding in_rmatch_grp_number by blast
    have "n = n' \<and> t = t'"
      by (rule split_unique [OF is_decimal_no_space [OF assms] is_decimal_no_space [OF n'(3)] n'(2)])
    with n'(1) show "g' = [n] \<and> t' = t" by simp
  qed
  from first_match_seq_sep [OF a b] show ?thesis by simp
qed

lemma first_match_word_sep:
  assumes "is_unit_word w"
  shows "first_match (RSeq (RGrp (RPlus Word)) (RSeq (RLit CHR '' '') b)) (w @ CHR '' '' # t) =
           map_option (\<lambda>(g2, u). (w # g2, u)) (first_match b t)"
proof -
  have a: "([w], CHR '' '' # t) \<in> set (rmatch (RGrp (RPlus Word)) (w @ CHR '' '' # t))"
    unfolding in_rmatch_grp_word using assms by blast
  have b: "\<forall>g' t'. (g', CHR '' '' # t') \<in> set (rmatch (RGrp (RPlus Word)) (w @ CHR '' '' # t)) \<longrightarrow>
             g' = [w] \<and> t' = t"
  proof (intro allI impI)
    fix g' t'
    assume "(g', CHR '' '' # t') \<in> set (rmatch (RGrp (RPlus Word)) (w @ CHR '' '' # t))"
    then obtain w' where w': "g' = [w']" "w @ CHR '' '' # t = w' @ CHR '' '' # t'" "is_unit_word w'"
      unfolding in_rmatch_grp_word by blast
    have "w = w' \<and> t = t'"
      by (rule split_unique [OF is_unit_word_no_space [OF assms] is_unit_word_no_space [OF w'(3)] w'(2)])
    with w'(1) show "g' = [w] \<and> t' = t" by simp
  qed
  from first_match_seq_sep [OF a b] show ?thesis by simp
qed

lemma first_match_word:
  "first_match (RGrp (RPlus Word)) s =
     (if takeWhile is_word s = [] then None
      else Some ([takeWhile is_word s], dropWhile is_word s))"
proof (cases s)
  case Nil
  then show ?thesis by (simp add: first_match_def)
next
  case (Cons x xs)
  show ?thesis
  proof (cases "is_word x")
    case False
    then show ?thesis using Cons by (simp add: first_match_def)
  next
    case True
    obtain ts where ts: "rests is_word xs = dropWhile is_word xs # ts"
      using rests_Cons by blast
    have "take (length s - length (dropWhile is_word s)) s = takeWhile is_word s"
      by (rule take_length_dropWhile)
    with True Cons have
      "take (Suc (length xs) - length (dropWhile is_word xs)) (x # xs) = x # takeWhile is_word xs"
      by simp
    with True Cons ts show ?thesis
      by (simp add: first_match_def)
  qed
qed

lemma first_match_re_lits: "first_match (re_lits lit r) (lit @ x) = first_match r x"
proof -
  have p: "prefix lit (lit @ x)" by simp
  have d: "drop (length lit) (lit @ x) = x" by simp
  show ?thesis by (simp only: first_match_def rmatch_re_lits p d if_True)
qed

lemma first_match_size:
  assumes "is_decimal n1" "is_unit_word u1" "is_decimal n2" "is_unit_word u2"
    and "post = [] \<or> \<not> is_word (hd post)"
  shows "first_match re_size (n1 @ '' '' @ u1 @ '' / '' @ n2 @ '' '' @ u2 @ post) =
           Some ([n1, u1, n2, u2], post)"
proof -
  let ?W = "RGrp (RPlus Word)"
  let ?D = "RSeq (RGrp re_number) (RSeq (RLit CHR '' '') ?W)"
  have tw: "takeWhile is_word (u2 @ post) = u2" "dropWhile is_word (u2 @ post) = post"
    using assms(4,5) by (cases post; simp add: is_unit_word_def list_all_iff)+
  have w2: "first_match ?W (u2 @ post) = Some ([u2], post)"
    using assms(4) by (simp only: first_match_word tw is_unit_word_def if_False)
  have d: "first_match ?D (n2 @ CHR '' '' # u2 @ post) = Some ([n2, u2], post)"
    by (simp only: first_match_number_sep [OF assms(3)] w2 option.map case_prod_conv)
  have c: "first_match (re_lits ''/ '' ?D) (''/ '' @ n2 @ CHR '' '' # u2 @ post) =
             Some ([n2, u2], post)"
    by (simp only: first_match_re_lits d)
  have b: "first_match (RSeq ?W (RSeq (RLit CHR '' '') (re_lits ''/ '' ?D)))
             (u1 @ CHR '' '' # ''/ '' @ n2 @ CHR '' '' # u2 @ post) = Some ([u1, n2, u2], post)"
    by (simp only: first_match_word_sep [OF assms(2)] c option.map case_prod_conv)
  have a: "first_match (RSeq (RGrp re_number) (RSeq (RLit CHR '' '')
               (RSeq ?W (RSeq (RLit CHR '' '') (re_lits ''/ '' ?D)))))
             (n1 @ CHR '' '' # u1 @ CHR '' '' # ''/ '' @ n2 @ CHR '' '' # u2 @ post) =
             Some ([n1, u1, n2, u2], post)"
    by (simp only: first_match_number_sep [OF assms(1)] b option.map case_prod_conv)
  have r: "re_size = RSeq (RGrp re_number) (RSeq (RLit CHR '' '')
               (RSeq ?W (RSeq (RLit CHR '' '') (re_lits ''/ '' ?D))))"
    by (simp only: re_size_def re_lits.simps)
  have s: "n1 @ '' '' @ u1 @ '' / '' @ n2 @ '' '' @ u2 @ post =
           n1 @ CHR '' '' # u1 @ CHR '' '' # ''/ '' @ n2 @ CHR '' '' # u2 @ post"
    by simp
  show ?thesis by (simp only: r s a)
qed

lemma re_search_skip:
  "no_match_in r pre rest \<Longrightarrow> re_search r (pre @ rest) = re_search r rest"
  by (induction pre) auto

lemma re_search_size_leftmost:
  assumes "is_decimal n1" "is_unit_word u1" "is_decimal n2" "is_unit_word u2"
    and "post = [] \<or> \<not> is_word (hd post)"
    and "no_match_in re_size pre (n1 @ '' '' @ u1 @ '' / '' @ n2 @ '' '' @ u2 @ post)"
  shows "re_search re_size (pre @ n1 @ '' '' @ u1 @ '' / '' @ n2 @ '' '' @ u2 @ post) =
           Some [n1, u1, n2, u2]"
proof -
  let ?e = "n1 @ '' '' @ u1 @ '' / '' @ n2 @ '' '' @ u2 @ post"
  from assms(1) have "n1 \<noteq> []" by (auto simp: is_decimal_def)
  then obtain c cs where e: "?e = c # cs" by (cases n1) auto
  have "first_match re_size ?e = Some ([n1, u1, n2, u2], post)"
    using assms(1-5) by (rule first_match_size)
  then have "re_search re_size ?e = Some [n1, u1, n2, u2]"
    unfolding e by (simp add: re_search_Cons del: re_search.simps)
  with re_search_skip [OF assms(6)] show ?thesis by simp
qed

lemma no_digit_no_match:
  "\<not> list_ex is_digit pre \<Longrightarrow> no_match_in re_size pre rest"
proof (induction pre)
  case Nil
  then show ?case by simp
next
  case (Cons c p)
  have "rmatch re_size (c # p @ rest) = []"
  proof (rule ccontr)
    assume "rmatch re_size (c # p @ rest) \<noteq> []"
    then obtain g t where "(g, t) \<in> set (rmatch re_size (c # p @ rest))"
      by (cases "rmatch re_size (c # p @ rest)") auto
    then obtain n1 x where "c # p @ rest = n1 @ x" "is_decimal n1"
      unfolding in_rmatch_size by blast
    then have "is_digit c"
      by (cases n1) (auto simp: is_decimal_def split: if_splits)
    with Cons.prems show False by simp
  qed
  with Cons show ?case by simp
qed

section \<open>The parser on concrete lines\<close>

lemma exact_arith_simps [simp]:
  "float_of_str exact_arith = decimal_value"
  "float_of_int exact_arith = of_int"
  "total_seconds exact_arith d = d"
  "fdiv exact_arith x y = x / y"
  "fmul exact_arith x y = x * y"
  "fsub exact_arith x y = x - y"
  "fval exact_arith x = Finite x"
  by (simp_all add: exact_arith_def)

lemma fpos_exact [simp]: "fpos exact_arith x = (0 < x)"
  by (simp add: fpos_def)

lemma int_of_float_exact [simp]: "int_of_float exact_arith x = Inr (py_int x)"
  by (simp add: int_of_float_def)

lemma scen_percent: "re_search re_percent ''12.5% 45.30 MB / 362.10 MB'' = Some [''12.5'']"
  by (simp add: re_percent_def re_number_def is_digit_def)

lemma scen_size:
  "re_search re_size ''12.5% 45.30 MB / 362.10 MB'' = Some [''45.30'', ''MB'', ''362.10'', ''MB'']"
  by (simp add: re_size_def re_number_def is_digit_def is_word_def)

lemma scen_floats:
  "decimal_value ''12.5'' = 25 / 2" "decimal_value ''45.30'' = 453 / 10"
  "decimal_value ''362.10'' = 3621 / 10"
  by (simp_all add: decimal_value_def dec_value_def digit_val_def is_digit_def)

lemma small_floats:
  "decimal_value ''1'' = 1" "decimal_value ''2'' = 2" "decimal_value ''3'' = 3"
  "decimal_value ''4'' = 4" "decimal_value ''5'' = 5" "decimal_value ''10'' = 10"
  "decimal_value ''40'' = 40" "decimal_value ''50'' = 50" "decimal_value ''512'' = 512"
  "decimal_value ''99999999'' = 99999999"
  by (simp_all add: decimal_value_def dec_value_def digit_val_def is_digit_def)

lemma neg_percent: "re_search re_percent ''10 MB / 5 MB'' = None"
  by (simp add: re_percent_def re_number_def is_digit_def)

lemma neg_size: "re_search re_size ''10 MB / 5 MB'' = Some [''10'', ''MB'', ''5'', ''MB'']"
  by (simp add: re_size_def re_number_def is_digit_def is_word_def)

lemma other_unit_size: "re_search re_size ''5 TB / 10 TB'' = Some [''5'', ''TB'', ''10'', ''TB'']"
  by (simp add: re_size_def re_number_def is_digit_def is_word_def)

lemma other_unit_percent: "re_search re_percent ''5 TB / 10 TB'' = None"
  by (simp add: re_percent_def re_number_def is_digit_def)

lemma two_expr_size:
  "re_search re_size ''1 x / 2 y 3 MB / 4 MB'' = Some [''1'', ''x'', ''2'', ''y'']"
  by (simp add: re_size_def re_number_def is_digit_def is_word_def)

lemma two_expr_percent: "re_search re_percent ''1 x / 2 y 3 MB / 4 MB'' = None"
  by (simp add: re_percent_def re_number_def is_digit_def)

lemma huge_size:
  "re_search re_size ''1 KB / 99999999 GB'' = Some [''1'', ''KB'', ''99999999'', ''GB'']"
  by (simp add: re_size_def re_number_def is_digit_def is_word_def)

lemma huge_percent: "re_search re_percent ''1 KB / 99999999 GB'' = None"
  by (simp add: re_percent_def re_number_def is_digit_def)

lemma unit_words: "is_unit_word ''KB''" "is_unit_word ''MB''" "is_unit_word ''GB''"
  by (simp_all add: is_unit_word_def is_word_def)

section \<open>Normalisation of the sizes\<close>

text \<open>
  C4, as the claim states it, fails: the line \<^verbatim>\<open>1 x / 2 y 3 MB / 4 MB\<close> contains the size
  expression \<^verbatim>\<open>3 MB / 4 MB\<close>, and the parser writes 1 and 2, the numbers of the text
  \<^verbatim>\<open>1 x / 2 y\<close> that its pattern finds first.
\<close>

theorem parse_progress_size_units_counterexample:
  "str_in (''3'' @ '' '' @ ''MB'' @ '' / '' @ ''4'' @ '' '' @ ''MB'') ''1 x / 2 y 3 MB / 4 MB'' \<and>
   float_of_str exact_arith ''3'' = 3 \<and> float_of_str exact_arith ''4'' = 4 \<and>
   current_size (fst (parse_progress exact_arith 3 ''1 x / 2 y 3 MB / 4 MB''
     (current_download (reset_session 0 ''123456'' init_downloader)))) = PyFloat 1 \<and>
   total_size (fst (parse_progress exact_arith 3 ''1 x / 2 y 3 MB / 4 MB''
     (current_download (reset_session 0 ''123456'' init_downloader)))) = PyFloat 2"
  by (simp add: parse_progress_def two_expr_size two_expr_percent small_floats reset_session_def
      py_int_def timedelta_of_seconds_def Let_def del: re_search.simps)

text \<open>
  C4, amended. The size expression that the parser reads is the leftmost match of its
  pattern: two decimal numbers, each followed by a unit word of letters, digits and
  underscores. When the groups of that match are \<open>n1 u1 / n2 u2\<close>, the parser writes the
  float of \<open>n1\<close> to the current size and the float of \<open>n2\<close> to the total size, normalised
  to megabytes: divided by 1024 under the unit \<^verbatim>\<open>KB\<close>, unchanged under \<^verbatim>\<open>MB\<close>, multiplied by
  1024 under \<^verbatim>\<open>GB\<close>. The sizes are written whether or not the parser raises later in the
  call. And the pattern does find a size expression \<open>n1 u1 / n2 u2\<close> with decimal numbers
  and units among \<^verbatim>\<open>KB\<close>, \<^verbatim>\<open>MB\<close>, \<^verbatim>\<open>GB\<close> that stands in a line after a text \<open>pre\<close> in which
  no match of the pattern starts, and before a text \<open>post\<close> that does not go on with a
  word character.
\<close>

theorem parse_progress_size_units:
  "(re_search re_size line = Some [n1, u1, n2, u2] \<longrightarrow>
      (u1 = ''KB'' \<longrightarrow> current_size (fst (parse_progress fl t line cd)) =
         PyFloat (fdiv fl (float_of_str fl n1) (float_of_int fl 1024))) \<and>
      (u1 = ''MB'' \<longrightarrow> current_size (fst (parse_progress fl t line cd)) =
         PyFloat (float_of_str fl n1)) \<and>
      (u1 = ''GB'' \<longrightarrow> current_size (fst (parse_progress fl t line cd)) =
         PyFloat (fmul fl (float_of_str fl n1) (float_of_int fl 1024))) \<and>
      (u2 = ''KB'' \<longrightarrow> total_size (fst (parse_progress fl t line cd)) =
         PyFloat (fdiv fl (float_of_str fl n2) (float_of_int fl 1024))) \<and>
      (u2 = ''MB'' \<longrightarrow> total_size (fst (parse_progress fl t line cd)) =
         PyFloat (float_of_str fl n2)) \<and>
      (u2 = ''GB'' \<longrightarrow> total_size (fst (parse_progress fl t line cd)) =
         PyFloat (fmul fl (float_of_str fl n2) (float_of_int fl 1024)))) \<and>
   (is_decimal n1 \<and> is_decimal n2 \<and>
    u1 \<in> {''KB'', ''MB'', ''GB''} \<and> u2 \<in> {''KB'', ''MB'', ''GB''} \<and>
    (post = [] \<or> \<not> is_word (hd post)) \<and>
    no_match_in re_size pre (n1 @ '' '' @ u1 @ '' / '' @ n2 @ '' '' @ u2 @ post) \<longrightarrow>
      re_search re_size (pre @ n1 @ '' '' @ u1 @ '' / '' @ n2 @ '' '' @ u2 @ post) =
        Some [n1, u1, n2, u2])"
proof (intro conjI impI)
  assume a: "is_decimal n1 \<and> is_decimal n2 \<and>
    u1 \<in> {''KB'', ''MB'', ''GB''} \<and> u2 \<in> {''KB'', ''MB'', ''GB''} \<and>
    (post = [] \<or> \<not> is_word (hd post)) \<and>
    no_match_in re_size pre (n1 @ '' '' @ u1 @ '' / '' @ n2 @ '' '' @ u2 @ post)"
  then have "is_unit_word u1" "is_unit_word u2" using unit_words by auto
  with a show "re_search re_size (pre @ n1 @ '' '' @ u1 @ '' / '' @ n2 @ '' '' @ u2 @ post) =
        Some [n1, u1, n2, u2]"
    by (intro re_search_size_leftmost) simp_all
qed (simp_all add: parse_progress_def Let_def split: option.splits list.splits sum.splits)

theorem parse_progress_size_units_witness:
  "re_search re_size ''512 KB / 2 GB'' = Some [''512'', ''KB'', ''2'', ''GB''] \<and>
   current_size (fst (parse_progress exact_arith 3 ''512 KB / 2 GB''
     (current_download init_downloader))) = PyFloat (1 / 2) \<and>
   total_size (fst (parse_progress exact_arith 3 ''512 KB / 2 GB''
     (current_download init_downloader))) = PyFloat 2048 \<and>
   is_decimal ''45.30'' \<and> is_decimal ''362.10'' \<and> \<not> is_word (hd ''[----]'') \<and>
   no_match_in re_size ''12.5% '' (''45.30'' @ '' '' @ ''MB'' @ '' / '' @ ''362.10'' @ '' '' @ ''MB'' @ ''[----]'') \<and>
   re_search re_size (''12.5% '' @ ''45.30'' @ '' '' @ ''MB'' @ '' / '' @ ''362.10'' @ '' '' @ ''MB'' @ ''[----]'') =
     Some [''45.30'', ''MB'', ''362.10'', ''MB'']"
proof -
  have h1: "re_search re_size ''512 KB / 2 GB'' = Some [''512'', ''KB'', ''2'', ''GB'']"
    by (simp add: re_size_def re_number_def is_digit_def is_word_def)
  have h2: "is_decimal ''45.30'' \<and> is_decimal ''362.10'' \<and> \<not> is_word (hd ''[----]'')"
    by (simp add: is_decimal_def is_digit_def is_word_def)
  have h3: "no_match_in re_size ''12.5% ''
      (''45.30'' @ '' '' @ ''MB'' @ '' / '' @ ''362.10'' @ '' '' @ ''MB'' @ ''[----]'')"
    by (simp add: re_size_def re_number_def is_digit_def is_word_def)
  from parse_progress_size_units [of "''512 KB / 2 GB''" "''512''" "''KB''" "''2''" "''GB''"
        exact_arith 3 "current_download init_downloader" "[]" "[]"] h1
  have a: "current_size (fst (parse_progress exact_arith 3 ''512 KB / 2 GB''
       (current_download init_downloader))) =
       PyFloat (fdiv exact_arith (float_of_str exact_arith ''512'') (float_of_int exact_arith 1024))"
    and b: "total_size (fst (parse_progress exact_arith 3 ''512 KB / 2 GB''
       (current_download init_downloader))) =
       PyFloat (fmul exact_arith (float_of_str exact_arith ''2'') (float_of_int exact_arith 1024))"
    by blast+
  from parse_progress_size_units [of "[]" "''45.30''" "''MB''" "''362.10''" "''MB''"
        exact_arith 0 "current_download init_downloader" "''[----]''" "''12.5% ''"] h2 h3
  have c: "re_search re_size (''12.5% '' @ ''45.30'' @ '' '' @ ''MB'' @ '' / '' @ ''362.10'' @
       '' '' @ ''MB'' @ ''[----]'') = Some [''45.30'', ''MB'', ''362.10'', ''MB'']"
    by (simp del: re_search.simps no_match_in.simps)
  from a have a': "current_size (fst (parse_progress exact_arith 3 ''512 KB / 2 GB''
       (current_download init_downloader))) = PyFloat (1 / 2)"
    by (simp add: small_floats del: re_search.simps)
  from b have b': "total_size (fst (parse_progress exact_arith 3 ''512 KB / 2 GB''
       (current_download init_downloader))) = PyFloat 2048"
    by (simp add: small_floats del: re_search.simps)
  from h1 a' b' h2 h3 c show ?thesis by (simp only: simp_thms)
qed

section \<open>Lines without a pattern\<close>

text \<open>
  C5, as the claim states it, fails: the line \<^verbatim>\<open>5 TB / 10 TB\<close> has no percentage value and
  none of the units \<^verbatim>\<open>KB\<close>, \<^verbatim>\<open>MB\<close>, \<^verbatim>\<open>GB\<close> occurs in it, and the parser reads it as a size
  expression in megabytes: four seconds after the start, the current size, the total
  size, the speed and the remaining time change to 5, 10, 1.25 and 4 seconds.
\<close>

theorem parse_progress_unmatched_counterexample:
  "\<not> has_percent ''5 TB / 10 TB'' \<and>
   \<not> str_in ''KB'' ''5 TB / 10 TB'' \<and> \<not> str_in ''MB'' ''5 TB / 10 TB'' \<and>
   \<not> str_in ''GB'' ''5 TB / 10 TB'' \<and>
   current_size (current_download (reset_session 0 ''123456'' init_downloader) :: real session) =
     PyInt 0 \<and>
   current_size (fst (parse_progress exact_arith 4 ''5 TB / 10 TB''
     (current_download (reset_session 0 ''123456'' init_downloader)))) = PyFloat 5 \<and>
   total_size (fst (parse_progress exact_arith 4 ''5 TB / 10 TB''
     (current_download (reset_session 0 ''123456'' init_downloader)))) = PyFloat 10 \<and>
   speed (fst (parse_progress exact_arith 4 ''5 TB / 10 TB''
     (current_download (reset_session 0 ''123456'' init_downloader)))) = PyFloat (5 / 4) \<and>
   remaining_time (fst (parse_progress exact_arith 4 ''5 TB / 10 TB''
     (current_download (reset_session 0 ''123456'' init_downloader)))) = Some 4"
  by (simp add: has_percent_def parse_progress_def other_unit_size other_unit_percent small_floats
      reset_session_def py_int_def timedelta_of_seconds_def Let_def del: re_search.simps)

text \<open>
  C5, amended. For every line with no percentage value (no decimal number right before
  \<^verbatim>\<open>%\<close>) and no size expression, whatever its unit words are, the parser returns and
  leaves the whole session as it was. The search for the percentage finds nothing
  exactly on the lines without a percentage value, and the search for the size
  expression finds nothing exactly on the lines in which no text \<open>n1 u1 / n2 u2\<close> of two
  decimal numbers and two unit words occurs.
\<close>

theorem parse_progress_unmatched:
  "(\<not> has_percent line \<and> re_search re_size line = None \<longrightarrow>
      parse_progress fl t line cd = (cd, None)) \<and>
   (re_search re_percent line = None) = (\<not> has_percent line) \<and>
   (re_search re_size line = None) =
     (\<not> (\<exists>n1 u1 n2 u2 p q.
           line = p @ (n1 @ '' '' @ u1 @ '' / '' @ n2 @ '' '' @ u2) @ q \<and>
           is_decimal n1 \<and> is_unit_word u1 \<and> is_decimal n2 \<and> is_unit_word u2))"
proof (intro conjI impI)
  assume "\<not> has_percent line \<and> re_search re_size line = None"
  then have "re_search re_percent line = None" "re_search re_size line = None"
    by (simp_all add: re_search_percent_None)
  then show "parse_progress fl t line cd = (cd, None)"
    by (simp add: parse_progress_def)
next
  show "(re_search re_percent line = None) = (\<not> has_percent line)"
    by (rule re_search_percent_None)
next
  show "(re_search re_size line = None) =
     (\<not> (\<exists>n1 u1 n2 u2 p q.
           line = p @ (n1 @ '' '' @ u1 @ '' / '' @ n2 @ '' '' @ u2) @ q \<and>
           is_decimal n1 \<and> is_unit_word u1 \<and> is_decimal n2 \<and> is_unit_word u2))"
    by (rule re_search_size_None_iff)
qed

theorem parse_progress_unmatched_witness:
  "\<not> has_percent ''Loading Steam API...OK'' \<and>
   re_search re_size ''Loading Steam API...OK'' = None \<and>
   parse_progress exact_arith 4 ''Loading Steam API...OK''
     (current_download (reset_session 0 ''123456'' init_downloader)) =
     (current_download (reset_session 0 ''123456'' init_downloader), None)"
proof -
  have h: "\<not> has_percent ''Loading Steam API...OK'' \<and>
      re_search re_size ''Loading Steam API...OK'' = None"
    by (simp add: has_percent_def re_size_def re_number_def is_digit_def)
  show ?thesis
    using h parse_progress_unmatched [of "''Loading Steam API...OK''" exact_arith 4
        "current_download (reset_session 0 ''123456'' init_downloader)"]
    by blast
qed

section \<open>Rate and remaining time\<close>

lemma back_size: "re_search re_size ''4 MB / 1 MB'' = Some [''4'', ''MB'', ''1'', ''MB'']"
  by (simp add: re_size_def re_number_def is_digit_def is_word_def)

lemma back_percent: "re_search re_percent ''4 MB / 1 MB'' = None"
  by (simp add: re_percent_def re_number_def is_digit_def)

lemma fwd_size: "re_search re_size ''10 MB / 40 MB'' = Some [''10'', ''MB'', ''40'', ''MB'']"
  by (simp add: re_size_def re_number_def is_digit_def is_word_def)

lemma fwd_percent: "re_search re_percent ''10 MB / 40 MB'' = None"
  by (simp add: re_percent_def re_number_def is_digit_def)

lemma parse_progress_size_found:
  assumes s: "re_search re_size line = Some [n1, u1, n2, u2]" and st: "start_time cd = Some t0"
  shows "\<exists>c t cd2. current_size cd2 = PyFloat c \<and> total_size cd2 = PyFloat t \<and>
     speed cd2 = speed cd \<and> remaining_time cd2 = remaining_time cd \<and>
     parse_progress fl tnow line cd =
       (if fpos fl (total_seconds fl (tnow - t0)) then
          if fpos fl (fdiv fl c (total_seconds fl (tnow - t0))) then
            (case int_of_float fl
                    (fdiv fl (fsub fl t c) (fdiv fl c (total_seconds fl (tnow - t0)))) of
               Inl err \<Rightarrow> (cd2\<lparr>speed := PyFloat (fdiv fl c (total_seconds fl (tnow - t0)))\<rparr>, Some err)
             | Inr n \<Rightarrow>
                 (case timedelta_of_seconds n of
                    Inl err \<Rightarrow>
                      (cd2\<lparr>speed := PyFloat (fdiv fl c (total_seconds fl (tnow - t0)))\<rparr>, Some err)
                  | Inr td \<Rightarrow>
                      (cd2\<lparr>speed := PyFloat (fdiv fl c (total_seconds fl (tnow - t0))),
                           remaining_time := Some td\<rparr>, None)))
          else (cd2\<lparr>speed := PyFloat (fdiv fl c (total_seconds fl (tnow - t0)))\<rparr>, None)
        else (cd2, None))"
proof -
  define cd1 where "cd1 = (case re_search re_percent line of
                   Some (g # _) \<Rightarrow> cd\<lparr>progress := PyFloat (float_of_str fl g)\<rparr>
                 | _ \<Rightarrow> cd)"
  have fr: "start_time cd1 = Some t0" "speed cd1 = speed cd"
      "remaining_time cd1 = remaining_time cd"
    using st by (simp_all add: cd1_def split: option.splits list.splits)
  define c where "c = (if u1 = ''KB'' then fdiv fl (float_of_str fl n1) (float_of_int fl 1024)
               else if u1 = ''GB'' then fmul fl (float_of_str fl n1) (float_of_int fl 1024)
               else float_of_str fl n1)"
  define t where "t = (if u2 = ''KB'' then fdiv fl (float_of_str fl n2) (float_of_int fl 1024)
               else if u2 = ''GB'' then fmul fl (float_of_str fl n2) (float_of_int fl 1024)
               else float_of_str fl n2)"
  define cd2 where "cd2 = cd1\<lparr>current_size := PyFloat c, total_size := PyFloat t\<rparr>"
  have fr2: "current_size cd2 = PyFloat c" "total_size cd2 = PyFloat t" "speed cd2 = speed cd"
      "remaining_time cd2 = remaining_time cd" "start_time cd2 = Some t0"
    using fr by (simp_all add: cd2_def)
  have eq: "parse_progress fl tnow line cd =
       (if fpos fl (total_seconds fl (tnow - t0)) then
          if fpos fl (fdiv fl c (total_seconds fl (tnow - t0))) then
            (case int_of_float fl
                    (fdiv fl (fsub fl t c) (fdiv fl c (total_seconds fl (tnow - t0)))) of
               Inl err \<Rightarrow> (cd2\<lparr>speed := PyFloat (fdiv fl c (total_seconds fl (tnow - t0)))\<rparr>, Some err)
             | Inr n \<Rightarrow>
                 (case timedelta_of_seconds n of
                    Inl err \<Rightarrow>
                      (cd2\<lparr>speed := PyFloat (fdiv fl c (total_seconds fl (tnow - t0)))\<rparr>, Some err)
                  | Inr td \<Rightarrow>
                      (cd2\<lparr>speed := PyFloat (fdiv fl c (total_seconds fl (tnow - t0))),
                           remaining_time := Some td\<rparr>, None)))
          else (cd2\<lparr>speed := PyFloat (fdiv fl c (total_seconds fl (tnow - t0)))\<rparr>, None)
        else (cd2, None))"
    unfolding parse_progress_def s cd1_def [symmetric]
    by (simp add: Let_def fr c_def [symmetric] t_def [symmetric] cd2_def [symmetric] fr2
        del: re_search.simps)
  from fr2 eq show ?thesis by blast
qed

lemma int_of_float_Inr:
  "int_of_float fl x = Inr n \<Longrightarrow> \<exists>r. fval fl x = Finite r \<and> n = py_int r"
  by (cases "fval fl x") (auto simp: int_of_float_def)

lemma timedelta_of_seconds_Inr: "timedelta_of_seconds n = Inr td \<Longrightarrow> td = n"
  by (simp add: timedelta_of_seconds_def split: if_splits)

lemma parse_progress_returns:
  assumes s: "re_search re_size line = Some [n1, u1, n2, u2]" and st: "start_time cd = Some t0"
    and r: "parse_progress fl tnow line cd = (cd', None)"
  shows "\<exists>c t. current_size cd' = PyFloat c \<and> total_size cd' = PyFloat t \<and>
       (fpos fl (total_seconds fl (tnow - t0)) \<longrightarrow>
          speed cd' = PyFloat (fdiv fl c (total_seconds fl (tnow - t0)))) \<and>
       (fpos fl (total_seconds fl (tnow - t0)) \<and>
        fpos fl (fdiv fl c (total_seconds fl (tnow - t0))) \<longrightarrow>
          (\<exists>r. fval fl (fdiv fl (fsub fl t c) (fdiv fl c (total_seconds fl (tnow - t0)))) =
                  Finite r \<and>
               remaining_time cd' = Some (if 0 \<le> r then \<lfloor>r\<rfloor> else \<lceil>r\<rceil>))) \<and>
       (fpos fl (total_seconds fl (tnow - t0)) \<and>
        \<not> fpos fl (fdiv fl c (total_seconds fl (tnow - t0))) \<longrightarrow>
          remaining_time cd' = remaining_time cd) \<and>
       (\<not> fpos fl (total_seconds fl (tnow - t0)) \<longrightarrow>
          speed cd' = speed cd \<and> remaining_time cd' = remaining_time cd)"
proof -
  from parse_progress_size_found [OF s st, of fl tnow] obtain c t cd2 where
    f: "current_size cd2 = PyFloat c" "total_size cd2 = PyFloat t"
       "speed cd2 = speed cd" "remaining_time cd2 = remaining_time cd"
    and eq: "parse_progress fl tnow line cd =
       (if fpos fl (total_seconds fl (tnow - t0)) then
          if fpos fl (fdiv fl c (total_seconds fl (tnow - t0))) then
            (case int_of_float fl
                    (fdiv fl (fsub fl t c) (fdiv fl c (total_seconds fl (tnow - t0)))) of
               Inl err \<Rightarrow> (cd2\<lparr>speed := PyFloat (fdiv fl c (total_seconds fl (tnow - t0)))\<rparr>, Some err)
             | Inr n \<Rightarrow>
                 (case timedelta_of_seconds n of
                    Inl err \<Rightarrow>
                      (cd2\<lparr>speed := PyFloat (fdiv fl c (total_seconds fl (tnow - t0)))\<rparr>, Some err)
                  | Inr td \<Rightarrow>
                      (cd2\<lparr>speed := PyFloat (fdiv fl c (total_seconds fl (tnow - t0))),
                           remaining_time := Some td\<rparr>, None)))
          else (cd2\<lparr>speed := PyFloat (fdiv fl c (total_seconds fl (tnow - t0)))\<rparr>, None)
        else (cd2, None))"
    by blast
  define el where "el = total_seconds fl (tnow - t0)"
  define q where "q = fdiv fl (fsub fl t c) (fdiv fl c el)"
  note eq' = eq [unfolded r, folded el_def, folded q_def]
  have "current_size cd' = PyFloat c \<and> total_size cd' = PyFloat t \<and>
       (fpos fl el \<longrightarrow> speed cd' = PyFloat (fdiv fl c el)) \<and>
       (fpos fl el \<and> fpos fl (fdiv fl c el) \<longrightarrow>
          (\<exists>r. fval fl q = Finite r \<and>
               remaining_time cd' = Some (if 0 \<le> r then \<lfloor>r\<rfloor> else \<lceil>r\<rceil>))) \<and>
       (fpos fl el \<and> \<not> fpos fl (fdiv fl c el) \<longrightarrow> remaining_time cd' = remaining_time cd) \<and>
       (\<not> fpos fl el \<longrightarrow> speed cd' = speed cd \<and> remaining_time cd' = remaining_time cd)"
  proof (cases "fpos fl el")
    case False
    with eq' have "cd' = cd2" by simp
    with False f show ?thesis by simp
  next
    case True
    show ?thesis
    proof (cases "fpos fl (fdiv fl c el)")
      case npos: False
      with True eq' have "cd' = cd2\<lparr>speed := PyFloat (fdiv fl c el)\<rparr>" by simp
      with True npos f show ?thesis by simp
    next
      case pos: True
      from True pos eq' have e: "(cd', None) =
          (case int_of_float fl q of
               Inl err \<Rightarrow> (cd2\<lparr>speed := PyFloat (fdiv fl c el)\<rparr>, Some err)
             | Inr n \<Rightarrow>
                 (case timedelta_of_seconds n of
                    Inl err \<Rightarrow> (cd2\<lparr>speed := PyFloat (fdiv fl c el)\<rparr>, Some err)
                  | Inr td \<Rightarrow>
                      (cd2\<lparr>speed := PyFloat (fdiv fl c el), remaining_time := Some td\<rparr>, None)))"
        by simp
      from e obtain n where n: "int_of_float fl q = Inr n"
        by (cases "int_of_float fl q") simp_all
      from e n obtain td where td: "timedelta_of_seconds n = Inr td"
        by (cases "timedelta_of_seconds n") simp_all
      from e n td have cd': "cd' = cd2\<lparr>speed := PyFloat (fdiv fl c el), remaining_time := Some td\<rparr>"
        by simp
      from int_of_float_Inr [OF n] obtain r where rr: "fval fl q = Finite r" "n = py_int r"
        by blast
      from timedelta_of_seconds_Inr [OF td] rr have "td = (if 0 \<le> r then \<lfloor>r\<rfloor> else \<lceil>r\<rceil>)"
        by (simp add: py_int_def)
      with cd' True pos f rr show ?thesis by simp
    qed
  qed
  then show ?thesis unfolding el_def q_def by blast
qed

lemma rounds_toD:
  "rounds_to fl x y \<Longrightarrow> fval fl x = Finite (fnum fl x) \<and> \<bar>fnum fl x - y\<bar> \<le> \<bar>y\<bar> / 1000000"
  by (cases "fval fl x") (simp_all add: rounds_to_def fnum_def)

lemma fpos_fnum: "fval fl x = Finite (fnum fl x) \<Longrightarrow> fpos fl x = (0 < fnum fl x)"
  by (simp add: fpos_def)

lemma quotient_bounds:
  fixes x y :: real
  assumes "0 < y" "lo * y \<le> x" "x \<le> hi * y"
  shows "lo \<le> x / y \<and> x / y \<le> hi"
  using assms by (simp add: pos_le_divide_eq pos_divide_le_eq)

lemma scenario_numbers:
  fixes va vb ve vr vm vq :: real
  assumes a: "\<bar>va - 453 / 10\<bar> \<le> \<bar>453 / 10\<bar> / 1000000"
    and b: "\<bar>vb - 3621 / 10\<bar> \<le> \<bar>3621 / 10\<bar> / 1000000"
    and e: "\<bar>ve - 10\<bar> \<le> \<bar>10\<bar> / 1000000"
    and r: "\<bar>vr - va / ve\<bar> \<le> \<bar>va / ve\<bar> / 1000000"
    and m: "\<bar>vm - (vb - va)\<bar> \<le> \<bar>vb - va\<bar> / 1000000"
    and q: "\<bar>vq - vm / vr\<bar> \<le> \<bar>vm / vr\<bar> / 1000000"
  shows "0 < ve \<and> 0 < vr \<and> \<bar>vr - 453 / 100\<bar> \<le> 1 / 10000 \<and> 69 \<le> vq \<and> vq < 70"
proof -
  define w where "w = va / ve"
  define z where "z = vm / vr"
  from a have "\<bar>va - 453 / 10\<bar> \<le> 453 / 10000000" by simp
  then have a1: "452999 / 10000 \<le> va" and a2: "va \<le> 453001 / 10000" by linarith+
  from b have "\<bar>vb - 3621 / 10\<bar> \<le> 3621 / 10000000" by simp
  then have b1: "3620996 / 10000 \<le> vb" and b2: "vb \<le> 3621004 / 10000" by linarith+
  from e have "\<bar>ve - 10\<bar> \<le> 1 / 100000" by simp
  then have e1: "99999 / 10000 \<le> ve" and e2: "ve \<le> 100001 / 10000" by linarith+
  from e1 have ve: "0 < ve" by linarith
  have "452994 / 100000 * ve \<le> va" "va \<le> 453006 / 100000 * ve"
    using a1 a2 e1 e2 by linarith+
  with ve have "452994 / 100000 \<le> va / ve \<and> va / ve \<le> 453006 / 100000"
    by (intro quotient_bounds)
  then have w: "452994 / 100000 \<le> w" "w \<le> 453006 / 100000" by (simp_all add: w_def)
  from r have "\<bar>vr - w\<bar> \<le> \<bar>w\<bar> / 1000000" by (simp add: w_def)
  with w have r1: "45299 / 10000 \<le> vr" and r2: "vr \<le> 45301 / 10000" by linarith+
  from r1 have vr: "0 < vr" by linarith
  define dd where "dd = vb - va"
  from a1 a2 b1 b2 have d: "3167995 / 10000 \<le> dd" "dd \<le> 3168005 / 10000"
    unfolding dd_def by linarith+
  from m have "\<bar>vm - dd\<bar> \<le> \<bar>dd\<bar> / 1000000" by (simp add: dd_def)
  with d have m1: "316799 / 1000 \<le> vm" and m2: "vm \<le> 316801 / 1000" by linarith+
  have "6993 / 100 * vr \<le> vm" "vm \<le> 6994 / 100 * vr" using m1 m2 r1 r2 by linarith+
  with vr have "6993 / 100 \<le> vm / vr \<and> vm / vr \<le> 6994 / 100" by (intro quotient_bounds)
  then have z: "6993 / 100 \<le> z" "z \<le> 6994 / 100" by (simp_all add: z_def)
  from q have "\<bar>vq - z\<bar> \<le> \<bar>z\<bar> / 1000000" by (simp add: z_def)
  with z have q1: "69 \<le> vq" and q2: "vq < 70" by linarith+
  from r1 r2 have "\<bar>vr - 453 / 100\<bar> \<le> 1 / 10000" by linarith
  with ve vr q1 q2 show ?thesis by simp
qed

lemma scenario_parse:
  assumes acc: "scenario_accurate fl" and st: "start_time cd = Some t0" and el: "tnow - t0 = 10"
  shows "parse_progress fl tnow ''12.5% 45.30 MB / 362.10 MB'' cd =
        (cd\<lparr>progress := PyFloat (float_of_str fl ''12.5''),
            current_size := PyFloat (float_of_str fl ''45.30''),
            total_size := PyFloat (float_of_str fl ''362.10''),
            speed := PyFloat (fdiv fl (float_of_str fl ''45.30'') (total_seconds fl 10)),
            remaining_time := Some 69\<rparr>, None) \<and>
      \<bar>fnum fl (fdiv fl (float_of_str fl ''45.30'') (total_seconds fl 10)) - 453 / 100\<bar>
        \<le> 1 / 10000"
proof -
  define sa where "sa = float_of_str fl ''45.30''"
  define sb where "sb = float_of_str fl ''362.10''"
  define se where "se = total_seconds fl 10"
  define sr where "sr = fdiv fl sa se"
  define sm where "sm = fsub fl sb sa"
  define sq where "sq = fdiv fl sm sr"
  from acc have r: "rounds_to fl sa (453 / 10)" "rounds_to fl sb (3621 / 10)"
      "rounds_to fl se 10" "rounds_to fl sr (fnum fl sa / fnum fl se)"
      "rounds_to fl sm (fnum fl sb - fnum fl sa)" "rounds_to fl sq (fnum fl sm / fnum fl sr)"
    by (simp_all add: scenario_accurate_def Let_def sa_def sb_def se_def sr_def sm_def sq_def)
  note d = r [THEN rounds_toD]
  from d have fin: "fval fl se = Finite (fnum fl se)" "fval fl sr = Finite (fnum fl sr)"
      "fval fl sq = Finite (fnum fl sq)" by blast+
  from d have "0 < fnum fl se \<and> 0 < fnum fl sr \<and> \<bar>fnum fl sr - 453 / 100\<bar> \<le> 1 / 10000 \<and>
      69 \<le> fnum fl sq \<and> fnum fl sq < 70"
    by (intro scenario_numbers [of "fnum fl sa" "fnum fl sb"  _ _ "fnum fl sm"]) blast+
  then have n: "0 < fnum fl se" "0 < fnum fl sr" "\<bar>fnum fl sr - 453 / 100\<bar> \<le> 1 / 10000"
      "69 \<le> fnum fl sq" "fnum fl sq < 70" by blast+
  from fin n have pe: "fpos fl se" and pr: "fpos fl sr" by (simp_all add: fpos_fnum)
  from n have "\<lfloor>fnum fl sq\<rfloor> = 69" by linarith
  with n have "py_int (fnum fl sq) = 69" by (simp add: py_int_def)
  with fin have i: "int_of_float fl sq = Inr 69" by (simp add: int_of_float_def)
  have td: "timedelta_of_seconds 69 = Inr 69" by (simp add: timedelta_of_seconds_def)
  have "parse_progress fl tnow ''12.5% 45.30 MB / 362.10 MB'' cd =
        (cd\<lparr>progress := PyFloat (float_of_str fl ''12.5''),
            current_size := PyFloat sa, total_size := PyFloat sb,
            speed := PyFloat sr, remaining_time := Some 69\<rparr>, None)"
    unfolding parse_progress_def scen_percent scen_size
    by (simp add: Let_def st el sa_def [symmetric] sb_def [symmetric] se_def [symmetric]
        sr_def [symmetric] sm_def [symmetric] sq_def [symmetric] pe pr i td
        del: re_search.simps)
  with n show ?thesis unfolding sa_def sb_def se_def sr_def by blast
qed

lemma scenario_accurate_exact: "scenario_accurate exact_arith"
  by (simp add: scenario_accurate_def rounds_to_def fnum_def scen_floats Let_def)

text \<open>
  C3, as the claim states it, fails: the remaining time is not rounded down when the
  total is below the current size. On the line \<^verbatim>\<open>4 MB / 1 MB\<close>, two seconds after the
  start, the rate is 2 and the remaining time is \<open>- 1\<close> second, while \<open>(1 - 4) / 2\<close>
  rounded down is \<open>- 2\<close>. Every number of this line is a binary fraction, so that the
  doubles of the program compute it without rounding.
\<close>

theorem parse_progress_rate_eta_counterexample:
  "re_search re_size ''4 MB / 1 MB'' = Some [''4'', ''MB'', ''1'', ''MB''] \<and>
   parse_progress exact_arith 2 ''4 MB / 1 MB''
     (current_download (reset_session 0 ''123456'' init_downloader)) =
     ((current_download (reset_session 0 ''123456'' init_downloader))
        \<lparr>current_size := PyFloat 4, total_size := PyFloat 1, speed := PyFloat 2,
         remaining_time := Some (- 1)\<rparr>, None) \<and>
   \<lfloor>((1::real) - 4) / 2\<rfloor> = - 2"
proof -
  have "\<lceil>- (3::real) / 2\<rceil> = - 1" by linarith
  moreover have "\<lfloor>- (3::real) / 2\<rfloor> = - 2" by linarith
  ultimately show ?thesis
    by (simp add: parse_progress_def back_size back_percent small_floats reset_session_def
        py_int_def timedelta_of_seconds_def Let_def del: re_search.simps)
qed

text \<open>
  C3, amended. For every line with a size expression and every session with a start
  time \<open>t0\<close>, when the parser, run at the time \<open>tnow\<close>, returns the session \<open>cd'\<close>: the
  sizes of \<open>cd'\<close> are the floats \<open>c\<close> and \<open>t\<close> read from the line, and with \<open>el\<close> the
  float of \<open>tnow - t0\<close> in seconds: when \<open>el\<close> is positive the rate is the float quotient
  of \<open>c\<close> by \<open>el\<close>; when that rate is positive too, the float quotient of the float
  difference of \<open>t\<close> and \<open>c\<close> by the rate is finite, and the remaining time is its worth
  with the fraction cut off towards zero: rounded down when it is not negative, rounded
  up when it is negative; when the rate is not positive the remaining time is not
  recomputed; when \<open>el\<close> is not positive neither the rate nor the remaining time is
  recomputed. All the quotients and the difference are those of the float arithmetic,
  with its rounding. On the line \<^verbatim>\<open>12.5% 45.30 MB / 362.10 MB\<close>, ten seconds after the
  start, under every float arithmetic that is accurate to one part in a million on the
  six operations of this computation, the parser returns, the progress is the float of
  \<^verbatim>\<open>12.5\<close>, the sizes are the floats of \<^verbatim>\<open>45.30\<close> and \<^verbatim>\<open>362.10\<close>, the rate is within 0.0001 of
  4.53 and the remaining time is 69 seconds (about 69.93, with the fraction cut off).
\<close>

theorem parse_progress_rate_eta:
  "(re_search re_size line \<noteq> None \<and> start_time cd = Some t0 \<and>
    parse_progress fl tnow line cd = (cd', None) \<longrightarrow>
      (\<exists>c t. current_size cd' = PyFloat c \<and> total_size cd' = PyFloat t \<and>
         (fpos fl (total_seconds fl (tnow - t0)) \<longrightarrow>
            speed cd' = PyFloat (fdiv fl c (total_seconds fl (tnow - t0)))) \<and>
         (fpos fl (total_seconds fl (tnow - t0)) \<and>
          fpos fl (fdiv fl c (total_seconds fl (tnow - t0))) \<longrightarrow>
            (\<exists>r. fval fl (fdiv fl (fsub fl t c) (fdiv fl c (total_seconds fl (tnow - t0)))) =
                    Finite r \<and>
                 remaining_time cd' = Some (if 0 \<le> r then \<lfloor>r\<rfloor> else \<lceil>r\<rceil>))) \<and>
         (fpos fl (total_seconds fl (tnow - t0)) \<and>
          \<not> fpos fl (fdiv fl c (total_seconds fl (tnow - t0))) \<longrightarrow>
            remaining_time cd' = remaining_time cd) \<and>
         (\<not> fpos fl (total_seconds fl (tnow - t0)) \<longrightarrow>
            speed cd' = speed cd \<and> remaining_time cd' = remaining_time cd))) \<and>
   (scenario_accurate fl \<and> start_time cd = Some t0 \<and> tnow - t0 = 10 \<longrightarrow>
      parse_progress fl tnow ''12.5% 45.30 MB / 362.10 MB'' cd =
        (cd\<lparr>progress := PyFloat (float_of_str fl ''12.5''),
            current_size := PyFloat (float_of_str fl ''45.30''),
            total_size := PyFloat (float_of_str fl ''362.10''),
            speed := PyFloat (fdiv fl (float_of_str fl ''45.30'') (total_seconds fl 10)),
            remaining_time := Some 69\<rparr>, None) \<and>
      \<bar>fnum fl (fdiv fl (float_of_str fl ''45.30'') (total_seconds fl 10)) - 453 / 100\<bar>
        \<le> 1 / 10000)"
proof (intro conjI impI)
  assume a: "re_search re_size line \<noteq> None \<and> start_time cd = Some t0 \<and>
    parse_progress fl tnow line cd = (cd', None)"
  then obtain g where g: "re_search re_size line = Some g" by auto
  from re_search_size_Some [OF g] obtain n1 u1 n2 u2 where "g = [n1, u1, n2, u2]" by blast
  with g have s: "re_search re_size line = Some [n1, u1, n2, u2]" by simp
  from a have st: "start_time cd = Some t0"
    and r: "parse_progress fl tnow line cd = (cd', None)" by simp_all
  show "\<exists>c t. current_size cd' = PyFloat c \<and> total_size cd' = PyFloat t \<and>
         (fpos fl (total_seconds fl (tnow - t0)) \<longrightarrow>
            speed cd' = PyFloat (fdiv fl c (total_seconds fl (tnow - t0)))) \<and>
         (fpos fl (total_seconds fl (tnow - t0)) \<and>
          fpos fl (fdiv fl c (total_seconds fl (tnow - t0))) \<longrightarrow>
            (\<exists>r. fval fl (fdiv fl (fsub fl t c) (fdiv fl c (total_seconds fl (tnow - t0)))) =
                    Finite r \<and>
                 remaining_time cd' = Some (if 0 \<le> r then \<lfloor>r\<rfloor> else \<lceil>r\<rceil>))) \<and>
         (fpos fl (total_seconds fl (tnow - t0)) \<and>
          \<not> fpos fl (fdiv fl c (total_seconds fl (tnow - t0))) \<longrightarrow>
            remaining_time cd' = remaining_time cd) \<and>
         (\<not> fpos fl (total_seconds fl (tnow - t0)) \<longrightarrow>
            speed cd' = speed cd \<and> remaining_time cd' = remaining_time cd)"
    by (rule parse_progress_returns [OF s st r])
next
  assume b: "scenario_accurate fl \<and> start_time cd = Some t0 \<and> tnow - t0 = 10"
  then have "scenario_accurate fl" "start_time cd = Some t0" "tnow - t0 = 10" by simp_all
  from scenario_parse [OF this]
  show "parse_progress fl tnow ''12.5% 45.30 MB / 362.10 MB'' cd =
        (cd\<lparr>progress := PyFloat (float_of_str fl ''12.5''),
            current_size := PyFloat (float_of_str fl ''45.30''),
            total_size := PyFloat (float_of_str fl ''362.10''),
            speed := PyFloat (fdiv fl (float_of_str fl ''45.30'') (total_seconds fl 10)),
            remaining_time := Some 69\<rparr>, None)"
    and "\<bar>fnum fl (fdiv fl (float_of_str fl ''45.30'') (total_seconds fl 10)) - 453 / 100\<bar>
        \<le> 1 / 10000"
    by blast+
qed

theorem parse_progress_rate_eta_witness:
  "re_search re_size ''10 MB / 40 MB'' \<noteq> None \<and>
   start_time (current_download (reset_session 0 ''123456'' init_downloader) :: real session) =
     Some 0 \<and>
   snd (parse_progress exact_arith 4 ''10 MB / 40 MB''
     (current_download (reset_session 0 ''123456'' init_downloader))) = None \<and>
   speed (fst (parse_progress exact_arith 4 ''10 MB / 40 MB''
     (current_download (reset_session 0 ''123456'' init_downloader)))) = PyFloat (5 / 2) \<and>
   remaining_time (fst (parse_progress exact_arith 4 ''10 MB / 40 MB''
     (current_download (reset_session 0 ''123456'' init_downloader)))) = Some 12 \<and>
   snd (parse_progress exact_arith 0 ''10 MB / 40 MB''
     (current_download (reset_session 0 ''123456'' init_downloader))) = None \<and>
   speed (fst (parse_progress exact_arith 0 ''10 MB / 40 MB''
     (current_download (reset_session 0 ''123456'' init_downloader)))) = PyInt 0 \<and>
   remaining_time (fst (parse_progress exact_arith 0 ''10 MB / 40 MB''
     (current_download (reset_session 0 ''123456'' init_downloader)))) = None \<and>
   scenario_accurate exact_arith \<and>
   parse_progress exact_arith 10 ''12.5% 45.30 MB / 362.10 MB''
     (current_download (reset_session 0 ''123456'' init_downloader)) =
     ((current_download (reset_session 0 ''123456'' init_downloader))
        \<lparr>progress := PyFloat (25 / 2), current_size := PyFloat (453 / 10),
         total_size := PyFloat (3621 / 10), speed := PyFloat (453 / 100),
         remaining_time := Some 69\<rparr>, None)"
proof -
  define cd where
    "cd = (current_download (reset_session 0 ''123456'' init_downloader) :: real session)"
  define L where "L = ''10 MB / 40 MB''"
  define r4 where "r4 = parse_progress exact_arith 4 L cd"
  define r0 where "r0 = parse_progress exact_arith 0 L cd"
  have s: "re_search re_size L = Some [''10'', ''MB'', ''40'', ''MB'']"
    unfolding L_def by (rule fwd_size)
  have p: "re_search re_percent L = None"
    unfolding L_def by (rule fwd_percent)
  have st: "start_time cd = Some 0" and sp0: "speed cd = PyInt 0"
    and rt0: "remaining_time cd = None"
    by (simp_all add: cd_def reset_session_def)
  have h: "re_search re_size L \<noteq> None" using s by (simp del: re_search.simps)
  have sz: "current_size (fst r4) = PyFloat 10" "total_size (fst r4) = PyFloat 40"
    using parse_progress_size_units [of L "''10''" "''MB''" "''40''" "''MB''" exact_arith 4 cd]
    unfolding r4_def
    by (simp_all add: s small_floats del: re_search.simps)
  have n4: "snd r4 = None" and n0: "snd r0 = None"
    unfolding r4_def r0_def
    by (simp_all add: parse_progress_def s p small_floats cd_def reset_session_def
        py_int_def timedelta_of_seconds_def Let_def del: re_search.simps)
  have hyp4: "re_search re_size L \<noteq> None \<and> start_time cd = Some 0 \<and>
      parse_progress exact_arith 4 L cd = (fst r4, None)"
    using h st n4 unfolding r4_def by (simp add: prod_eq_iff del: re_search.simps)
  have hyp0: "re_search re_size L \<noteq> None \<and> start_time cd = Some 0 \<and>
      parse_progress exact_arith 0 L cd = (fst r0, None)"
    using h st n0 unfolding r0_def by (simp add: prod_eq_iff del: re_search.simps)
  from parse_progress_rate_eta [of L cd 0 exact_arith 4 "fst r4"] hyp4
  obtain c t where ct: "current_size (fst r4) = PyFloat c" "total_size (fst r4) = PyFloat t"
    and c4: "fpos exact_arith (total_seconds exact_arith (4 - 0)) \<longrightarrow>
        speed (fst r4) = PyFloat (fdiv exact_arith c (total_seconds exact_arith (4 - 0)))"
    and e4: "fpos exact_arith (total_seconds exact_arith (4 - 0)) \<and>
          fpos exact_arith (fdiv exact_arith c (total_seconds exact_arith (4 - 0))) \<longrightarrow>
            (\<exists>r. fval exact_arith (fdiv exact_arith (fsub exact_arith t c)
                     (fdiv exact_arith c (total_seconds exact_arith (4 - 0)))) = Finite r \<and>
                 remaining_time (fst r4) = Some (if 0 \<le> r then \<lfloor>r\<rfloor> else \<lceil>r\<rceil>))"
    by blast
  from ct sz have c: "c = 10" and t: "t = 40" by simp_all
  from c4 c have sp: "speed (fst r4) = PyFloat (5 / 2)" by simp
  from e4 c t have rt: "remaining_time (fst r4) = Some 12" by simp
  from parse_progress_rate_eta [of L cd 0 exact_arith 0 "fst r0"] hyp0
  obtain c' t' where c0: "\<not> fpos exact_arith (total_seconds exact_arith (0 - 0)) \<longrightarrow>
      speed (fst r0) = speed cd \<and> remaining_time (fst r0) = remaining_time cd"
    by blast
  from c0 sp0 rt0 have z: "speed (fst r0) = PyInt 0" "remaining_time (fst r0) = None"
    by simp_all
  have acc: "scenario_accurate exact_arith" by (rule scenario_accurate_exact)
  have hyps: "scenario_accurate exact_arith \<and> start_time cd = Some 0 \<and> (10::real) - 0 = 10"
    using acc st by simp
  from parse_progress_rate_eta [of _ cd 0 exact_arith 10] hyps
  have "parse_progress exact_arith 10 ''12.5% 45.30 MB / 362.10 MB'' cd =
        (cd\<lparr>progress := PyFloat (float_of_str exact_arith ''12.5''),
            current_size := PyFloat (float_of_str exact_arith ''45.30''),
            total_size := PyFloat (float_of_str exact_arith ''362.10''),
            speed := PyFloat (fdiv exact_arith (float_of_str exact_arith ''45.30'')
                       (total_seconds exact_arith 10)),
            remaining_time := Some 69\<rparr>, None)"
    by blast
  then have sc: "parse_progress exact_arith 10 ''12.5% 45.30 MB / 362.10 MB'' cd =
     (cd\<lparr>progress := PyFloat (25 / 2), current_size := PyFloat (453 / 10),
         total_size := PyFloat (3621 / 10), speed := PyFloat (453 / 100),
         remaining_time := Some 69\<rparr>, None)"
    by (simp add: scen_floats del: re_search.simps)
  show ?thesis
    unfolding cd_def [symmetric] L_def [symmetric] r4_def [symmetric] r0_def [symmetric]
    using h st n4 sp rt n0 z acc sc by (simp only: simp_thms)
qed

section \<open>Runs on concrete lines\<close>

lemma parse_progress_no_match:
  "re_search re_percent line = None \<Longrightarrow> re_search re_size line = None \<Longrightarrow>
     parse_progress fl t line cd = (cd, None)"
  by (simp add: parse_progress_def)

lemma success_line:
  "re_search re_percent ''Success! App 123456 fully installed.'' = None"
  "re_search re_size ''Success! App 123456 fully installed.'' = None"
  "str_in ''Success!'' ''Success! App 123456 fully installed.''"
  "str_strip ''Success! App 123456 fully installed.'' = ''Success! App 123456 fully installed.''"
  by (simp_all add: re_percent_def re_size_def re_number_def is_digit_def is_word_def
      str_strip_def is_space_def)

lemma success_line_730:
  "re_search re_percent ''Success! App 730 fully installed.'' = None"
  "re_search re_size ''Success! App 730 fully installed.'' = None"
  "str_in ''Success!'' ''Success! App 730 fully installed.''"
  "str_strip ''Success! App 730 fully installed.'' = ''Success! App 730 fully installed.''"
  by (simp_all add: re_percent_def re_size_def re_number_def is_digit_def is_word_def
      str_strip_def is_space_def)

lemma error_line:
  "re_search re_percent ''ERROR! Download stopped at 50%'' = Some [''50'']"
  "re_search re_size ''ERROR! Download stopped at 50%'' = None"
  "\<not> str_in ''Success!'' ''ERROR! Download stopped at 50%''"
  "str_in ''ERROR!'' ''ERROR! Download stopped at 50%''"
  "str_strip ''ERROR! Download stopped at 50%'' = ''ERROR! Download stopped at 50%''"
  by (simp_all add: re_percent_def re_size_def re_number_def is_digit_def is_word_def
      str_strip_def is_space_def)

lemma update_line:
  "re_search re_percent ''Update 50% 1 MB / 2 MB'' = Some [''50'']"
  "re_search re_size ''Update 50% 1 MB / 2 MB'' = Some [''1'', ''MB'', ''2'', ''MB'']"
  "\<not> str_in ''Success!'' ''Update 50% 1 MB / 2 MB''"
  "\<not> str_in ''ERROR!'' ''Update 50% 1 MB / 2 MB''"
  "\<not> str_in ''Failed'' ''Update 50% 1 MB / 2 MB''"
  "str_strip ''Update 50% 1 MB / 2 MB'' = ''Update 50% 1 MB / 2 MB''"
  by (simp_all add: re_percent_def re_size_def re_number_def is_digit_def is_word_def
      str_strip_def is_space_def)

lemma plain_line:
  "re_search re_percent ''Unloading Steam API...OK'' = None"
  "re_search re_size ''Unloading Steam API...OK'' = None"
  "no_marker ''Unloading Steam API...OK''"
  "str_strip ''Unloading Steam API...OK'' = ''Unloading Steam API...OK''"
  by (simp_all add: re_percent_def re_size_def re_number_def is_digit_def is_word_def
      str_strip_def is_space_def no_marker_def)

lemma huge_line:
  "no_marker ''1 KB / 99999999 GB''"
  "str_strip ''1 KB / 99999999 GB'' = ''1 KB / 99999999 GB''"
  by (simp_all add: str_strip_def is_space_def no_marker_def)

lemma started:
  "fst (download_game \<lparr>clock = t, makedirs_error = None, popen_error = None\<rparr> ''123456''
         u p a d) =
     d\<lparr>process := Some Running,
       current_download :=
         \<lparr>game_id = Some ''123456'', progress = PyInt 0, status = Downloading,
          start_time = Some t, current_size = PyInt 0, total_size = PyInt 0, speed = PyInt 0,
          remaining_time = None, log_entries = []\<rparr>\<rparr>"
  by (simp add: download_game_def extract_game_id_def str_isdigit_def is_digit_def
      reset_session_def Let_def)

lemma started_730:
  "fst (download_game \<lparr>clock = t, makedirs_error = None, popen_error = None\<rparr> ''730''
         u p a d) =
     d\<lparr>process := Some Running,
       current_download :=
         \<lparr>game_id = Some ''730'', progress = PyInt 0, status = Downloading,
          start_time = Some t, current_size = PyInt 0, total_size = PyInt 0, speed = PyInt 0,
          remaining_time = None, log_entries = []\<rparr>\<rparr>"
  by (simp add: download_game_def extract_game_id_def str_isdigit_def is_digit_def
      reset_session_def Let_def)

lemma monitor_success_line:
  "monitor_line fl e ''Success! App 123456 fully installed.'' d =
     (create_public_links e
        (d\<lparr>current_download := (current_download d)
             \<lparr>log_entries := log_entries (current_download d) @
                 [''Success! App 123456 fully installed.''],
              status := Completed, progress := PyInt 100\<rparr>\<rparr>), None)"
  by (simp add: monitor_line_def Let_def parse_progress_no_match success_line
      del: re_search.simps str_in.simps)

lemma monitor_success_line_730:
  "monitor_line fl e ''Success! App 730 fully installed.'' d =
     (create_public_links e
        (d\<lparr>current_download := (current_download d)
             \<lparr>log_entries := log_entries (current_download d) @
                 [''Success! App 730 fully installed.''],
              status := Completed, progress := PyInt 100\<rparr>\<rparr>), None)"
  by (simp add: monitor_line_def Let_def parse_progress_no_match success_line_730
      del: re_search.simps str_in.simps)

lemma monitor_error_line:
  "monitor_line exact_arith e ''ERROR! Download stopped at 50%'' d =
     (d\<lparr>current_download := (current_download d)
          \<lparr>log_entries := log_entries (current_download d) @
              [''ERROR! Download stopped at 50%''],
           progress := PyFloat 50, status := Error\<rparr>\<rparr>, None)"
  by (simp add: monitor_line_def Let_def parse_progress_def error_line small_floats
      del: re_search.simps str_in.simps)

lemma monitor_plain_line:
  "monitor_line fl e ''Unloading Steam API...OK'' d =
     (d\<lparr>current_download := (current_download d)
          \<lparr>log_entries := log_entries (current_download d) @
              [''Unloading Steam API...OK'']\<rparr>\<rparr>, None)"
  using plain_line(3)
  by (simp add: monitor_line_def Let_def parse_progress_no_match plain_line no_marker_def
      del: re_search.simps str_in.simps)

section \<open>The success marker\<close>

lemma monitor_lines_calls:
  "snd (monitor_lines fl lines d) = None \<Longrightarrow>
     publisher_calls (fst (monitor_lines fl lines d)) =
       publisher_calls d + length (filter (\<lambda>(e, line). str_in ''Success!'' line) lines)"
proof (induction lines arbitrary: d)
  case Nil
  then show ?case by simp
next
  case (Cons a lines)
  obtain e line where a: "a = (e, line)" by (cases a)
  obtain d1 r where m: "monitor_line fl e line d = (d1, r)" by (cases "monitor_line fl e line d")
  show ?case
  proof (cases r)
    case None
    with Cons.prems a m have "snd (monitor_lines fl lines d1) = None" by simp
    from Cons.IH [OF this] None a m monitor_line_calls [of fl e line d] show ?thesis
      by simp
  next
    case (Some err)
    with Cons.prems a m show ?thesis by simp
  qed
qed

text \<open>
  C6, as the claim states it, fails. A run of the monitor loop that reads two lines with
  the success marker calls the link publisher twice. And a run that reads a line with
  the success marker and then a line with a failure marker and a percentage ends with the
  status \<open>Error\<close> and the progress 50.
\<close>

theorem monitor_success_marker_counterexample:
  "publisher_calls (fst (monitor_download_progress exact_arith
      [(\<lparr>now = 30, fs_error = None, railway_public_url = None\<rparr>,
        ''Success! App 123456 fully installed.''),
       (\<lparr>now = 31, fs_error = None, railway_public_url = None\<rparr>,
        ''Success! App 123456 fully installed.'')]
      (fst (download_game \<lparr>clock = 0, makedirs_error = None, popen_error = None\<rparr>
         ''123456'' [] [] True init_downloader)))) = 2 \<and>
   status (current_download (fst (monitor_download_progress exact_arith
      [(\<lparr>now = 30, fs_error = None, railway_public_url = None\<rparr>,
        ''Success! App 123456 fully installed.''),
       (\<lparr>now = 31, fs_error = None, railway_public_url = None\<rparr>,
        ''ERROR! Download stopped at 50%'')]
      (fst (download_game \<lparr>clock = 0, makedirs_error = None, popen_error = None\<rparr>
         ''123456'' [] [] True init_downloader))))) = Error \<and>
   progress (current_download (fst (monitor_download_progress exact_arith
      [(\<lparr>now = 30, fs_error = None, railway_public_url = None\<rparr>,
        ''Success! App 123456 fully installed.''),
       (\<lparr>now = 31, fs_error = None, railway_public_url = None\<rparr>,
        ''ERROR! Download stopped at 50%'')]
      (fst (download_game \<lparr>clock = 0, makedirs_error = None, popen_error = None\<rparr>
         ''123456'' [] [] True init_downloader))))) = PyFloat 50"
  by (simp add: monitor_download_progress_def monitor_success_line monitor_error_line started
      create_public_links_def monitor_end_def init_downloader_def Let_def
      del: re_search.simps str_in.simps)

text \<open>
  C6, amended. Whenever the monitor loop, after any lines \<open>pre\<close>, reads a line in which
  the success marker \<^verbatim>\<open>Success!\<close> occurs, and the loop has not been ended by an exception
  of the parser, the status is \<open>Completed\<close> and the progress is 100 after that line, and
  the link publisher has been called exactly once for it. Over a whole run of the monitor
  loop that no exception ends, the link publisher is called once for every line with the
  success marker, and at no other point: exactly once when exactly one line of the run
  carries the marker. The lines that follow can change the status and the progress
  again.
\<close>

theorem monitor_success_marker:
  "(str_in ''Success!'' line \<and> snd (monitor_lines fl (pre @ [(e, line)]) d) = None \<longrightarrow>
      status (current_download (fst (monitor_lines fl (pre @ [(e, line)]) d))) = Completed \<and>
      progress (current_download (fst (monitor_lines fl (pre @ [(e, line)]) d))) = PyInt 100 \<and>
      publisher_calls (fst (monitor_lines fl (pre @ [(e, line)]) d)) =
        Suc (publisher_calls (fst (monitor_lines fl pre d)))) \<and>
   (snd (monitor_download_progress fl lines d) = None \<longrightarrow>
      publisher_calls (fst (monitor_download_progress fl lines d)) =
        publisher_calls d + length (filter (\<lambda>(e, line). str_in ''Success!'' line) lines))"
proof (intro conjI impI)
  assume a: "str_in ''Success!'' line \<and> snd (monitor_lines fl (pre @ [(e, line)]) d) = None"
  then have s: "str_in ''Success!'' line"
    and n: "snd (monitor_lines fl (pre @ [(e, line)]) d) = None" by simp_all
  obtain d1 r where p: "monitor_lines fl pre d = (d1, r)" by (cases "monitor_lines fl pre d")
  from monitor_lines_returns_prefix [OF n] p have r: "r = None" by simp
  obtain d2 r2 where m: "monitor_line fl e line d1 = (d2, r2)"
    by (cases "monitor_line fl e line d1")
  from p r m have eq: "monitor_lines fl (pre @ [(e, line)]) d = (d2, r2)"
    by (simp add: monitor_lines_append split: option.splits)
  with n have r2: "snd (monitor_line fl e line d1) = None" using m by simp
  from eq m have f: "fst (monitor_lines fl (pre @ [(e, line)]) d) = fst (monitor_line fl e line d1)"
    by simp
  from p have g: "fst (monitor_lines fl pre d) = d1" by simp
  show "status (current_download (fst (monitor_lines fl (pre @ [(e, line)]) d))) = Completed"
    unfolding f using monitor_line_status [OF r2] s by simp
  show "progress (current_download (fst (monitor_lines fl (pre @ [(e, line)]) d))) = PyInt 100"
    unfolding f using monitor_line_progress [OF r2 s] by simp
  show "publisher_calls (fst (monitor_lines fl (pre @ [(e, line)]) d)) =
        Suc (publisher_calls (fst (monitor_lines fl pre d)))"
    unfolding f g using monitor_line_calls [of fl e line d1] r2 s by simp
next
  assume a: "snd (monitor_download_progress fl lines d) = None"
  obtain d1 r where p: "monitor_lines fl lines d = (d1, r)" by (cases "monitor_lines fl lines d")
  with a have r: "r = None" by (cases r) (simp_all add: monitor_download_progress_def)
  with p have "snd (monitor_lines fl lines d) = None" by simp
  from monitor_lines_calls [OF this] p r
  show "publisher_calls (fst (monitor_download_progress fl lines d)) =
        publisher_calls d + length (filter (\<lambda>(e, line). str_in ''Success!'' line) lines)"
    by (simp add: monitor_download_progress_def monitor_end_calls)
qed

theorem monitor_success_marker_witness:
  "str_in ''Success!'' ''Success! App 123456 fully installed.'' \<and>
   snd (monitor_lines exact_arith
     ([(\<lparr>now = 5, fs_error = None, railway_public_url = None\<rparr>, ''Update 50% 1 MB / 2 MB'')] @
      [(\<lparr>now = 9, fs_error = None, railway_public_url = None\<rparr>,
        ''Success! App 123456 fully installed.'')])
     (fst (download_game \<lparr>clock = 0, makedirs_error = None, popen_error = None\<rparr>
         ''123456'' [] [] True init_downloader))) = None \<and>
   status (current_download (fst (monitor_lines exact_arith
     ([(\<lparr>now = 5, fs_error = None, railway_public_url = None\<rparr>, ''Update 50% 1 MB / 2 MB'')] @
      [(\<lparr>now = 9, fs_error = None, railway_public_url = None\<rparr>,
        ''Success! App 123456 fully installed.'')])
     (fst (download_game \<lparr>clock = 0, makedirs_error = None, popen_error = None\<rparr>
         ''123456'' [] [] True init_downloader))))) = Completed \<and>
   progress (current_download (fst (monitor_lines exact_arith
     ([(\<lparr>now = 5, fs_error = None, railway_public_url = None\<rparr>, ''Update 50% 1 MB / 2 MB'')] @
      [(\<lparr>now = 9, fs_error = None, railway_public_url = None\<rparr>,
        ''Success! App 123456 fully installed.'')])
     (fst (download_game \<lparr>clock = 0, makedirs_error = None, popen_error = None\<rparr>
         ''123456'' [] [] True init_downloader))))) = PyInt 100 \<and>
   snd (monitor_download_progress exact_arith
     [(\<lparr>now = 5, fs_error = None, railway_public_url = None\<rparr>, ''Update 50% 1 MB / 2 MB''),
      (\<lparr>now = 9, fs_error = None, railway_public_url = None\<rparr>,
        ''Success! App 123456 fully installed.'')]
     (fst (download_game \<lparr>clock = 0, makedirs_error = None, popen_error = None\<rparr>
         ''123456'' [] [] True init_downloader))) = None \<and>
   publisher_calls (fst (monitor_download_progress exact_arith
     [(\<lparr>now = 5, fs_error = None, railway_public_url = None\<rparr>, ''Update 50% 1 MB / 2 MB''),
      (\<lparr>now = 9, fs_error = None, railway_public_url = None\<rparr>,
        ''Success! App 123456 fully installed.'')]
     (fst (download_game \<lparr>clock = 0, makedirs_error = None, popen_error = None\<rparr>
         ''123456'' [] [] True init_downloader)))) = 1"
proof -
  define d0 where "d0 = fst (download_game \<lparr>clock = 0, makedirs_error = None, popen_error = None\<rparr>
         ''123456'' [] [] True (init_downloader :: real downloader))"
  define e5 where "e5 = \<lparr>now = 5, fs_error = None, railway_public_url = None\<rparr>"
  define e9 where "e9 = \<lparr>now = 9, fs_error = None, railway_public_url = None\<rparr>"
  define L1 where "L1 = ''Update 50% 1 MB / 2 MB''"
  define L2 where "L2 = ''Success! App 123456 fully installed.''"
  have h: "str_in ''Success!'' L2" unfolding L2_def by (rule success_line)
  have u: "snd (monitor_line exact_arith e5 L1 d0) = None"
    unfolding L1_def e5_def d0_def started
    by (simp add: monitor_line_def parse_progress_def update_line small_floats py_int_def
        timedelta_of_seconds_def init_downloader_def Let_def del: re_search.simps str_in.simps)
  have n1: "snd (monitor_lines exact_arith ([(e5, L1)] @ [(e9, L2)]) d0) = None"
    using u unfolding L2_def
    by (cases "monitor_line exact_arith e5 L1 d0") (simp add: monitor_success_line)
  then have n2: "snd (monitor_download_progress exact_arith [(e5, L1), (e9, L2)] d0) = None"
    by (cases "monitor_lines exact_arith [(e5, L1), (e9, L2)] d0")
      (auto simp: monitor_download_progress_def split: option.splits)
  have c0: "publisher_calls d0 = 0"
    unfolding d0_def started by (simp add: init_downloader_def)
  have cnt: "length (filter (\<lambda>(e, line). str_in ''Success!'' line) [(e5, L1), (e9, L2)]) = 1"
    using h update_line(3) unfolding L1_def by (simp del: str_in.simps)
  from monitor_success_marker [of L2 exact_arith "[(e5, L1)]" e9 d0 "[(e5, L1), (e9, L2)]"] h n1 n2
  have a: "status (current_download (fst (monitor_lines exact_arith ([(e5, L1)] @ [(e9, L2)]) d0))) =
        Completed"
    and b: "progress (current_download (fst (monitor_lines exact_arith ([(e5, L1)] @ [(e9, L2)]) d0))) =
        PyInt 100"
    and c: "publisher_calls (fst (monitor_download_progress exact_arith [(e5, L1), (e9, L2)] d0)) =
        publisher_calls d0 +
          length (filter (\<lambda>(e, line). str_in ''Success!'' line) [(e5, L1), (e9, L2)])"
    by blast+
  from c c0 cnt
  have c': "publisher_calls (fst (monitor_download_progress exact_arith [(e5, L1), (e9, L2)] d0)) = 1"
    by (simp only: add_0)
  from h n1 a b n2 c' show ?thesis
    unfolding d0_def e5_def e9_def L1_def L2_def by (simp only: simp_thms)
qed

section \<open>The unexpected exit\<close>

lemma monitor_lines_no_marker:
  "list_all (\<lambda>(e, line). no_marker line) lines \<Longrightarrow> snd (monitor_lines fl lines d) = None \<Longrightarrow>
     status (current_download (fst (monitor_lines fl lines d))) = status (current_download d) \<and>
     log_entries (current_download (fst (monitor_lines fl lines d))) =
       log_entries (current_download d) @ map (\<lambda>(e, line). str_strip line) lines"
proof (induction lines arbitrary: d)
  case Nil
  then show ?case by simp
next
  case (Cons a lines)
  obtain e line where a: "a = (e, line)" by (cases a)
  obtain d1 r where m: "monitor_line fl e line d = (d1, r)" by (cases "monitor_line fl e line d")
  from Cons.prems a have nm: "no_marker line"
    and rest: "list_all (\<lambda>(e, line). no_marker line) lines" by simp_all
  show ?case
  proof (cases r)
    case None
    with Cons.prems a m have n: "snd (monitor_lines fl lines d1) = None" by simp
    from None m have r: "snd (monitor_line fl e line d) = None" by simp
    from monitor_line_any_status [OF nm, of fl e d] m
    have st: "status (current_download d1) = status (current_download d)" by simp
    from monitor_line_log [OF r nm] m
    have lg: "log_entries (current_download d1) = log_entries (current_download d) @ [str_strip line]"
      by simp
    from Cons.IH [OF rest n] st lg None a m show ?thesis by simp
  next
    case (Some err)
    with Cons.prems a m show ?thesis by simp
  qed
qed

text \<open>
  When no exception ends the monitor loop, the end of the output is handled as the
  specification says: started under the status \<open>Downloading\<close> over lines without a
  marker, the loop ends with the status \<open>Error\<close> and the entry
  \<^verbatim>\<open>Process ended unexpectedly\<close> after the stripped lines of the child.
\<close>

lemma monitor_end_of_stream:
  assumes "status (current_download d) = Downloading"
    and "list_all (\<lambda>(e, line). no_marker line) lines"
    and "snd (monitor_download_progress fl lines d) = None"
  shows "status (current_download (fst (monitor_download_progress fl lines d))) = Error \<and>
     log_entries (current_download (fst (monitor_download_progress fl lines d))) =
       log_entries (current_download d) @ map (\<lambda>(e, line). str_strip line) lines @
         [''Process ended unexpectedly'']"
proof -
  obtain d1 r where p: "monitor_lines fl lines d = (d1, r)" by (cases "monitor_lines fl lines d")
  with assms(3) have r: "r = None" by (cases r) (simp_all add: monitor_download_progress_def)
  with p have "snd (monitor_lines fl lines d) = None" by simp
  from monitor_lines_no_marker [OF assms(2) this] p assms(1)
  have "status (current_download d1) = Downloading"
    "log_entries (current_download d1) =
       log_entries (current_download d) @ map (\<lambda>(e, line). str_strip line) lines"
    by simp_all
  with p r show ?thesis
    by (simp add: monitor_download_progress_def monitor_end_def Let_def)
qed

text \<open>
  C7 fails in the program. A download of the game 123456 is started at the time 0; ten
  seconds later the child writes the line \<^verbatim>\<open>1 KB / 99999999 GB\<close>, which carries no marker,
  and exits. The parser computes a remaining time of about \<open>10 ^ 15\<close> seconds, more than
  a \<^verbatim>\<open>timedelta\<close> holds, and \<^verbatim>\<open>timedelta(seconds=...)\<close> raises \<^verbatim>\<open>OverflowError\<close>. Nothing
  catches it: the monitor thread ends inside the loop, the step after the loop does not
  run, the status stays \<open>Downloading\<close> and the log has no entry
  \<^verbatim>\<open>Process ended unexpectedly\<close>.
\<close>

theorem monitor_unexpected_exit_failure:
  "status (current_download (fst (download_game
      \<lparr>clock = 0, makedirs_error = None, popen_error = None\<rparr> ''123456'' [] [] True
      (init_downloader :: real downloader)))) = Downloading \<and>
   no_marker ''1 KB / 99999999 GB'' \<and>
   snd (monitor_download_progress exact_arith
     [(\<lparr>now = 10, fs_error = None, railway_public_url = None\<rparr>, ''1 KB / 99999999 GB'')]
     (fst (download_game \<lparr>clock = 0, makedirs_error = None, popen_error = None\<rparr>
        ''123456'' [] [] True init_downloader))) = Some OverflowError \<and>
   status (current_download (fst (monitor_download_progress exact_arith
     [(\<lparr>now = 10, fs_error = None, railway_public_url = None\<rparr>, ''1 KB / 99999999 GB'')]
     (fst (download_game \<lparr>clock = 0, makedirs_error = None, popen_error = None\<rparr>
        ''123456'' [] [] True init_downloader))))) = Downloading \<and>
   log_entries (current_download (fst (monitor_download_progress exact_arith
     [(\<lparr>now = 10, fs_error = None, railway_public_url = None\<rparr>, ''1 KB / 99999999 GB'')]
     (fst (download_game \<lparr>clock = 0, makedirs_error = None, popen_error = None\<rparr>
        ''123456'' [] [] True init_downloader))))) = [''1 KB / 99999999 GB'']"
proof -
  have q: "(99999999 * 1024 - 1 / 1024) / (1 / 1024 / 10) = (1048575989514230 :: real)"
    by simp
  have t: "timedelta_of_seconds 1048575989514230 = Inl OverflowError"
    by (simp add: timedelta_of_seconds_def)
  have p: "parse_progress exact_arith 10 ''1 KB / 99999999 GB''
      \<lparr>game_id = Some ''123456'', progress = PyInt 0, status = Downloading,
       start_time = Some 0, current_size = PyInt 0, total_size = PyInt 0, speed = PyInt 0,
       remaining_time = None, log_entries = [''1 KB / 99999999 GB'']\<rparr> =
      (\<lparr>game_id = Some ''123456'', progress = PyInt 0, status = Downloading,
        start_time = Some 0, current_size = PyFloat (1 / 1024),
        total_size = PyFloat (99999999 * 1024), speed = PyFloat (1 / 1024 / 10),
        remaining_time = None, log_entries = [''1 KB / 99999999 GB'']\<rparr>, Some OverflowError)"
    unfolding parse_progress_def huge_size huge_percent
    by (simp add: small_floats Let_def q py_int_def t del: re_search.simps)
  show ?thesis
    unfolding started
    by (simp add: monitor_download_progress_def monitor_line_def huge_line p
        init_downloader_def Let_def del: re_search.simps str_in.simps)
qed

section \<open>What changes a terminal status\<close>

text \<open>
  C1, as the claim states it, fails: after the success marker has set the status to
  \<open>Completed\<close> while the child is still running, a further line with a failure marker
  sets it to \<open>Error\<close>, and a cancellation request sets it to \<open>Cancelled\<close>.
\<close>

theorem terminal_status_counterexample:
  "terminal (status (current_download
      (run exact_arith
         [StartDownload \<lparr>clock = 0, makedirs_error = None, popen_error = None\<rparr> ''123456'' [] [] True,
          OutputLine \<lparr>now = 30, fs_error = None, railway_public_url = None\<rparr>
            ''Success! App 123456 fully installed.'']
         init_downloader))) \<and>
   status (current_download
      (run exact_arith
         [StartDownload \<lparr>clock = 0, makedirs_error = None, popen_error = None\<rparr> ''123456'' [] [] True,
          OutputLine \<lparr>now = 30, fs_error = None, railway_public_url = None\<rparr>
            ''Success! App 123456 fully installed.'']
         init_downloader)) = Completed \<and>
   status (current_download
      (run exact_arith
         [StartDownload \<lparr>clock = 0, makedirs_error = None, popen_error = None\<rparr> ''123456'' [] [] True,
          OutputLine \<lparr>now = 30, fs_error = None, railway_public_url = None\<rparr>
            ''Success! App 123456 fully installed.'',
          OutputLine \<lparr>now = 31, fs_error = None, railway_public_url = None\<rparr>
            ''ERROR! Download stopped at 50%'']
         init_downloader)) = Error \<and>
   status (current_download
      (run exact_arith
         [StartDownload \<lparr>clock = 0, makedirs_error = None, popen_error = None\<rparr> ''123456'' [] [] True,
          OutputLine \<lparr>now = 30, fs_error = None, railway_public_url = None\<rparr>
            ''Success! App 123456 fully installed.'',
          CancelRequest]
         init_downloader)) = Cancelled"
  by (simp add: terminal_def started monitor_success_line monitor_error_line
      cancel_download_def poll_is_None_def create_public_links_def Let_def init_downloader_def
      del: re_search.simps str_in.simps)

text \<open>
  C1, amended. Under a terminal status (\<open>Completed\<close>, \<open>Error\<close> or \<open>Cancelled\<close>) the status
  is left as it is by every output line without a marker, by the step of the monitor
  loop at the end of the output, by a cancellation request made while no child is live,
  and by the status reporter. It is changed, whatever it was, by three operations. A
  line with a marker on which the parser returns sets the status of its marker:
  \<open>Completed\<close> for the success marker, else \<open>Error\<close>. A cancellation request made while a
  child is live sets \<open>Cancelled\<close> and returns \<open>True\<close>. A download request whose identifier
  resolves resets the session to the status \<open>Preparing\<close> and goes on: it returns with the
  status \<open>Downloading\<close> when the child was started and with the status \<open>Error\<close> when the
  start of the child failed; the status \<open>Preparing\<close> is what the request leaves only when
  the creation of the game directory raises.
\<close>

theorem terminal_status_changes:
  "terminal (status (current_download d)) \<longrightarrow>
     (no_marker line \<longrightarrow>
        status (current_download (fst (monitor_line fl e line d))) = status (current_download d)) \<and>
     status (current_download (monitor_end d)) = status (current_download d) \<and>
     (no_live_child d \<longrightarrow>
        status (current_download (fst (cancel_download d))) = status (current_download d)) \<and>
     status (report_session (get_download_status t d)) = status (current_download d) \<and>
     (snd (monitor_line fl e line d) = None \<and> str_in ''Success!'' line \<longrightarrow>
        status (current_download (fst (monitor_line fl e line d))) = Completed) \<and>
     (snd (monitor_line fl e line d) = None \<and> \<not> str_in ''Success!'' line \<and>
      (str_in ''ERROR!'' line \<or> str_in ''Failed'' line) \<longrightarrow>
        status (current_download (fst (monitor_line fl e line d))) = Error) \<and>
     (\<not> no_live_child d \<longrightarrow>
        status (current_download (fst (cancel_download d))) = Cancelled \<and>
        snd (cancel_download d)) \<and>
     (extract_game_id game_input = Some gid \<and> gid \<noteq> [] \<longrightarrow>
        status (current_download (reset_session (clock se) gid d)) = Preparing \<and>
        (makedirs_error se = Some msg \<longrightarrow>
           download_game se game_input username password anonymous d =
             (reset_session (clock se) gid d, Raised msg)) \<and>
        (makedirs_error se = None \<and> popen_error se = None \<longrightarrow>
           status (current_download
             (fst (download_game se game_input username password anonymous d))) = Downloading \<and>
           snd (download_game se game_input username password anonymous d) =
             Returned (True, ''Download started'')) \<and>
        (makedirs_error se = None \<and> popen_error se = Some msg \<longrightarrow>
           status (current_download
             (fst (download_game se game_input username password anonymous d))) = Error \<and>
           snd (download_game se game_input username password anonymous d) =
             Returned (False, ''Download error: '' @ msg)))"
proof (intro impI conjI)
  assume "no_marker line"
  then show "status (current_download (fst (monitor_line fl e line d))) =
      status (current_download d)"
    by (rule monitor_line_any_status)
next
  assume "terminal (status (current_download d))"
  then show "status (current_download (monitor_end d)) = status (current_download d)"
    by (auto simp: terminal_def monitor_end_def Let_def)
next
  assume "no_live_child d"
  then show "status (current_download (fst (cancel_download d))) = status (current_download d)"
    by (auto simp: no_live_child_def cancel_download_def poll_is_None_def)
next
  show "status (report_session (get_download_status t d)) = status (current_download d)"
    by (simp add: get_download_status_def Let_def)
next
  assume "snd (monitor_line fl e line d) = None \<and> str_in ''Success!'' line"
  then show "status (current_download (fst (monitor_line fl e line d))) = Completed"
    using monitor_line_status [of fl e line d] by simp
next
  assume "snd (monitor_line fl e line d) = None \<and> \<not> str_in ''Success!'' line \<and>
      (str_in ''ERROR!'' line \<or> str_in ''Failed'' line)"
  then show "status (current_download (fst (monitor_line fl e line d))) = Error"
    using monitor_line_status [of fl e line d] by auto
next
  assume a: "\<not> no_live_child d"
  then show "status (current_download (fst (cancel_download d))) = Cancelled"
    by (cases "process d") (auto simp: no_live_child_def cancel_download_def poll_is_None_def)
  from a show "snd (cancel_download d)"
    by (cases "process d") (auto simp: no_live_child_def cancel_download_def poll_is_None_def)
next
  show "status (current_download (reset_session (clock se) gid d)) = Preparing"
    by (simp add: reset_session_def)
next
  assume "extract_game_id game_input = Some gid \<and> gid \<noteq> []" "makedirs_error se = Some msg"
  then show "download_game se game_input username password anonymous d =
             (reset_session (clock se) gid d, Raised msg)"
    by (simp add: download_game_def Let_def)
next
  assume a: "extract_game_id game_input = Some gid \<and> gid \<noteq> []"
    "makedirs_error se = None \<and> popen_error se = None"
  then show "status (current_download
             (fst (download_game se game_input username password anonymous d))) = Downloading"
    by (simp add: download_game_def Let_def)
  from a show "snd (download_game se game_input username password anonymous d) =
             Returned (True, ''Download started'')"
    by (simp add: download_game_def Let_def)
next
  assume a: "extract_game_id game_input = Some gid \<and> gid \<noteq> []"
    "makedirs_error se = None \<and> popen_error se = Some msg"
  then show "status (current_download
             (fst (download_game se game_input username password anonymous d))) = Error"
    by (simp add: download_game_def Let_def)
  from a show "snd (download_game se game_input username password anonymous d) =
             Returned (False, ''Download error: '' @ msg)"
    by (simp add: download_game_def Let_def)
qed

theorem terminal_status_changes_witness:
  "terminal (status (current_download
      (run exact_arith
         [StartDownload \<lparr>clock = 0, makedirs_error = None, popen_error = None\<rparr> ''123456'' [] [] True,
          OutputLine \<lparr>now = 30, fs_error = None, railway_public_url = None\<rparr>
            ''Success! App 123456 fully installed.'',
          ChildExit]
         init_downloader))) \<and>
   no_marker ''Unloading Steam API...OK'' \<and>
   no_live_child
      (run exact_arith
         [StartDownload \<lparr>clock = 0, makedirs_error = None, popen_error = None\<rparr> ''123456'' [] [] True,
          OutputLine \<lparr>now = 30, fs_error = None, railway_public_url = None\<rparr>
            ''Success! App 123456 fully installed.'',
          ChildExit]
         init_downloader) \<and>
   status (current_download
      (run exact_arith
         [StartDownload \<lparr>clock = 0, makedirs_error = None, popen_error = None\<rparr> ''123456'' [] [] True,
          OutputLine \<lparr>now = 30, fs_error = None, railway_public_url = None\<rparr>
            ''Success! App 123456 fully installed.'',
          ChildExit,
          OutputLine \<lparr>now = 31, fs_error = None, railway_public_url = None\<rparr>
            ''Unloading Steam API...OK'']
         init_downloader)) = Completed \<and>
   status (current_download
      (run exact_arith
         [StartDownload \<lparr>clock = 0, makedirs_error = None, popen_error = None\<rparr> ''123456'' [] [] True,
          OutputLine \<lparr>now = 30, fs_error = None, railway_public_url = None\<rparr>
            ''Success! App 123456 fully installed.'',
          ChildExit,
          CancelRequest]
         init_downloader)) = Completed \<and>
   status (current_download
      (run exact_arith
         [StartDownload \<lparr>clock = 0, makedirs_error = None, popen_error = None\<rparr> ''123456'' [] [] True,
          OutputLine \<lparr>now = 30, fs_error = None, railway_public_url = None\<rparr>
            ''Success! App 123456 fully installed.'',
          ChildExit,
          StreamEnd]
         init_downloader)) = Completed \<and>
   extract_game_id ''730'' = Some ''730'' \<and>
   status (current_download
      (run exact_arith
         [StartDownload \<lparr>clock = 0, makedirs_error = None, popen_error = None\<rparr> ''123456'' [] [] True,
          OutputLine \<lparr>now = 30, fs_error = None, railway_public_url = None\<rparr>
            ''Success! App 123456 fully installed.'',
          ChildExit,
          StartDownload \<lparr>clock = 60, makedirs_error = None, popen_error = None\<rparr> ''730'' [] [] True]
         init_downloader)) = Downloading \<and>
   terminal (status (current_download
      (run exact_arith
         [StartDownload \<lparr>clock = 0, makedirs_error = None, popen_error = None\<rparr> ''123456'' [] [] True,
          OutputLine \<lparr>now = 30, fs_error = None, railway_public_url = None\<rparr>
            ''Success! App 123456 fully installed.'']
         init_downloader))) \<and>
   \<not> no_live_child
      (run exact_arith
         [StartDownload \<lparr>clock = 0, makedirs_error = None, popen_error = None\<rparr> ''123456'' [] [] True,
          OutputLine \<lparr>now = 30, fs_error = None, railway_public_url = None\<rparr>
            ''Success! App 123456 fully installed.'']
         init_downloader) \<and>
   str_in ''ERROR!'' ''ERROR! Download stopped at 50%'' \<and>
   status (current_download
      (run exact_arith
         [StartDownload \<lparr>clock = 0, makedirs_error = None, popen_error = None\<rparr> ''123456'' [] [] True,
          OutputLine \<lparr>now = 30, fs_error = None, railway_public_url = None\<rparr>
            ''Success! App 123456 fully installed.'',
          OutputLine \<lparr>now = 31, fs_error = None, railway_public_url = None\<rparr>
            ''ERROR! Download stopped at 50%'']
         init_downloader)) = Error \<and>
   status (current_download
      (run exact_arith
         [StartDownload \<lparr>clock = 0, makedirs_error = None, popen_error = None\<rparr> ''123456'' [] [] True,
          OutputLine \<lparr>now = 30, fs_error = None, railway_public_url = None\<rparr>
            ''Success! App 123456 fully installed.'',
          CancelRequest]
         init_downloader)) = Cancelled \<and>
   status (current_download
      (run exact_arith
         [StartDownload \<lparr>clock = 0, makedirs_error = None, popen_error = None\<rparr> ''123456'' [] [] True,
          OutputLine \<lparr>now = 30, fs_error = None, railway_public_url = None\<rparr>
            ''Success! App 123456 fully installed.'',
          OutputLine \<lparr>now = 31, fs_error = None, railway_public_url = None\<rparr>
            ''ERROR! Download stopped at 50%'',
          OutputLine \<lparr>now = 32, fs_error = None, railway_public_url = None\<rparr>
            ''Success! App 123456 fully installed.'']
         init_downloader)) = Completed"
proof -
  define s0 where "s0 = StartDownload \<lparr>clock = 0, makedirs_error = None, popen_error = None\<rparr>
      ''123456'' [] [] True"
  define s60 where "s60 = \<lparr>clock = 60, makedirs_error = None, popen_error = None\<rparr>"
  define e30 where "e30 = \<lparr>now = 30, fs_error = None, railway_public_url = None\<rparr>"
  define e31 where "e31 = \<lparr>now = 31, fs_error = None, railway_public_url = None\<rparr>"
  define e32 where "e32 = \<lparr>now = 32, fs_error = None, railway_public_url = None\<rparr>"
  define LS where "LS = ''Success! App 123456 fully installed.''"
  define LE where "LE = ''ERROR! Download stopped at 50%''"
  define LP where "LP = ''Unloading Steam API...OK''"
  define dB where "dB = run exact_arith [s0, OutputLine e30 LS] init_downloader"
  define dA where "dA = run exact_arith [s0, OutputLine e30 LS, ChildExit] init_downloader"
  define dC where "dC = run exact_arith [s0, OutputLine e30 LS, OutputLine e31 LE] init_downloader"
  have stB: "status (current_download dB) = Completed" and lvB: "\<not> no_live_child dB"
    unfolding dB_def s0_def LS_def e30_def
    by (simp_all add: started monitor_success_line create_public_links_def no_live_child_def
        Let_def init_downloader_def del: re_search.simps str_in.simps)
  have A: "dA = step exact_arith ChildExit dB" unfolding dA_def dB_def by simp
  have stA: "status (current_download dA) = Completed" and nlA: "no_live_child dA"
    unfolding A using stB lvB by (auto simp: no_live_child_def)
  have C: "dC = fst (monitor_line exact_arith e31 LE dB)" unfolding dC_def dB_def by simp
  have rE: "snd (monitor_line exact_arith e31 LE dB) = None"
    unfolding LE_def by (simp add: monitor_error_line)
  have rS: "snd (monitor_line exact_arith e32 LS dC) = None"
    unfolding LS_def by (simp add: monitor_success_line)
  have mk: "no_marker LP" "str_in ''ERROR!'' LE" "\<not> str_in ''Success!'' LE"
      "str_in ''Success!'' LS"
    unfolding LP_def LE_def LS_def by (rule plain_line error_line success_line)+
  have id: "extract_game_id ''730'' = Some ''730''"
    by (simp add: extract_game_id_def str_isdigit_def is_digit_def)
  have tA: "terminal (status (current_download dA))"
    and tB: "terminal (status (current_download dB))"
    using stA stB by (simp_all add: terminal_def)
  have se: "makedirs_error s60 = None \<and> popen_error s60 = None" by (simp add: s60_def)
  note thA = terminal_status_changes [of dA LP exact_arith e31 61 "''730''" "''730''" s60 _ "[]" "[]" True]
  from thA tA mk(1) have a1: "status (current_download (fst (monitor_line exact_arith e31 LP dA))) =
      status (current_download dA)" by blast
  from thA tA have a2: "status (current_download (monitor_end dA)) = status (current_download dA)"
    by blast
  from thA tA nlA have a3: "status (current_download (fst (cancel_download dA))) =
      status (current_download dA)" by blast
  from thA tA id se have a4: "status (current_download
      (fst (download_game s60 ''730'' [] [] True dA))) = Downloading" by blast
  note thB = terminal_status_changes [of dB LE exact_arith e31]
  from thB tB rE mk(2,3) have b1: "status (current_download (fst (monitor_line exact_arith e31 LE dB))) =
      Error" by blast
  from thB tB lvB have b2: "status (current_download (fst (cancel_download dB))) = Cancelled"
    by blast
  from b1 C have tC: "terminal (status (current_download dC))" by (simp add: terminal_def)
  from terminal_status_changes [of dC LS exact_arith e32] tC rS mk(4)
  have c1: "status (current_download (fst (monitor_line exact_arith e32 LS dC))) = Completed"
    by blast
  have r1: "run exact_arith [s0, OutputLine e30 LS, ChildExit, OutputLine e31 LP] init_downloader =
      fst (monitor_line exact_arith e31 LP dA)"
    and r2: "run exact_arith [s0, OutputLine e30 LS, ChildExit, CancelRequest] init_downloader =
      fst (cancel_download dA)"
    and r3: "run exact_arith [s0, OutputLine e30 LS, ChildExit, StreamEnd] init_downloader =
      monitor_end dA"
    and r4: "run exact_arith [s0, OutputLine e30 LS, ChildExit,
        StartDownload s60 ''730'' [] [] True] init_downloader =
      fst (download_game s60 ''730'' [] [] True dA)"
    and r5: "run exact_arith [s0, OutputLine e30 LS, CancelRequest] init_downloader =
      fst (cancel_download dB)"
    and r6: "run exact_arith [s0, OutputLine e30 LS, OutputLine e31 LE, OutputLine e32 LS]
        init_downloader = fst (monitor_line exact_arith e32 LS dC)"
    unfolding dA_def dB_def dC_def by simp_all
  have "terminal (status (current_download dA)) \<and> no_marker LP \<and> no_live_child dA \<and>
     status (current_download (run exact_arith [s0, OutputLine e30 LS, ChildExit, OutputLine e31 LP]
        init_downloader)) = Completed \<and>
     status (current_download (run exact_arith [s0, OutputLine e30 LS, ChildExit, CancelRequest]
        init_downloader)) = Completed \<and>
     status (current_download (run exact_arith [s0, OutputLine e30 LS, ChildExit, StreamEnd]
        init_downloader)) = Completed \<and>
     extract_game_id ''730'' = Some ''730'' \<and>
     status (current_download (run exact_arith [s0, OutputLine e30 LS, ChildExit,
        StartDownload s60 ''730'' [] [] True] init_downloader)) = Downloading \<and>
     terminal (status (current_download dB)) \<and> \<not> no_live_child dB \<and> str_in ''ERROR!'' LE \<and>
     status (current_download dC) = Error \<and>
     status (current_download (run exact_arith [s0, OutputLine e30 LS, CancelRequest]
        init_downloader)) = Cancelled \<and>
     status (current_download (run exact_arith [s0, OutputLine e30 LS, OutputLine e31 LE,
        OutputLine e32 LS] init_downloader)) = Completed"
    unfolding r1 r2 r3 r4 r5 r6
    using tA mk nlA a1 a2 a3 a4 stA id tB lvB b1 b2 c1 C by (simp only: simp_thms)
  then show ?thesis
    unfolding dA_def dB_def dC_def s0_def s60_def e30_def e31_def e32_def LS_def LE_def LP_def .
qed

section \<open>The published links\<close>

text \<open>
  C2 fails in the program. The links are an attribute of the downloader outside the
  session dictionary. A download request resets every key of the session, as
  \<^verbatim>\<open>__init__\<close> sets them, and leaves \<^verbatim>\<open>public_links\<close> as it is, and nothing else clears it.
  After the game 123456 has been downloaded, a request for the game 730 resets the
  session: the status reporter exposes the two links of the game 123456 under the status
  \<open>Preparing\<close> (right after the reset) and \<open>Downloading\<close> (when the request has
  returned). When the download of the game 730 then ends with the success marker while
  the link publisher fails, the status is \<open>Completed\<close> for the game 730 and the user
  interface lists the links of the game 123456.
\<close>

theorem published_links_after_new_request:
  "status (report_session (get_download_status 61
      (run exact_arith
         [StartDownload \<lparr>clock = 0, makedirs_error = None, popen_error = None\<rparr> ''123456'' [] [] True,
          OutputLine \<lparr>now = 30, fs_error = None, railway_public_url = None\<rparr>
            ''Success! App 123456 fully installed.'',
          StartDownload \<lparr>clock = 60, makedirs_error = None, popen_error = None\<rparr> ''730'' [] [] True]
         init_downloader))) = Downloading \<and>
   report_public_links (get_download_status 61
      (run exact_arith
         [StartDownload \<lparr>clock = 0, makedirs_error = None, popen_error = None\<rparr> ''123456'' [] [] True,
          OutputLine \<lparr>now = 30, fs_error = None, railway_public_url = None\<rparr>
            ''Success! App 123456 fully installed.'',
          StartDownload \<lparr>clock = 60, makedirs_error = None, popen_error = None\<rparr> ''730'' [] [] True]
         init_downloader)) =
     [\<lparr>link_name = ''Game Files Directory'', link_url = ''http://localhost:7860/public/app_123456''\<rparr>,
      \<lparr>link_name = ''Game Files Manifest'',
       link_url = ''http://localhost:7860/public/app_123456/manifest.txt''\<rparr>] \<and>
   status (report_session (get_download_status 60 (reset_session 60 ''730''
      (run exact_arith
         [StartDownload \<lparr>clock = 0, makedirs_error = None, popen_error = None\<rparr> ''123456'' [] [] True,
          OutputLine \<lparr>now = 30, fs_error = None, railway_public_url = None\<rparr>
            ''Success! App 123456 fully installed.'']
         init_downloader)))) = Preparing \<and>
   report_public_links (get_download_status 60 (reset_session 60 ''730''
      (run exact_arith
         [StartDownload \<lparr>clock = 0, makedirs_error = None, popen_error = None\<rparr> ''123456'' [] [] True,
          OutputLine \<lparr>now = 30, fs_error = None, railway_public_url = None\<rparr>
            ''Success! App 123456 fully installed.'']
         init_downloader))) =
     [\<lparr>link_name = ''Game Files Directory'', link_url = ''http://localhost:7860/public/app_123456''\<rparr>,
      \<lparr>link_name = ''Game Files Manifest'',
       link_url = ''http://localhost:7860/public/app_123456/manifest.txt''\<rparr>] \<and>
   status (report_session (get_download_status 91
      (run exact_arith
         [StartDownload \<lparr>clock = 0, makedirs_error = None, popen_error = None\<rparr> ''123456'' [] [] True,
          OutputLine \<lparr>now = 30, fs_error = None, railway_public_url = None\<rparr>
            ''Success! App 123456 fully installed.'',
          StartDownload \<lparr>clock = 60, makedirs_error = None, popen_error = None\<rparr> ''730'' [] [] True,
          OutputLine \<lparr>now = 90, fs_error = Some ''Permission denied'', railway_public_url = None\<rparr>
            ''Success! App 730 fully installed.'']
         init_downloader))) = Completed \<and>
   game_id (report_session (get_download_status 91
      (run exact_arith
         [StartDownload \<lparr>clock = 0, makedirs_error = None, popen_error = None\<rparr> ''123456'' [] [] True,
          OutputLine \<lparr>now = 30, fs_error = None, railway_public_url = None\<rparr>
            ''Success! App 123456 fully installed.'',
          StartDownload \<lparr>clock = 60, makedirs_error = None, popen_error = None\<rparr> ''730'' [] [] True,
          OutputLine \<lparr>now = 90, fs_error = Some ''Permission denied'', railway_public_url = None\<rparr>
            ''Success! App 730 fully installed.'']
         init_downloader))) = Some ''730'' \<and>
   update_status_links (get_download_status 91
      (run exact_arith
         [StartDownload \<lparr>clock = 0, makedirs_error = None, popen_error = None\<rparr> ''123456'' [] [] True,
          OutputLine \<lparr>now = 30, fs_error = None, railway_public_url = None\<rparr>
            ''Success! App 123456 fully installed.'',
          StartDownload \<lparr>clock = 60, makedirs_error = None, popen_error = None\<rparr> ''730'' [] [] True,
          OutputLine \<lparr>now = 90, fs_error = Some ''Permission denied'', railway_public_url = None\<rparr>
            ''Success! App 730 fully installed.'']
         init_downloader)) =
     [\<lparr>link_name = ''Game Files Directory'', link_url = ''http://localhost:7860/public/app_123456''\<rparr>,
      \<lparr>link_name = ''Game Files Manifest'',
       link_url = ''http://localhost:7860/public/app_123456/manifest.txt''\<rparr>]"
proof -
  define d1 where "d1 = run exact_arith
         [StartDownload \<lparr>clock = 0, makedirs_error = None, popen_error = None\<rparr> ''123456'' [] [] True,
          OutputLine \<lparr>now = 30, fs_error = None, railway_public_url = None\<rparr>
            ''Success! App 123456 fully installed.'']
         init_downloader"
  have l1: "public_links d1 =
     [\<lparr>link_name = ''Game Files Directory'', link_url = ''http://localhost:7860/public/app_123456''\<rparr>,
      \<lparr>link_name = ''Game Files Manifest'',
       link_url = ''http://localhost:7860/public/app_123456/manifest.txt''\<rparr>]"
    unfolding d1_def
    by (simp add: started monitor_success_line create_public_links_def fmt_game_id_def
        init_downloader_def Let_def del: re_search.simps str_in.simps)
  have r2: "run exact_arith
         [StartDownload \<lparr>clock = 0, makedirs_error = None, popen_error = None\<rparr> ''123456'' [] [] True,
          OutputLine \<lparr>now = 30, fs_error = None, railway_public_url = None\<rparr>
            ''Success! App 123456 fully installed.'',
          StartDownload \<lparr>clock = 60, makedirs_error = None, popen_error = None\<rparr> ''730'' [] [] True]
         init_downloader =
       fst (download_game \<lparr>clock = 60, makedirs_error = None, popen_error = None\<rparr> ''730'' [] [] True d1)"
    and r3: "run exact_arith
         [StartDownload \<lparr>clock = 0, makedirs_error = None, popen_error = None\<rparr> ''123456'' [] [] True,
          OutputLine \<lparr>now = 30, fs_error = None, railway_public_url = None\<rparr>
            ''Success! App 123456 fully installed.'',
          StartDownload \<lparr>clock = 60, makedirs_error = None, popen_error = None\<rparr> ''730'' [] [] True,
          OutputLine \<lparr>now = 90, fs_error = Some ''Permission denied'', railway_public_url = None\<rparr>
            ''Success! App 730 fully installed.'']
         init_downloader =
       fst (monitor_line exact_arith
         \<lparr>now = 90, fs_error = Some ''Permission denied'', railway_public_url = None\<rparr>
         ''Success! App 730 fully installed.''
         (fst (download_game \<lparr>clock = 60, makedirs_error = None, popen_error = None\<rparr>
            ''730'' [] [] True d1)))"
    unfolding d1_def by simp_all
  show ?thesis
    unfolding r2 r3 d1_def [symmetric]
    by (simp add: l1 get_download_status_def update_status_links_def started_730
        monitor_success_line_730 create_public_links_def reset_session_def Let_def
        del: re_search.simps str_in.simps)
qed

end
